(* ===== verification/Usb3_Prelude.thy ===== *)
theory Usb3_Prelude imports Main "HOL-Library.Word" begin

text \<open>
  Shared vocabulary of the development: the fixed-width integers of the C++ sources as words,
  the little-endian byte helpers the descriptors and setup packets are built from, what the
  sources use of \<open>std::vector\<close>, and the result type of code that can abort.
\<close>

unbundle bit_operations_syntax

section \<open>Fact collections\<close>

text \<open>
  \<open>run_simps\<close> collects the equations that execute the result monad, \<open>frame\<close> the facts
  that say which part of the state an operation leaves alone.
\<close>

named_theorems run_simps
named_theorems frame

section \<open>Integers and time\<close>

type_synonym u8 = "8 word"
type_synonym u16 = "16 word"
type_synonym u32 = "32 word"
type_synonym u64 = "64 word"

text \<open>Simulation time (\<open>sc_time\<close>) in nanoseconds, the smallest unit the sources use.\<close>

type_synonym sc_time = nat

abbreviation (input) SC_NS :: "nat \<Rightarrow> sc_time" where "SC_NS n \<equiv> n"

abbreviation (input) SC_US :: "nat \<Rightarrow> sc_time" where "SC_US n \<equiv> 1000 * n"

abbreviation (input) SC_MS :: "nat \<Rightarrow> sc_time" where "SC_MS n \<equiv> 1000000 * n"

section \<open>Little-endian halves of a 16-bit value\<close>

text \<open>\<open>w & 0xFF\<close>, \<open>(w >> 8) & 0xFF\<close> and \<open>lo | (hi << 8)\<close>, as the sources write them.\<close>

definition lo8 :: "u16 \<Rightarrow> u8" where
  "lo8 w = ucast (w AND 0xFF)"

definition hi8 :: "u16 \<Rightarrow> u8" where
  "hi8 w = ucast (drop_bit 8 w AND 0xFF)"

definition le16 :: "u8 \<Rightarrow> u8 \<Rightarrow> u16" where
  "le16 l h = ucast l OR push_bit 8 (ucast h)"

lemma FF_mask: "(0xFF :: 'a::len word) = mask 8"
  by (simp add: mask_eq_exp_minus_1)

lemma bit_lo8: "bit (lo8 w) n \<longleftrightarrow> n < 8 \<and> bit w n"
  by (auto simp: lo8_def FF_mask bit_simps)

lemma bit_hi8: "bit (hi8 w) n \<longleftrightarrow> n < 8 \<and> bit w (8 + n)"
  by (auto simp: hi8_def FF_mask bit_simps)

lemma bit_le16: "bit (le16 l h) n \<longleftrightarrow> (if n < 8 then bit l n else n < 16 \<and> bit h (n - 8))"
  by (auto simp: le16_def bit_simps dest: bit_imp_le_length)

lemma le16_halves [simp]: "le16 (lo8 w) (hi8 w) = w"
  by (rule bit_word_eqI) (auto simp: bit_le16 bit_lo8 bit_hi8)

lemma lo8_le16 [simp]: "lo8 (le16 l h) = l"
  by (rule bit_word_eqI) (auto simp: bit_le16 bit_lo8 bit_hi8)

lemma hi8_le16 [simp]: "hi8 (le16 l h) = h"
  by (rule bit_word_eqI) (auto simp: bit_le16 bit_lo8 bit_hi8)

lemma unat_and_7F: "unat (v AND 0x7F) = unat (v :: 'a::len word) mod 128"
proof -
  have "v AND 0x7F = take_bit 7 v" by (simp add: take_bit_eq_mask mask_eq_exp_minus_1)
  then have "unat (v AND 0x7F) = take_bit 7 (unat v)"
    by (simp only: unsigned_take_bit_eq)
  then show ?thesis by (simp add: take_bit_eq_mod)
qed

section \<open>Vectors\<close>

text \<open>
  A \<open>std::vector\<close> is a list. \<open>resize n v\<close> truncates or pads with \<open>v\<close>; \<open>vec_data\<close> is
  \<open>data()\<close>, which may be null for an empty vector (no operation of the sources tells the two
  apart: every use is guarded by the length).
\<close>

definition vec_resize :: "nat \<Rightarrow> 'a \<Rightarrow> 'a list \<Rightarrow> 'a list" where
  "vec_resize n v xs = take n xs @ replicate (n - length xs) v"

definition vec_data :: "'a list \<Rightarrow> 'a list option" where
  "vec_data xs = (if xs = [] then None else Some xs)"

lemma length_vec_resize [simp]: "length (vec_resize n v xs) = n"
  by (simp add: vec_resize_def)

lemma vec_resize_shrink: "n \<le> length xs \<Longrightarrow> vec_resize n v xs = take n xs"
  by (simp add: vec_resize_def)

lemma vec_resize_empty [simp]: "vec_resize n v [] = replicate n v"
  by (simp add: vec_resize_def)

section \<open>Code that can abort\<close>

text \<open>
  A handler either returns or ends the simulation: a failed \<open>assert\<close>, a read or write outside
  the buffer a payload points to, or a nest of socket calls deeper than the bound the model
  explores (\<open>CallDepth\<close>, excluded by a theorem).
\<close>

datatype abort = AssertFailed string | BadMemory | CallDepth

type_synonym 'a run = "abort + 'a"

fun bindR :: "'a run \<Rightarrow> ('a \<Rightarrow> 'b run) \<Rightarrow> 'b run" where
  "bindR (Inl e) f = Inl e"
| "bindR (Inr x) f = f x"

text \<open>\<open>returns m P\<close>: the code returns, with a result that satisfies \<open>P\<close> (total correctness).\<close>

definition returns :: "'a run \<Rightarrow> ('a \<Rightarrow> bool) \<Rightarrow> bool" where
  "returns m P \<longleftrightarrow> (case m of Inl _ \<Rightarrow> False | Inr x \<Rightarrow> P x)"

declare bindR.simps [run_simps]

lemma returns_Inr [simp, run_simps]: "returns (Inr x) P \<longleftrightarrow> P x"
  by (simp add: returns_def)

lemma returns_Inl [simp, run_simps]: "\<not> returns (Inl e) P"
  by (simp add: returns_def)

lemma returns_bindR: "returns (bindR m f) P \<longleftrightarrow> returns m (\<lambda>x. returns (f x) P)"
  by (cases m) simp_all

lemma returnsE:
  assumes "returns m P"
  obtains x where "m = Inr x" and "P x"
  using assms by (cases m) auto

lemma returns_mono: "returns m P \<Longrightarrow> (\<And>x. P x \<Longrightarrow> Q x) \<Longrightarrow> returns m Q"
  by (cases m) auto

lemma returns_iff_ex: "returns m P \<longleftrightarrow> (\<exists>x. m = Inr x \<and> P x)"
  by (cases m) auto

lemma bindR_eq_Inr: "bindR m f = Inr y \<longleftrightarrow> (\<exists>x. m = Inr x \<and> f x = Inr y)"
  by (cases m) auto

lemma bindR_eq_Inl: "bindR m f = Inl e \<longleftrightarrow> m = Inl e \<or> (\<exists>x. m = Inr x \<and> f x = Inl e)"
  by (cases m) auto

lemma bindR_assoc [run_simps]: "bindR (bindR m f) g = bindR m (\<lambda>x. bindR (f x) g)"
  by (cases m) simp_all

lemma bindR_if [run_simps]: "bindR (if b then m else m') f = (if b then bindR m f else bindR m' f)"
  by simp

lemma bindR_prod [run_simps]: "bindR (case p of (x, y) \<Rightarrow> h x y) g = (case p of (x, y) \<Rightarrow> bindR (h x y) g)"
  by (cases p) simp

lemma bindR_cong [fundef_cong]:
  "m = m' \<Longrightarrow> (\<And>x. m' = Inr x \<Longrightarrow> f x = f' x) \<Longrightarrow> bindR m f = bindR m' f'"
  by (cases m') auto

end
