(* ===== verification/Usb3_Types.thy ===== *)
theory Usb3_Types imports Usb3_Prelude begin

text \<open>
  \<open>include/usb3_types.h\<close>: the enumerations with their underlying values and printed names, the
  setup packet, the payload extension, and what the sources use of a TLM generic payload: its
  command, address, data pointer and length, response status and extension slot.
\<close>

section \<open>Descriptor types and request codes\<close>

definition USB_DESC_DEVICE :: u8 where "USB_DESC_DEVICE = 0x01"
definition USB_DESC_CONFIGURATION :: u8 where "USB_DESC_CONFIGURATION = 0x02"
definition USB_DESC_STRING :: u8 where "USB_DESC_STRING = 0x03"
definition USB_DESC_INTERFACE :: u8 where "USB_DESC_INTERFACE = 0x04"
definition USB_DESC_ENDPOINT :: u8 where "USB_DESC_ENDPOINT = 0x05"
definition USB_DESC_BOS :: u8 where "USB_DESC_BOS = 0x0F"
definition USB_DESC_SS_EP_COMP :: u8 where "USB_DESC_SS_EP_COMP = 0x30"

definition USB_REQ_GET_STATUS :: u8 where "USB_REQ_GET_STATUS = 0x00"
definition USB_REQ_SET_ADDRESS :: u8 where "USB_REQ_SET_ADDRESS = 0x05"
definition USB_REQ_GET_DESCRIPTOR :: u8 where "USB_REQ_GET_DESCRIPTOR = 0x06"
definition USB_REQ_SET_CONFIGURATION :: u8 where "USB_REQ_SET_CONFIGURATION = 0x09"

lemmas usb_desc_defs = USB_DESC_DEVICE_def USB_DESC_CONFIGURATION_def USB_DESC_STRING_def
  USB_DESC_INTERFACE_def USB_DESC_ENDPOINT_def USB_DESC_BOS_def USB_DESC_SS_EP_COMP_def

lemmas usb_req_defs = USB_REQ_GET_STATUS_def USB_REQ_SET_ADDRESS_def USB_REQ_GET_DESCRIPTOR_def
  USB_REQ_SET_CONFIGURATION_def

section \<open>Enumerations\<close>

datatype usb3_role = NONE | HOST | DEVICE

datatype usb_c_cc_state = CC_DISCONNECTED | CC_UFP_ATTACHED | CC_DFP_ATTACHED

datatype usb3_speed = DISCONNECTED | FULL_SPEED | HIGH_SPEED | SUPER_SPEED | SUPER_SPEED_PLUS

datatype usb3_pkt_type = TP_ACK | TP_NRDY | TP_ERDY | TP_STALL | DP_DATA | SETUP | CTRL_DATA
  | CTRL_STATUS | BULK_IN | BULK_OUT

datatype usb3_dir = HOST_TO_DEVICE | DEVICE_TO_HOST

datatype usb3_ep_type = CONTROL | ISOCH | BULK | INTERRUPT

datatype usb3_completion = SUCCESS | STALL_ERR

text \<open>The underlying \<open>uint8_t\<close> values (only the casts the sources perform).\<close>

fun role_val :: "usb3_role \<Rightarrow> u8" where
  "role_val NONE = 0"
| "role_val HOST = 1"
| "role_val DEVICE = 2"

fun speed_val :: "usb3_speed \<Rightarrow> u8" where
  "speed_val DISCONNECTED = 0"
| "speed_val FULL_SPEED = 1"
| "speed_val HIGH_SPEED = 2"
| "speed_val SUPER_SPEED = 3"
| "speed_val SUPER_SPEED_PLUS = 4"

text \<open>
  Roles are ordered by their value, which is also the order in which requests win: a device
  request beats a host request, and NONE is no request.
\<close>

instantiation usb3_role :: linorder
begin

definition less_eq_usb3_role :: "usb3_role \<Rightarrow> usb3_role \<Rightarrow> bool" where
  "less_eq_usb3_role r s \<longleftrightarrow> role_val r \<le> role_val s"

definition less_usb3_role :: "usb3_role \<Rightarrow> usb3_role \<Rightarrow> bool" where
  "less_usb3_role r s \<longleftrightarrow> role_val r < role_val s"

lemma role_val_inj: "role_val r = role_val s \<longleftrightarrow> r = s"
  by (cases r; cases s) simp_all

instance
  by standard
    (auto simp: less_eq_usb3_role_def less_usb3_role_def simp flip: role_val_inj)

end

text \<open>The four overloads of \<open>to_cstr\<close>.\<close>

fun role_to_cstr :: "usb3_role \<Rightarrow> string" where
  "role_to_cstr HOST = ''HOST''"
| "role_to_cstr DEVICE = ''DEVICE''"
| "role_to_cstr NONE = ''NONE''"

fun cc_to_cstr :: "usb_c_cc_state \<Rightarrow> string" where
  "cc_to_cstr CC_UFP_ATTACHED = ''UFP_ATTACHED(Host_Mode)''"
| "cc_to_cstr CC_DFP_ATTACHED = ''DFP_ATTACHED(Device_Mode)''"
| "cc_to_cstr CC_DISCONNECTED = ''DISCONNECTED''"

fun speed_to_cstr :: "usb3_speed \<Rightarrow> string" where
  "speed_to_cstr FULL_SPEED = ''FS''"
| "speed_to_cstr HIGH_SPEED = ''HS''"
| "speed_to_cstr SUPER_SPEED = ''SS''"
| "speed_to_cstr SUPER_SPEED_PLUS = ''SS+''"
| "speed_to_cstr DISCONNECTED = ''DISCONNECTED''"

fun pkt_to_cstr :: "usb3_pkt_type \<Rightarrow> string" where
  "pkt_to_cstr TP_ACK = ''ACK''"
| "pkt_to_cstr TP_NRDY = ''NRDY''"
| "pkt_to_cstr TP_ERDY = ''ERDY''"
| "pkt_to_cstr TP_STALL = ''STALL''"
| "pkt_to_cstr SETUP = ''SETUP''"
| "pkt_to_cstr CTRL_DATA = ''CTRL_DATA''"
| "pkt_to_cstr CTRL_STATUS = ''CTRL_STATUS''"
| "pkt_to_cstr DP_DATA = ''DP_DATA''"
| "pkt_to_cstr BULK_IN = ''BULK_IN''"
| "pkt_to_cstr BULK_OUT = ''BULK_OUT''"

section \<open>Setup packet and extension\<close>

record usb3_setup_pkt =
  bmRequestType :: u8
  bRequest :: u8
  wValue :: u16
  wIndex :: u16
  wLength :: u16

definition default_setup_pkt :: usb3_setup_pkt where
  "default_setup_pkt = \<lparr> bmRequestType = 0, bRequest = 0, wValue = 0, wIndex = 0, wLength = 0 \<rparr>"

record usb3_pkt_ext =
  pkt_type :: usb3_pkt_type
  dev_addr :: u8
  endpoint :: u8
  direction :: usb3_dir
  ep_type :: usb3_ep_type
  completion_code :: usb3_completion
  seq_num :: u32
  setup_pkt :: usb3_setup_pkt

text \<open>The member initialisers of \<open>usb3_pkt_ext_t\<close>.\<close>

definition default_pkt_ext :: usb3_pkt_ext where
  "default_pkt_ext = \<lparr> pkt_type = DP_DATA, dev_addr = 0, endpoint = 0,
     direction = HOST_TO_DEVICE, ep_type = BULK, completion_code = SUCCESS, seq_num = 0,
     setup_pkt = default_setup_pkt \<rparr>"

definition make_usb3_ext ::
  "usb3_pkt_type \<Rightarrow> u8 \<Rightarrow> u8 \<Rightarrow> usb3_dir \<Rightarrow> usb3_ep_type \<Rightarrow> usb3_pkt_ext" where
  "make_usb3_ext t addr ep dir ept =
     default_pkt_ext\<lparr> pkt_type := t, dev_addr := addr, endpoint := ep, direction := dir,
       ep_type := ept \<rparr>"

lemma make_usb3_ext_sel [simp]:
  "pkt_type (make_usb3_ext t a e dr et) = t"
  "dev_addr (make_usb3_ext t a e dr et) = a"
  "endpoint (make_usb3_ext t a e dr et) = e"
  "direction (make_usb3_ext t a e dr et) = dr"
  "ep_type (make_usb3_ext t a e dr et) = et"
  "completion_code (make_usb3_ext t a e dr et) = SUCCESS"
  "seq_num (make_usb3_ext t a e dr et) = 0"
  "setup_pkt (make_usb3_ext t a e dr et) = default_setup_pkt"
  by (simp_all add: make_usb3_ext_def default_pkt_ext_def)

section \<open>Payloads and blocking transport\<close>

datatype tlm_command = TLM_READ_COMMAND | TLM_WRITE_COMMAND | TLM_IGNORE_COMMAND

datatype tlm_response = TLM_OK_RESPONSE | TLM_INCOMPLETE_RESPONSE | TLM_GENERIC_ERROR_RESPONSE

record payload =
  command :: tlm_command
  address :: u64
  data_ptr :: "u8 list option"
  data_length :: nat
  response_status :: tlm_response
  extension :: "usb3_pkt_ext option"

text \<open>
  A freshly constructed \<open>tlm_generic_payload\<close>. \<open>data_ptr\<close> is the memory the data pointer
  refers to (\<open>None\<close> for null), \<open>data_length\<close> the length the initiator declares.
\<close>

definition tlm_generic_payload :: payload where
  "tlm_generic_payload = \<lparr> command = TLM_IGNORE_COMMAND, address = 0, data_ptr = None,
     data_length = 0, response_status = TLM_INCOMPLETE_RESPONSE, extension = None \<rparr>"

text \<open>
  A target's \<open>b_transport\<close>, and an initiator socket bound to it: it takes the payload and the
  delay by reference and runs on the state \<open>'w\<close> of the whole simulation.
\<close>

type_synonym 'w b_transport = "payload \<Rightarrow> sc_time \<Rightarrow> 'w \<Rightarrow> (payload \<times> sc_time \<times> 'w) run"

text \<open>\<open>wait(t)\<close> in a thread: what the other processes make of the state until it resumes.\<close>

type_synonym 'w waiting = "sc_time \<Rightarrow> 'w \<Rightarrow> 'w"

text \<open>Reading \<open>data_length\<close> bytes through the data pointer.\<close>

definition read_data :: "payload \<Rightarrow> u8 list run" where
  "read_data p = (case data_ptr p of
      None \<Rightarrow> if data_length p = 0 then Inr [] else Inl BadMemory
    | Some b \<Rightarrow> if data_length p \<le> length b then Inr (take (data_length p) b) else Inl BadMemory)"

text \<open>A payload is well formed when its length does not run past the memory it points to.\<close>

definition payload_wf :: "payload \<Rightarrow> bool" where
  "payload_wf p \<longleftrightarrow> data_length p \<le> (case data_ptr p of None \<Rightarrow> 0 | Some b \<Rightarrow> length b)"

lemma read_data_wf: "payload_wf p \<Longrightarrow> \<exists>bs. read_data p = Inr bs \<and> length bs = data_length p"
  by (auto simp: payload_wf_def read_data_def split: option.splits)

text \<open>What every initiator of the sources sets before a call.\<close>

definition make_payload :: "tlm_command \<Rightarrow> u8 list \<Rightarrow> usb3_pkt_ext \<Rightarrow> payload" where
  "make_payload cmd bytes e =
     tlm_generic_payload\<lparr> data_ptr := vec_data bytes, data_length := length bytes,
       command := cmd, address := 0, extension := Some e \<rparr>"

lemma make_payload_sel [simp]:
  "command (make_payload c b e) = c"
  "address (make_payload c b e) = 0"
  "data_ptr (make_payload c b e) = vec_data b"
  "data_length (make_payload c b e) = length b"
  "response_status (make_payload c b e) = TLM_INCOMPLETE_RESPONSE"
  "extension (make_payload c b e) = Some e"
  by (simp_all add: make_payload_def tlm_generic_payload_def)

lemma payload_wf_make [simp]: "payload_wf (make_payload c b e)"
  by (simp add: payload_wf_def vec_data_def)

lemma payload_wf_frame [simp]:
  "payload_wf (p\<lparr>extension := e\<rparr>) = payload_wf p"
  "payload_wf (p\<lparr>response_status := r\<rparr>) = payload_wf p"
  by (simp_all add: payload_wf_def)

lemma read_data_frame [simp]:
  "read_data (p\<lparr>extension := e\<rparr>) = read_data p"
  "read_data (p\<lparr>response_status := r\<rparr>) = read_data p"
  by (cases "data_ptr p"; simp add: read_data_def)+

lemma read_data_make [simp]: "read_data (make_payload c b e) = Inr b"
  by (simp add: read_data_def vec_data_def)

end
