(* ===== verification/Usb3_Channels.thy ===== *)
theory Usb3_Channels imports Usb3_Prelude begin

text \<open>
  The contracts of the two buffers of the design, as locales. A \<open>channel\<close> hands out, in order,
  the elements of an abstract list; a \<open>bounded_channel\<close> also accepts elements at the back up to
  a capacity and aborts beyond it (the host's transfer ring); a \<open>slot_channel\<close> holds one element
  and a store replaces it (the device's endpoint FIFOs). The clients' lemmas are proved here once.
\<close>

section \<open>Taking elements out\<close>

fun drain :: "('s \<Rightarrow> ('a \<times> 's) option) \<Rightarrow> nat \<Rightarrow> 's \<Rightarrow> 'a list \<times> 's" where
  "drain get 0 s = ([], s)"
| "drain get (Suc n) s = (case get s of
      None \<Rightarrow> ([], s)
    | Some (x, s') \<Rightarrow> let (xs, t) = drain get n s' in (x # xs, t))"

locale channel =
  fixes get :: "'s \<Rightarrow> ('a \<times> 's) option"
    and view :: "'s \<Rightarrow> 'a list"
    and ok :: "'s \<Rightarrow> bool"
  assumes get_None: "ok s \<Longrightarrow> get s = None \<longleftrightarrow> view s = []"
    and get_view: "ok s \<Longrightarrow> get s = Some (x, s') \<Longrightarrow> view s = x # view s'"
    and get_inv: "ok s \<Longrightarrow> get s = Some (x, s') \<Longrightarrow> ok s'"
begin

lemma get_Cons: "ok s \<Longrightarrow> view s = x # xs \<Longrightarrow> \<exists>s'. get s = Some (x, s') \<and> view s' = xs \<and> ok s'"
  using get_None [of s] get_view [of s] get_inv [of s] by (cases "get s") auto

lemma drain_view:
  "ok s \<Longrightarrow> length (view s) \<le> n \<Longrightarrow> \<exists>s'. drain get n s = (view s, s') \<and> view s' = [] \<and> ok s'"
proof (induction n arbitrary: s)
  case 0
  then show ?case by simp
next
  case (Suc n)
  show ?case
  proof (cases "view s")
    case Nil
    with Suc.prems show ?thesis using get_None [of s] by simp
  next
    case (Cons x xs)
    with Suc.prems obtain s' where g: "get s = Some (x, s')" "view s' = xs" "ok s'"
      using get_Cons by blast
    with Suc.prems Cons obtain t where "drain get n s' = (xs, t)" "view t = []" "ok t"
      using Suc.IH [of s'] by auto
    with g Cons show ?thesis by simp
  qed
qed

lemma drain_prefix:
  "ok s \<Longrightarrow> n \<le> length (view s) \<Longrightarrow> fst (drain get n s) = take n (view s)"
proof (induction n arbitrary: s)
  case 0
  then show ?case by simp
next
  case (Suc n)
  then obtain x xs where v: "view s = x # xs" by (cases "view s") auto
  with Suc.prems obtain s' where "get s = Some (x, s')" "view s' = xs" "ok s'"
    using get_Cons by blast
  moreover from this Suc v have "fst (drain get n s') = take n xs" by auto
  ultimately show ?case using v by (auto split: prod.splits)
qed

end

section \<open>Bounded queues\<close>

fun put_all :: "('a \<Rightarrow> 's \<Rightarrow> 's run) \<Rightarrow> 'a list \<Rightarrow> 's \<Rightarrow> 's run" where
  "put_all put [] s = Inr s"
| "put_all put (x # xs) s = bindR (put x s) (put_all put xs)"

locale bounded_channel = channel get view ok
  for get :: "'s \<Rightarrow> ('a \<times> 's) option" and view :: "'s \<Rightarrow> 'a list" and ok :: "'s \<Rightarrow> bool" +
  fixes put :: "'a \<Rightarrow> 's \<Rightarrow> 's run"
    and cap :: nat
  assumes put_ok: "ok s \<Longrightarrow> length (view s) < cap \<Longrightarrow>
      \<exists>s'. put x s = Inr s' \<and> view s' = view s @ [x] \<and> ok s'"
    and put_full: "ok s \<Longrightarrow> cap \<le> length (view s) \<Longrightarrow> \<exists>e. put x s = Inl e"
begin

lemma put_view: "ok s \<Longrightarrow> put x s = Inr s' \<Longrightarrow> view s' = view s @ [x]"
  using put_ok [of s x] put_full [of s x] by (cases "length (view s) < cap") auto

lemma put_inv: "ok s \<Longrightarrow> put x s = Inr s' \<Longrightarrow> ok s'"
  using put_ok [of s x] put_full [of s x] by (cases "length (view s) < cap") auto

lemma put_bound: "ok s \<Longrightarrow> put x s = Inr s' \<Longrightarrow> length (view s') \<le> cap"
  using put_ok [of s x] put_full [of s x] by (cases "length (view s) < cap") auto

text \<open>A batch is accepted exactly when it fits, and is then appended in order.\<close>

lemma put_all_returns:
  "ok s \<Longrightarrow> length (view s) \<le> cap \<Longrightarrow>
   returns (put_all put xs s) (\<lambda>s'. view s' = view s @ xs \<and> ok s') \<longleftrightarrow>
     length (view s) + length xs \<le> cap"
proof (induction xs arbitrary: s)
  case Nil
  then show ?case by simp
next
  case (Cons x xs)
  show ?case
  proof (cases "length (view s) < cap")
    case True
    with Cons.prems obtain s' where s': "put x s = Inr s'" "view s' = view s @ [x]" "ok s'"
      using put_ok by blast
    have "length (view s') \<le> cap" using True s' by simp
    from Cons.IH [OF s'(3) this] show ?thesis using s' by simp
  next
    case False
    then obtain e where "put x s = Inl e" using put_full [of s x] Cons.prems by auto
    with False show ?thesis by simp
  qed
qed

lemma put_all_drain:
  assumes "ok s" and "view s = []" and "length xs \<le> cap"
  shows "returns (put_all put xs s) (\<lambda>s'. fst (drain get (length xs) s') = xs)"
proof -
  have "returns (put_all put xs s) (\<lambda>s'. view s' = xs \<and> ok s')"
    using put_all_returns [of s xs] assms by simp
  then show ?thesis
    by (rule returns_mono) (use drain_prefix in force)
qed

end

section \<open>One-element buffers\<close>

locale slot_channel = channel get view ok
  for get :: "'s \<Rightarrow> ('a \<times> 's) option" and view :: "'s \<Rightarrow> 'a list" and ok :: "'s \<Rightarrow> bool" +
  fixes store :: "'a \<Rightarrow> 's \<Rightarrow> 's"
  assumes store_view: "view (store x s) = [x]"
    and store_inv: "ok (store x s)"
begin

lemma get_store: "\<exists>s'. get (store x s) = Some (x, s') \<and> view s' = [] \<and> ok s'"
  using get_Cons [of "store x s" x "[]"] by (simp add: store_view store_inv)

lemma get_get_store: "get (store x s) = Some (y, s') \<Longrightarrow> get s' = None"
  using get_store [of x s] get_None [of s'] by auto

lemma last_store_wins: "get (store y (store x s)) = Some (z, s') \<Longrightarrow> z = y"
  using get_store [of y "store x s"] by auto

end

end
