(* ===== verification/Usb3_Buffers.thy ===== *)
theory Usb3_Buffers imports Usb3_Types Usb3_Channels begin

text \<open>
  The host's transfer ring (\<open>usb3_trb_t\<close>, \<open>usb3_transfer_ring_t\<close>) and the device's endpoint
  FIFO (\<open>usb3_ep_fifo_t\<close>), each shown to meet its contract.
\<close>

section \<open>The transfer ring\<close>

record usb3_trb =
  trb_data_ptr :: u64
  trb_length :: u32
  trb_dev_addr :: u8
  trb_endpoint :: u8
  trb_direction :: usb3_dir
  trb_ep_type :: usb3_ep_type
  trb_ioc :: bool
  trb_chain :: bool
  trb_completion :: usb3_completion
  trb_payload :: "u8 list"

definition default_trb :: usb3_trb where
  "default_trb = \<lparr> trb_data_ptr = 0, trb_length = 0, trb_dev_addr = 0, trb_endpoint = 0,
     trb_direction = HOST_TO_DEVICE, trb_ep_type = BULK, trb_ioc = True, trb_chain = False,
     trb_completion = SUCCESS, trb_payload = [] \<rparr>"

record usb3_transfer_ring = ring_queue :: "usb3_trb list"

definition RING_DEPTH :: nat where "RING_DEPTH = 256"

definition ring_new :: usb3_transfer_ring where "ring_new = \<lparr> ring_queue = [] \<rparr>"

definition ring_enqueue :: "usb3_trb \<Rightarrow> usb3_transfer_ring \<Rightarrow> usb3_transfer_ring run" where
  "ring_enqueue trb r =
     (if length (ring_queue r) < RING_DEPTH then Inr (r\<lparr>ring_queue := ring_queue r @ [trb]\<rparr>)
      else Inl (AssertFailed ''Transfer ring overflow''))"

definition ring_dequeue :: "usb3_transfer_ring \<Rightarrow> (usb3_trb \<times> usb3_transfer_ring) run" where
  "ring_dequeue r = (case ring_queue r of
      [] \<Rightarrow> Inl (AssertFailed ''Transfer ring underflow'')
    | t # ts \<Rightarrow> Inr (t, r\<lparr>ring_queue := ts\<rparr>))"

definition ring_empty :: "usb3_transfer_ring \<Rightarrow> bool" where
  "ring_empty r \<longleftrightarrow> ring_queue r = []"

text \<open>Dequeueing guarded by \<open>empty()\<close>, the way the host uses the ring.\<close>

definition ring_take :: "usb3_transfer_ring \<Rightarrow> (usb3_trb \<times> usb3_transfer_ring) option" where
  "ring_take r = (if ring_empty r then None
     else case ring_dequeue r of Inl e \<Rightarrow> None | Inr p \<Rightarrow> Some p)"

definition ring_ok :: "usb3_transfer_ring \<Rightarrow> bool" where
  "ring_ok r \<longleftrightarrow> length (ring_queue r) \<le> RING_DEPTH"

interpretation ring: bounded_channel ring_take ring_queue ring_ok ring_enqueue RING_DEPTH
proof unfold_locales
  fix s :: usb3_transfer_ring
  show "ring_take s = None \<longleftrightarrow> ring_queue s = []"
    by (cases "ring_queue s") (simp_all add: ring_take_def ring_empty_def ring_dequeue_def)
next
  fix s s' x
  assume "ring_ok s" and g: "ring_take s = Some (x, s')"
  then show "ring_queue s = x # ring_queue s'"
    by (cases "ring_queue s") (auto simp: ring_take_def ring_empty_def ring_dequeue_def)
next
  fix s s' x
  assume "ring_ok s" and g: "ring_take s = Some (x, s')"
  then show "ring_ok s'"
    by (cases "ring_queue s") (auto simp: ring_take_def ring_empty_def ring_dequeue_def ring_ok_def)
next
  fix s x
  assume "ring_ok s" and "length (ring_queue s) < RING_DEPTH"
  then show "\<exists>s'. ring_enqueue x s = Inr s' \<and> ring_queue s' = ring_queue s @ [x] \<and> ring_ok s'"
    by (simp add: ring_enqueue_def ring_ok_def)
next
  fix s x
  assume "ring_ok s" and "RING_DEPTH \<le> length (ring_queue s)"
  then show "\<exists>e. ring_enqueue x s = Inl e"
    by (simp add: ring_enqueue_def)
qed

section \<open>The endpoint FIFO\<close>

record usb3_ep_fifo =
  fifo_buffer :: "u8 list"
  has_data :: bool

definition fifo_new :: usb3_ep_fifo where
  "fifo_new = \<lparr> fifo_buffer = [], has_data = False \<rparr>"

definition fifo_write :: "u8 list \<Rightarrow> usb3_ep_fifo \<Rightarrow> usb3_ep_fifo" where
  "fifo_write bytes f = f\<lparr>fifo_buffer := bytes, has_data := True\<rparr>"

text \<open>\<open>read(out)\<close>: \<open>None\<close> is the return value false, with \<open>out\<close> untouched.\<close>

definition fifo_read :: "usb3_ep_fifo \<Rightarrow> (u8 list \<times> usb3_ep_fifo) option" where
  "fifo_read f = (if \<not> has_data f then None
     else Some (fifo_buffer f, f\<lparr>fifo_buffer := [], has_data := False\<rparr>))"

definition fifo_view :: "usb3_ep_fifo \<Rightarrow> u8 list list" where
  "fifo_view f = (if has_data f then [fifo_buffer f] else [])"

definition fifo_ok :: "usb3_ep_fifo \<Rightarrow> bool" where
  "fifo_ok f \<longleftrightarrow> (\<not> has_data f \<longrightarrow> fifo_buffer f = [])"

interpretation fifo: slot_channel fifo_read fifo_view fifo_ok fifo_write
  by unfold_locales (auto simp: fifo_read_def fifo_view_def fifo_write_def fifo_ok_def
      split: if_splits)

lemma fifo_ok_new [simp]: "fifo_ok fifo_new"
  by (simp add: fifo_ok_def fifo_new_def)

lemma fifo_ok_write [simp]: "fifo_ok (fifo_write b f)"
  by (rule fifo.store_inv)

end
