(* ===== verification/Usb3_Descriptors.thy ===== *)
theory Usb3_Descriptors imports Usb3_Types begin

text \<open>
  The packed descriptor structures of \<open>include/usb3_device_controller.h\<close> with their default
  values, their memory image (little-endian, as \<open>memcpy\<close> and \<open>append_bytes\<close> see it), the
  configuration blob \<open>init_descriptors\<close> assembles, and the data a GET_DESCRIPTOR request is
  answered with.
\<close>

section \<open>Structures\<close>

record usb_device_descriptor =
  dd_bLength :: u8
  dd_bDescriptorType :: u8
  dd_bcdUSB :: u16
  dd_bDeviceClass :: u8
  dd_bDeviceSubClass :: u8
  dd_bDeviceProtocol :: u8
  dd_bMaxPacketSize0 :: u8
  dd_idVendor :: u16
  dd_idProduct :: u16
  dd_bcdDevice :: u16
  dd_iManufacturer :: u8
  dd_iProduct :: u8
  dd_iSerialNumber :: u8
  dd_bNumConfigurations :: u8

definition default_device_descriptor :: usb_device_descriptor where
  "default_device_descriptor = \<lparr> dd_bLength = 18, dd_bDescriptorType = USB_DESC_DEVICE,
     dd_bcdUSB = 0x0300, dd_bDeviceClass = 0xFF, dd_bDeviceSubClass = 0x00,
     dd_bDeviceProtocol = 0x00, dd_bMaxPacketSize0 = 9, dd_idVendor = 0xAB12,
     dd_idProduct = 0xCD34, dd_bcdDevice = 0x0100, dd_iManufacturer = 1, dd_iProduct = 2,
     dd_iSerialNumber = 3, dd_bNumConfigurations = 1 \<rparr>"

record usb_config_descriptor =
  cd_bLength :: u8
  cd_bDescriptorType :: u8
  cd_wTotalLength :: u16
  cd_bNumInterfaces :: u8
  cd_bConfigurationValue :: u8
  cd_iConfiguration :: u8
  cd_bmAttributes :: u8
  cd_bMaxPower :: u8

definition default_config_descriptor :: usb_config_descriptor where
  "default_config_descriptor = \<lparr> cd_bLength = 9, cd_bDescriptorType = USB_DESC_CONFIGURATION,
     cd_wTotalLength = 9 + 9 + 7 + 6 + 7 + 6, cd_bNumInterfaces = 1, cd_bConfigurationValue = 1,
     cd_iConfiguration = 0, cd_bmAttributes = 0xC0, cd_bMaxPower = 0 \<rparr>"

record usb_interface_descriptor =
  id_bLength :: u8
  id_bDescriptorType :: u8
  id_bInterfaceNumber :: u8
  id_bAlternateSetting :: u8
  id_bNumEndpoints :: u8
  id_bInterfaceClass :: u8
  id_bInterfaceSubClass :: u8
  id_bInterfaceProtocol :: u8
  id_iInterface :: u8

definition default_interface_descriptor :: usb_interface_descriptor where
  "default_interface_descriptor = \<lparr> id_bLength = 9, id_bDescriptorType = USB_DESC_INTERFACE,
     id_bInterfaceNumber = 0, id_bAlternateSetting = 0, id_bNumEndpoints = 2,
     id_bInterfaceClass = 0xFF, id_bInterfaceSubClass = 0x00, id_bInterfaceProtocol = 0x00,
     id_iInterface = 0 \<rparr>"

record usb_endpoint_descriptor =
  ed_bLength :: u8
  ed_bDescriptorType :: u8
  ed_bEndpointAddress :: u8
  ed_bmAttributes :: u8
  ed_wMaxPacketSize :: u16
  ed_bInterval :: u8

definition default_endpoint_descriptor :: usb_endpoint_descriptor where
  "default_endpoint_descriptor = \<lparr> ed_bLength = 7, ed_bDescriptorType = USB_DESC_ENDPOINT,
     ed_bEndpointAddress = 0, ed_bmAttributes = 0x02, ed_wMaxPacketSize = 1024,
     ed_bInterval = 0 \<rparr>"

record usb_ss_ep_companion_descriptor =
  sd_bLength :: u8
  sd_bDescriptorType :: u8
  sd_bMaxBurst :: u8
  sd_bmAttributes :: u8
  sd_wBytesPerInterval :: u16

definition default_ss_ep_companion :: usb_ss_ep_companion_descriptor where
  "default_ss_ep_companion = \<lparr> sd_bLength = 6, sd_bDescriptorType = USB_DESC_SS_EP_COMP,
     sd_bMaxBurst = 0, sd_bmAttributes = 0, sd_wBytesPerInterval = 0 \<rparr>"

section \<open>Memory images\<close>

definition u16_bytes :: "u16 \<Rightarrow> u8 list" where
  "u16_bytes w = [lo8 w, hi8 w]"

definition dev_desc_to_bytes :: "usb_device_descriptor \<Rightarrow> u8 list" where
  "dev_desc_to_bytes d =
     [dd_bLength d, dd_bDescriptorType d] @ u16_bytes (dd_bcdUSB d) @
     [dd_bDeviceClass d, dd_bDeviceSubClass d, dd_bDeviceProtocol d, dd_bMaxPacketSize0 d] @
     u16_bytes (dd_idVendor d) @ u16_bytes (dd_idProduct d) @ u16_bytes (dd_bcdDevice d) @
     [dd_iManufacturer d, dd_iProduct d, dd_iSerialNumber d, dd_bNumConfigurations d]"

definition cfg_desc_image :: "usb_config_descriptor \<Rightarrow> u8 list" where
  "cfg_desc_image d =
     [cd_bLength d, cd_bDescriptorType d] @ u16_bytes (cd_wTotalLength d) @
     [cd_bNumInterfaces d, cd_bConfigurationValue d, cd_iConfiguration d, cd_bmAttributes d,
      cd_bMaxPower d]"

definition intf_desc_image :: "usb_interface_descriptor \<Rightarrow> u8 list" where
  "intf_desc_image d =
     [id_bLength d, id_bDescriptorType d, id_bInterfaceNumber d, id_bAlternateSetting d,
      id_bNumEndpoints d, id_bInterfaceClass d, id_bInterfaceSubClass d,
      id_bInterfaceProtocol d, id_iInterface d]"

definition ep_desc_image :: "usb_endpoint_descriptor \<Rightarrow> u8 list" where
  "ep_desc_image d =
     [ed_bLength d, ed_bDescriptorType d, ed_bEndpointAddress d, ed_bmAttributes d] @
     u16_bytes (ed_wMaxPacketSize d) @ [ed_bInterval d]"

definition ss_comp_image :: "usb_ss_ep_companion_descriptor \<Rightarrow> u8 list" where
  "ss_comp_image d =
     [sd_bLength d, sd_bDescriptorType d, sd_bMaxBurst d, sd_bmAttributes d] @
     u16_bytes (sd_wBytesPerInterval d)"

lemmas image_defs = dev_desc_to_bytes_def cfg_desc_image_def intf_desc_image_def
  ep_desc_image_def ss_comp_image_def u16_bytes_def

lemma image_lengths [simp]:
  "length (dev_desc_to_bytes d) = 18"
  "length (cfg_desc_image c) = 9"
  "length (intf_desc_image i) = 9"
  "length (ep_desc_image e) = 7"
  "length (ss_comp_image s) = 6"
  by (simp_all add: image_defs)

text \<open>\<open>append_bytes\<close>: push \<open>nbytes\<close> bytes of the object one by one.\<close>

fun append_bytes :: "u8 list \<Rightarrow> u8 list \<Rightarrow> u8 list" where
  "append_bytes dest [] = dest"
| "append_bytes dest (b # bs) = append_bytes (dest @ [b]) bs"

lemma append_bytes_eq [simp]: "append_bytes dest bs = dest @ bs"
  by (induction bs arbitrary: dest) simp_all

section \<open>The device's descriptor set\<close>

record descriptor_set =
  m_dev_desc :: usb_device_descriptor
  m_cfg_desc :: usb_config_descriptor
  m_intf_desc :: usb_interface_descriptor
  m_ep1_desc :: usb_endpoint_descriptor
  m_ep2_desc :: usb_endpoint_descriptor
  m_ep1_comp :: usb_ss_ep_companion_descriptor
  m_ep2_comp :: usb_ss_ep_companion_descriptor
  m_config_blob :: "u8 list"

definition default_descriptor_set :: descriptor_set where
  "default_descriptor_set = \<lparr> m_dev_desc = default_device_descriptor,
     m_cfg_desc = default_config_descriptor, m_intf_desc = default_interface_descriptor,
     m_ep1_desc = default_endpoint_descriptor, m_ep2_desc = default_endpoint_descriptor,
     m_ep1_comp = default_ss_ep_companion, m_ep2_comp = default_ss_ep_companion,
     m_config_blob = [] \<rparr>"

definition init_descriptors :: "descriptor_set \<Rightarrow> descriptor_set" where
  "init_descriptors ds =
     (let ep1 = (m_ep1_desc ds)\<lparr>ed_bEndpointAddress := 0x81, ed_bmAttributes := 0x02\<rparr>;
          ep2 = (m_ep2_desc ds)\<lparr>ed_bEndpointAddress := 0x02, ed_bmAttributes := 0x02\<rparr>;
          blob = [];
          blob = append_bytes blob (cfg_desc_image (m_cfg_desc ds));
          blob = append_bytes blob (intf_desc_image (m_intf_desc ds));
          blob = append_bytes blob (ep_desc_image ep1);
          blob = append_bytes blob (ss_comp_image (m_ep1_comp ds));
          blob = append_bytes blob (ep_desc_image ep2);
          blob = append_bytes blob (ss_comp_image (m_ep2_comp ds));
          total = (of_nat (length blob) :: u16);
          blob = blob[2 := lo8 total, 3 := hi8 total]
      in ds\<lparr>m_ep1_desc := ep1, m_ep2_desc := ep2, m_config_blob := blob\<rparr>)"

section \<open>Answering GET_DESCRIPTOR\<close>

text \<open>\<open>if (v.size() > wLength) v.resize(wLength)\<close>\<close>

definition cap_length :: "u16 \<Rightarrow> u8 list \<Rightarrow> u8 list" where
  "cap_length n v = (if length v > unat n then vec_resize (unat n) 0 v else v)"

lemma cap_length_take: "cap_length n v = take (unat n) v"
  by (simp add: cap_length_def vec_resize_shrink)

definition bos_bytes :: "u8 list" where
  "bos_bytes = [0x05, 0x0F, 0x16, 0x00, 0x01, 0x0A, 0x10, 0x03, 0x00, 0x0E, 0x00, 0x01, 0x0A,
     0xFF, 0x07]"

definition string_text :: "u8 \<Rightarrow> string option" where
  "string_text idx =
     (if idx = 1 then Some ''MyVendor''
      else if idx = 2 then Some ''USB3 DRD''
      else if idx = 3 then Some ''SN-001''
      else None)"

definition string_descriptor :: "u8 \<Rightarrow> u8 list" where
  "string_descriptor idx =
     (if idx = 0 then [0x04, 0x03, 0x09, 0x04]
      else case string_text idx of
          None \<Rightarrow> []
        | Some text \<Rightarrow>
            [of_nat (2 + length text * 2), 0x03] @
            concat (map (\<lambda>c. [of_char c, 0x00]) text))"

text \<open>The response data of a GET_DESCRIPTOR request; \<open>None\<close> for an unknown descriptor type.\<close>

definition get_descriptor_data :: "descriptor_set \<Rightarrow> usb3_setup_pkt \<Rightarrow> u8 list option" where
  "get_descriptor_data ds setup =
     (let desc_type = hi8 (wValue setup);
          desc_index = lo8 (wValue setup)
      in if desc_type = USB_DESC_DEVICE then Some (dev_desc_to_bytes (m_dev_desc ds))
         else if desc_type = USB_DESC_CONFIGURATION then
           Some (cap_length (wLength setup) (m_config_blob ds))
         else if desc_type = USB_DESC_BOS then Some (cap_length (wLength setup) bos_bytes)
         else if desc_type = USB_DESC_STRING then
           Some (cap_length (wLength setup) (string_descriptor desc_index))
         else None)"

section \<open>Lemmas\<close>

lemma config_blob_value:
  "m_config_blob (init_descriptors default_descriptor_set) =
     [9, 2, 44, 0, 1, 1, 0, 0xC0, 0,
      9, 4, 0, 0, 2, 0xFF, 0, 0, 0,
      7, 5, 0x81, 2, 0, 4, 0,
      6, 0x30, 0, 0, 0, 0,
      7, 5, 2, 2, 0, 4, 0,
      6, 0x30, 0, 0, 0, 0]"
  by (simp add: init_descriptors_def default_descriptor_set_def image_defs Let_def
      default_config_descriptor_def default_interface_descriptor_def
      default_endpoint_descriptor_def default_ss_ep_companion_def usb_desc_defs lo8_def hi8_def)

lemma init_descriptors_dev_desc [frame]: "m_dev_desc (init_descriptors ds) = m_dev_desc ds"
  by (simp add: init_descriptors_def Let_def)

lemma dev_desc_bytes_value:
  "dev_desc_to_bytes default_device_descriptor =
     [18, 1, 0, 3, 0xFF, 0, 0, 9, 0x12, 0xAB, 0x34, 0xCD, 0, 1, 1, 2, 3, 1]"
  by (simp add: image_defs default_device_descriptor_def usb_desc_defs lo8_def hi8_def)

text \<open>
  Walking a descriptor chain the way a host parses it: each descriptor starts with its length
  and its type. \<open>None\<close> when a length is below two or runs past the end.
\<close>

fun walk_chain :: "nat \<Rightarrow> u8 list \<Rightarrow> u8 list option" where
  "walk_chain 0 bs = (if bs = [] then Some [] else None)"
| "walk_chain (Suc n) bs = (case bs of
      [] \<Rightarrow> Some []
    | [_] \<Rightarrow> None
    | l # t # _ \<Rightarrow>
        (if unat l < 2 \<or> length bs < unat l then None
         else map_option (Cons t) (walk_chain n (drop (unat l) bs))))"

lemma walk_chain_numeral [simp]:
  "walk_chain (numeral k) bs = (case bs of
      [] \<Rightarrow> Some []
    | [_] \<Rightarrow> None
    | l # t # _ \<Rightarrow>
        (if unat l < 2 \<or> length bs < unat l then None
         else map_option (Cons t) (walk_chain (pred_numeral k) (drop (unat l) bs))))"
  by (simp add: numeral_eq_Suc)

text \<open>The text of a string descriptor: UTF-16LE code units after the two header bytes.\<close>

fun utf16_low :: "u8 list \<Rightarrow> u8 list option" where
  "utf16_low [] = Some []"
| "utf16_low [_] = None"
| "utf16_low (b # z # bs) = (if z = 0 then map_option (Cons b) (utf16_low bs) else None)"

lemma utf16_low_concat: "utf16_low (concat (map (\<lambda>c. [f c, 0]) cs)) = Some (map f cs)"
  by (induction cs) simp_all

lemma length_concat_pairs: "length (concat (map (\<lambda>c. [f c, 0]) cs)) = 2 * length cs"
  by (induction cs) simp_all

end
