(* ===== verification/Role_Manager.thy ===== *)
theory Role_Manager imports Usb3_Types begin

text \<open>
  \<open>usb3_role_manager_t\<close>: the thread that derives the role from the Type-C CC state and VBUS, and
  the software request that overrides it. The thread is modelled by its segments between two
  \<open>wait\<close> calls: the start, the body of the loop after a wake-up, and the end of the 10 ns pulse.
  An \<open>sc_out\<close> port is a field holding the value last written to it.
\<close>

section \<open>State and operations\<close>

record role_manager =
  m_role :: usb3_role
  m_host_requested :: bool
  m_device_requested :: bool
  m_role_request_event :: bool
  current_role :: usb3_role
  role_changed :: bool

definition role_manager_new :: role_manager where
  "role_manager_new = \<lparr> m_role = NONE, m_host_requested = False, m_device_requested = False,
     m_role_request_event = False, current_role = NONE, role_changed = False \<rparr>"

definition request_role :: "usb3_role \<Rightarrow> role_manager \<Rightarrow> role_manager" where
  "request_role r rm =
     (let rm = (if r = HOST then rm\<lparr>m_host_requested := True\<rparr> else rm);
          rm = (if r = DEVICE then rm\<lparr>m_device_requested := True\<rparr> else rm)
      in rm\<lparr>m_role_request_event := True\<rparr>)"

text \<open>
  \<open>apply_role\<close> up to its \<open>wait(10 ns)\<close>: the second component tells whether the thread is now
  inside that wait (\<open>True\<close>) or has returned to the loop.
\<close>

definition apply_role :: "usb3_role \<Rightarrow> role_manager \<Rightarrow> role_manager \<times> bool" where
  "apply_role new_role rm =
     (if new_role = m_role rm then (rm, False)
      else (rm\<lparr>m_role := new_role, current_role := new_role, role_changed := True\<rparr>, True))"

definition apply_role_end :: "role_manager \<Rightarrow> role_manager" where
  "apply_role_end rm = rm\<lparr>role_changed := False\<rparr>"

definition role_detection_start :: "role_manager \<Rightarrow> role_manager" where
  "role_detection_start rm = rm\<lparr>current_role := NONE, role_changed := False\<rparr>"

definition role_desired :: "usb_c_cc_state \<Rightarrow> bool \<Rightarrow> usb3_role" where
  "role_desired cc vb =
     (if cc = CC_UFP_ATTACHED \<and> vb then HOST
      else if cc = CC_DFP_ATTACHED \<and> vb then DEVICE
      else NONE)"

definition role_detection_body ::
  "usb_c_cc_state \<Rightarrow> bool \<Rightarrow> role_manager \<Rightarrow> role_manager \<times> bool" where
  "role_detection_body cc vb rm =
     (let desired = role_desired cc vb in
      if desired \<noteq> m_role rm \<or> m_host_requested rm \<or> m_device_requested rm then
        let desired = (if m_host_requested rm then HOST else desired);
            desired = (if m_device_requested rm then DEVICE else desired)
        in apply_role desired (rm\<lparr>m_host_requested := False, m_device_requested := False\<rparr>)
      else (rm, False))"

lemmas role_defs = role_manager_new_def request_role_def apply_role_def apply_role_end_def
  role_detection_start_def role_detection_body_def Let_def

section \<open>One wake-up\<close>

text \<open>The role a wake-up settles on: a software request wins, a device request over a host one.\<close>

definition role_target :: "usb_c_cc_state \<Rightarrow> bool \<Rightarrow> role_manager \<Rightarrow> usb3_role" where
  "role_target cc vb rm =
     (if m_device_requested rm then DEVICE
      else if m_host_requested rm then HOST
      else role_desired cc vb)"

lemma role_body_m_role: "m_role (fst (role_detection_body cc vb rm)) = role_target cc vb rm"
  by (simp add: role_defs role_target_def)

lemma role_body_flags:
  "\<not> m_host_requested (fst (role_detection_body cc vb rm))"
  "\<not> m_device_requested (fst (role_detection_body cc vb rm))"
  by (simp_all add: role_defs)

lemma role_body_pulse: "snd (role_detection_body cc vb rm) \<longleftrightarrow> role_target cc vb rm \<noteq> m_role rm"
  by (auto simp: role_defs role_target_def)

lemma role_body_ports:
  "current_role (fst (role_detection_body cc vb rm)) =
     (if snd (role_detection_body cc vb rm) then role_target cc vb rm else current_role rm)"
  "role_changed (fst (role_detection_body cc vb rm)) =
     (snd (role_detection_body cc vb rm) \<or> role_changed rm)"
  by (auto simp: role_defs role_target_def)

lemma request_role_frame [frame]:
  "m_role (request_role r rm) = m_role rm"
  "current_role (request_role r rm) = current_role rm"
  "role_changed (request_role r rm) = role_changed rm"
  by (simp_all add: role_defs)

lemma apply_role_end_frame [frame]:
  "m_role (apply_role_end rm) = m_role rm"
  "current_role (apply_role_end rm) = current_role rm"
  "m_host_requested (apply_role_end rm) = m_host_requested rm"
  "m_device_requested (apply_role_end rm) = m_device_requested rm"
  by (simp_all add: role_defs)

section \<open>The thread as a step relation\<close>

datatype rm_pc = RM_Start | RM_Wait | RM_Pulse

text \<open>
  Which step comes next is left open: any wake-up may see any CC and VBUS value, and software may
  request a role at any time.
\<close>

inductive role_step :: "rm_pc \<times> role_manager \<Rightarrow> rm_pc \<times> role_manager \<Rightarrow> bool" where
  rm_start: "role_step (RM_Start, rm) (RM_Wait, role_detection_start rm)"
| rm_wake: "role_detection_body cc vb rm = (rm', p) \<Longrightarrow>
    role_step (RM_Wait, rm) (if p then RM_Pulse else RM_Wait, rm')"
| rm_pulse_end: "role_step (RM_Pulse, rm) (RM_Wait, apply_role_end rm)"
| rm_request: "role_step (pc, rm) (pc, request_role r rm)"

inductive_cases role_step_from_pulse: "role_step (RM_Pulse, rm) t"

text \<open>The role does not change while the pulse is up.\<close>

lemma pulse_keeps_role: "role_step (RM_Pulse, rm) (pc, rm') \<Longrightarrow> m_role rm' = m_role rm"
  by (erule role_step_from_pulse) (simp_all add: frame)

text \<open>The port shows the manager's role, and the pulse is up exactly during the 10 ns wait.\<close>

fun role_inv :: "rm_pc \<times> role_manager \<Rightarrow> bool" where
  "role_inv (pc, rm) \<longleftrightarrow> current_role rm = m_role rm \<and> (role_changed rm \<longleftrightarrow> pc = RM_Pulse)
     \<and> (pc = RM_Start \<longrightarrow> m_role rm = NONE)"

lemma role_inv_new: "role_inv (RM_Start, role_manager_new)"
  by (simp add: role_defs)

lemma role_step_inv: "role_step s t \<Longrightarrow> role_inv s \<Longrightarrow> role_inv t"
proof (induction rule: role_step.induct)
  case (rm_start rm)
  then show ?case by (simp add: role_detection_start_def)
next
  case (rm_wake cc vb rm rm' p)
  then show ?case
    using role_body_ports [of cc vb rm] role_body_m_role [of cc vb rm]
      role_body_pulse [of cc vb rm] by auto
next
  case (rm_pulse_end rm)
  then show ?case by (simp add: apply_role_end_def)
next
  case (rm_request pc rm r)
  then show ?case by (simp add: frame)
qed

section \<open>The contract of the role manager\<close>

text \<open>
  What the block promises its users: a role and the strongest pending request, where NONE is no
  request; the next wake-up consumes the request or follows CC and VBUS.
\<close>

type_synonym role_abs = "usb3_role \<times> usb3_role"

datatype role_event = Wake usb_c_cc_state bool | PulseEnd | Request usb3_role

fun abs_event :: "role_event \<Rightarrow> role_abs \<Rightarrow> role_abs" where
  "abs_event (Wake cc vb) (r, pending) = (if pending = NONE then role_desired cc vb else pending, NONE)"
| "abs_event PulseEnd a = a"
| "abs_event (Request q) (r, pending) = (r, max pending q)"

fun run_event :: "role_event \<Rightarrow> role_manager \<Rightarrow> role_manager" where
  "run_event (Wake cc vb) rm = fst (role_detection_body cc vb rm)"
| "run_event PulseEnd rm = apply_role_end rm"
| "run_event (Request q) rm = request_role q rm"

definition role_abs_of :: "role_manager \<Rightarrow> role_abs" where
  "role_abs_of rm = (m_role rm,
     if m_device_requested rm then DEVICE else if m_host_requested rm then HOST else NONE)"

lemma role_abs_event: "role_abs_of (run_event e rm) = abs_event e (role_abs_of rm)"
proof (cases e)
  case (Wake cc vb)
  then show ?thesis
    by (simp add: role_abs_of_def role_body_m_role role_body_flags role_target_def)
next
  case PulseEnd
  then show ?thesis by (simp add: role_abs_of_def frame)
next
  case (Request q)
  then show ?thesis
    by (cases q) (simp_all add: role_abs_of_def role_defs max_def less_eq_usb3_role_def
        word_le_nat_alt)
qed

lemma role_abs_run: "role_abs_of (fold run_event es rm) = fold abs_event es (role_abs_of rm)"
  by (induction es arbitrary: rm) (simp_all add: role_abs_event)

end
