(* ===== verification/Drd_World.thy ===== *)
theory Drd_World imports Usb3_Types Usb3_Buffers Usb3_Descriptors Role_Manager begin

text \<open>
  The members of the modules (the header files) and the top level that instantiates them. Every
  \<open>sc_out\<close> port is a field of its module holding the value last written; a read of a signal sees
  the value the signal last took over (\<open>drd_signals\<close>). \<open>bind_internal\<close> says which port drives
  which signal. When a signal takes its written value over is the simulation kernel's business:
  the theories below never assume a particular moment, except where a theorem says so.
\<close>

section \<open>Module state\<close>

record protocol_layer = m_seq_num :: u32

record device_controller =
  m_configured :: bool
  m_assigned_addr :: u8
  m_ep1_in :: usb3_ep_fifo
  m_ep2_out :: usb3_ep_fifo
  m_out_ep_event :: bool
  dev_descs :: descriptor_set
  bulk_irq :: bool
  configured :: bool

definition device_controller_new :: device_controller where
  "device_controller_new = \<lparr> m_configured = False, m_assigned_addr = 0, m_ep1_in = fifo_new,
     m_ep2_out = fifo_new, m_out_ep_event = False,
     dev_descs = init_descriptors default_descriptor_set, bulk_irq = False, configured = False \<rparr>"

record usb3_device_info =
  di_addr :: u8
  vendor_id :: u16
  product_id :: u16
  num_configs :: u8
  active_config :: u8
  enumerated :: bool
  di_speed :: usb3_speed

definition default_device_info :: usb3_device_info where
  "default_device_info = \<lparr> di_addr = 0, vendor_id = 0, product_id = 0, num_configs = 0,
     active_config = 0, enumerated = False, di_speed = SUPER_SPEED \<rparr>"

record host_controller =
  m_next_addr :: u8
  m_dev :: usb3_device_info
  m_transfer_ring :: usb3_transfer_ring
  m_rx_buf :: "u8 list"
  m_resp_data :: "u8 list"
  m_resp_valid :: bool
  m_trb_complete_event :: bool
  transfer_done :: bool
  enumeration_done :: bool
  dev_addr_out :: u8

definition host_controller_new :: host_controller where
  "host_controller_new = \<lparr> m_next_addr = 1, m_dev = default_device_info,
     m_transfer_ring = ring_new, m_rx_buf = [], m_resp_data = [], m_resp_valid = False,
     m_trb_complete_event = False, transfer_done = False, enumeration_done = False,
     dev_addr_out = 0 \<rparr>"

text \<open>
  The top level's own members. \<open>host_enable\<close>, \<open>dev_enable\<close>, \<open>cc_state_int\<close> and \<open>vbus_int\<close>
  are the values it last wrote to \<open>sig_host_enable\<close>, \<open>sig_dev_enable\<close>, \<open>sig_cc_state_int\<close>
  and \<open>sig_vbus_int\<close>.
\<close>

record drd_controller =
  m_regs :: "u32 list"
  m_intr_enable :: u32
  m_intr_status :: u32
  irq :: bool
  host_enable :: bool
  dev_enable :: bool
  cc_state_int :: usb_c_cc_state
  vbus_int :: bool

definition drd_controller_new :: drd_controller where
  "drd_controller_new = \<lparr> m_regs = replicate 8 0, m_intr_enable = 0xFFFFFFFF, m_intr_status = 0,
     irq = False, host_enable = False, dev_enable = False, cc_state_int = CC_DISCONNECTED,
     vbus_int = False \<rparr>"

record drd_signals =
  sig_role :: usb3_role
  sig_role_changed :: bool
  sig_cc_state_int :: usb_c_cc_state
  sig_vbus_int :: bool
  sig_host_enable :: bool
  sig_xfer_done :: bool
  sig_enum_done :: bool
  sig_dev_addr :: u8
  sig_dev_enable :: bool
  sig_bulk_irq :: bool
  sig_configured :: bool

definition drd_signals_new :: drd_signals where
  "drd_signals_new = \<lparr> sig_role = NONE, sig_role_changed = False,
     sig_cc_state_int = CC_DISCONNECTED, sig_vbus_int = False, sig_host_enable = False,
     sig_xfer_done = False, sig_enum_done = False, sig_dev_addr = 0, sig_dev_enable = False,
     sig_bulk_irq = False, sig_configured = False \<rparr>"

text \<open>The dual role device: its blocks, its signals, and what its input ports read.\<close>

record world =
  role_mgr :: role_manager
  protocol :: protocol_layer
  host_ctrl :: host_controller
  dev_ctrl :: device_controller
  drd :: drd_controller
  sigs :: drd_signals
  cc_state :: usb_c_cc_state
  vbus :: bool

definition drd_new :: world where
  "drd_new = \<lparr> role_mgr = role_manager_new, protocol = \<lparr> m_seq_num = 0 \<rparr>,
     host_ctrl = host_controller_new, dev_ctrl = device_controller_new,
     drd = drd_controller_new, sigs = drd_signals_new, cc_state = CC_DISCONNECTED,
     vbus = False \<rparr>"

section \<open>Signal bindings\<close>

text \<open>\<open>bind_internal\<close>: the value each signal is driven with by the port bound to it.\<close>

definition bind_internal :: "'e world_scheme \<Rightarrow> drd_signals" where
  "bind_internal w = \<lparr>
     sig_role = current_role (role_mgr w),
     sig_role_changed = role_changed (role_mgr w),
     sig_cc_state_int = cc_state_int (drd w),
     sig_vbus_int = vbus_int (drd w),
     sig_host_enable = host_enable (drd w),
     sig_xfer_done = transfer_done (host_ctrl w),
     sig_enum_done = enumeration_done (host_ctrl w),
     sig_dev_addr = dev_addr_out (host_ctrl w),
     sig_dev_enable = dev_enable (drd w),
     sig_bulk_irq = bulk_irq (dev_ctrl w),
     sig_configured = configured (dev_ctrl w) \<rparr>"

text \<open>All signals take over the values written to them.\<close>

definition update_signals :: "'e world_scheme \<Rightarrow> 'e world_scheme" where
  "update_signals w = w\<lparr>sigs := bind_internal w\<rparr>"

lemma update_signals_frame [frame, simp]:
  "role_mgr (update_signals w) = role_mgr w"
  "protocol (update_signals w) = protocol w"
  "host_ctrl (update_signals w) = host_ctrl w"
  "dev_ctrl (update_signals w) = dev_ctrl w"
  "drd (update_signals w) = drd w"
  "sigs (update_signals w) = bind_internal w"
  "cc_state (update_signals w) = cc_state w"
  "vbus (update_signals w) = vbus w"
  "world.more (update_signals w) = world.more w"
  by (simp_all add: update_signals_def)

text \<open>
  The events notified with \<open>notify(SC_ZERO_TIME)\<close> and not yet delivered. Delivering them clears
  the notifications, whether a process was waiting or not.
\<close>

definition events_pending :: "'e world_scheme \<Rightarrow> bool" where
  "events_pending w \<longleftrightarrow> m_role_request_event (role_mgr w) \<or> m_out_ep_event (dev_ctrl w) \<or>
     m_trb_complete_event (host_ctrl w)"

definition clear_events :: "'e world_scheme \<Rightarrow> 'e world_scheme" where
  "clear_events w = w\<lparr>role_mgr := (role_mgr w)\<lparr>m_role_request_event := False\<rparr>,
     dev_ctrl := (dev_ctrl w)\<lparr>m_out_ep_event := False\<rparr>,
     host_ctrl := (host_ctrl w)\<lparr>m_trb_complete_event := False\<rparr>\<rparr>"

end
