(* ===== verification/Protocol_Layer.thy ===== *)
theory Protocol_Layer imports Drd_World begin

text \<open>
  \<open>usb3_protocol_layer_t\<close>: what the controllers send goes out on \<open>to_link\<close>, numbered when the
  packet type carries a sequence number; what arrives on \<open>from_link\<close> goes to the controller of
  the active role, except for the transaction packets the layer absorbs. The sockets \<open>to_link\<close>,
  \<open>to_host\<close> and \<open>to_device\<close> are parameters.
\<close>

section \<open>Operations\<close>

fun uses_sequence :: "usb3_pkt_type \<Rightarrow> bool" where
  "uses_sequence DP_DATA = True"
| "uses_sequence BULK_OUT = True"
| "uses_sequence BULK_IN = True"
| "uses_sequence SETUP = True"
| "uses_sequence _ = False"

text \<open>\<open>m_seq_num++\<close>: the old value and the incremented, wrapping counter.\<close>

definition next_seq :: "protocol_layer \<Rightarrow> u32 \<times> protocol_layer" where
  "next_seq p = (m_seq_num p, p\<lparr>m_seq_num := m_seq_num p + 1\<rparr>)"

definition route_tx :: "('e world_scheme) b_transport \<Rightarrow> ('e world_scheme) b_transport" where
  "route_tx to_link tr delay w = (case extension tr of
      None \<Rightarrow>
        let def_ext = default_pkt_ext\<lparr>pkt_type := DP_DATA\<rparr> in
        bindR (to_link (tr\<lparr>extension := Some def_ext\<rparr>) delay w)
          (\<lambda>(tr, delay, w). Inr (tr\<lparr>extension := None\<rparr>, delay, w))
    | Some ext \<Rightarrow>
        let (ext, w) = (if uses_sequence (pkt_type ext)
              then let (n, p) = next_seq (protocol w) in (ext\<lparr>seq_num := n\<rparr>, w\<lparr>protocol := p\<rparr>)
              else (ext, w))
        in to_link (tr\<lparr>extension := Some ext\<rparr>) delay w)"

definition controller_tx_b_transport ::
  "('e world_scheme) b_transport \<Rightarrow> ('e world_scheme) b_transport" where
  "controller_tx_b_transport to_link tr delay w = route_tx to_link tr delay w"

definition host_b_transport ::
  "('e world_scheme) b_transport \<Rightarrow> ('e world_scheme) b_transport" where
  "host_b_transport to_link tr delay w = controller_tx_b_transport to_link tr delay w"

definition device_b_transport ::
  "('e world_scheme) b_transport \<Rightarrow> ('e world_scheme) b_transport" where
  "device_b_transport to_link tr delay w = controller_tx_b_transport to_link tr delay w"

definition forward_to_active_controller ::
  "('e world_scheme) b_transport \<Rightarrow> ('e world_scheme) b_transport \<Rightarrow> ('e world_scheme) b_transport"
where
  "forward_to_active_controller to_host to_device tr delay w = (case sig_role (sigs w) of
      HOST \<Rightarrow> to_host tr delay w
    | DEVICE \<Rightarrow> to_device tr delay w
    | NONE \<Rightarrow> Inr (tr\<lparr>response_status := TLM_INCOMPLETE_RESPONSE\<rparr>, delay, w))"

definition handle_rx ::
  "('e world_scheme) b_transport \<Rightarrow> ('e world_scheme) b_transport \<Rightarrow> ('e world_scheme) b_transport"
where
  "handle_rx to_host to_device tr delay w = (case extension tr of
      None \<Rightarrow> forward_to_active_controller to_host to_device tr delay w
    | Some ext \<Rightarrow>
        (case pkt_type ext of
            TP_ACK \<Rightarrow> Inr (tr, delay, w)
          | TP_NRDY \<Rightarrow> Inr (tr, delay, w)
          | TP_ERDY \<Rightarrow> Inr (tr, delay, w)
          | TP_STALL \<Rightarrow> forward_to_active_controller to_host to_device
              (tr\<lparr>extension := Some (ext\<lparr>completion_code := STALL_ERR\<rparr>)\<rparr>) delay w
          | _ \<Rightarrow> forward_to_active_controller to_host to_device tr delay w))"

definition link_b_transport ::
  "('e world_scheme) b_transport \<Rightarrow> ('e world_scheme) b_transport \<Rightarrow> ('e world_scheme) b_transport"
where
  "link_b_transport to_host to_device tr delay w = handle_rx to_host to_device tr delay w"

lemmas tx_defs = host_b_transport_def device_b_transport_def controller_tx_b_transport_def

section \<open>Sending\<close>

text \<open>The sequence number and the counter after a packet of type \<open>t\<close>.\<close>

lemma route_tx_ext:
  "extension tr = Some ext \<Longrightarrow>
   route_tx to_link tr delay w =
     (if uses_sequence (pkt_type ext)
      then to_link (tr\<lparr>extension := Some (ext\<lparr>seq_num := m_seq_num (protocol w)\<rparr>)\<rparr>) delay
             (w\<lparr>protocol := (protocol w)\<lparr>m_seq_num := m_seq_num (protocol w) + 1\<rparr>\<rparr>)
      else to_link (tr\<lparr>extension := Some ext\<rparr>) delay w)"
  by (simp add: route_tx_def next_seq_def)

lemma tx_eq_route: "host_b_transport = route_tx" "device_b_transport = route_tx"
  by (simp_all add: fun_eq_iff tx_defs)

section \<open>Receiving\<close>

definition absorbed :: "usb3_pkt_type \<Rightarrow> bool" where
  "absorbed t \<longleftrightarrow> t \<in> {TP_ACK, TP_NRDY, TP_ERDY}"

text \<open>The payload a controller is handed: a stall is marked in the completion code.\<close>

definition mark_stall :: "payload \<Rightarrow> payload" where
  "mark_stall tr = (case extension tr of
      Some ext \<Rightarrow> if pkt_type ext = TP_STALL
        then tr\<lparr>extension := Some (ext\<lparr>completion_code := STALL_ERR\<rparr>)\<rparr> else tr
    | None \<Rightarrow> tr)"

lemma handle_rx_cases:
  "handle_rx to_host to_device tr delay w =
     (if \<exists>ext. extension tr = Some ext \<and> absorbed (pkt_type ext) then Inr (tr, delay, w)
      else forward_to_active_controller to_host to_device (mark_stall tr) delay w)"
  by (auto simp: handle_rx_def absorbed_def mark_stall_def split: option.splits usb3_pkt_type.splits)

lemma handle_rx_host:
  "sig_role (sigs w) = HOST \<Longrightarrow> extension tr = Some ext \<Longrightarrow> \<not> absorbed (pkt_type ext) \<Longrightarrow>
   handle_rx to_host to_device tr delay w = to_host (mark_stall tr) delay w"
  by (simp add: handle_rx_cases forward_to_active_controller_def)

lemma handle_rx_device:
  "sig_role (sigs w) = DEVICE \<Longrightarrow> extension tr = Some ext \<Longrightarrow> \<not> absorbed (pkt_type ext) \<Longrightarrow>
   handle_rx to_host to_device tr delay w = to_device (mark_stall tr) delay w"
  by (simp add: handle_rx_cases forward_to_active_controller_def)

lemma payload_wf_mark_stall [simp]: "payload_wf (mark_stall p) = payload_wf p"
  by (simp add: mark_stall_def split: option.splits)

end
