(* ===== verification/Host_Controller.thy ===== *)
theory Host_Controller imports Drd_World begin

text \<open>
  \<open>usb3_host_controller_t\<close>: control transfers, enumeration, the bulk transfer ring, and the
  target that receives what the peer sends. The socket \<open>to_protocol\<close> and the \<open>wait\<close> of the host
  thread are parameters. A device answers inside the \<open>b_transport\<close> call that carries the request,
  so \<open>m_resp_data\<close> and \<open>m_resp_valid\<close> may change during any call.
\<close>

section \<open>Receiving\<close>

definition from_protocol_b_transport :: "('e world_scheme) b_transport" where
  "from_protocol_b_transport tr delay w =
     (if data_ptr tr \<noteq> None \<and> data_length tr > 0 then
        bindR (read_data tr) (\<lambda>bytes.
          Inr (tr, delay,
            w\<lparr>host_ctrl := (host_ctrl w)\<lparr>m_resp_data := bytes, m_resp_valid := True\<rparr>\<rparr>))
      else Inr (tr, delay, w))"

section \<open>Control transfers\<close>

definition pack_setup_packet :: "usb3_setup_pkt \<Rightarrow> u8 list" where
  "pack_setup_packet s =
     (let out = vec_resize 8 0 [];
          out = out[0 := bmRequestType s];
          out = out[1 := bRequest s];
          out = out[2 := ucast (wValue s AND 0xFF)];
          out = out[3 := ucast (drop_bit 8 (wValue s) AND 0xFF)];
          out = out[4 := ucast (wIndex s AND 0xFF)];
          out = out[5 := ucast (drop_bit 8 (wIndex s) AND 0xFF)];
          out = out[6 := ucast (wLength s AND 0xFF)];
          out = out[7 := ucast (drop_bit 8 (wLength s) AND 0xFF)]
      in out)"

text \<open>The three payloads a control transfer may send.\<close>

definition setup_payload :: "u8 \<Rightarrow> usb3_setup_pkt \<Rightarrow> payload" where
  "setup_payload addr s =
     make_payload TLM_WRITE_COMMAND (pack_setup_packet s)
       ((make_usb3_ext SETUP addr 0 HOST_TO_DEVICE CONTROL)\<lparr>setup_pkt := s\<rparr>)"

definition data_payload :: "u8 \<Rightarrow> u8 list \<Rightarrow> payload" where
  "data_payload addr bytes =
     make_payload TLM_WRITE_COMMAND bytes (make_usb3_ext CTRL_DATA addr 0 HOST_TO_DEVICE CONTROL)"

definition status_payload :: "u8 \<Rightarrow> bool \<Rightarrow> payload" where
  "status_payload addr host_to_device =
     make_payload TLM_READ_COMMAND [0]
       (make_usb3_ext CTRL_STATUS addr 0
          (if host_to_device then DEVICE_TO_HOST else HOST_TO_DEVICE) CONTROL)"

text \<open>The data stage: either collect the response or send the buffer.\<close>

definition ctrl_data_stage :: "('e world_scheme) b_transport \<Rightarrow> ('e world_scheme) waiting \<Rightarrow> u8 \<Rightarrow>
    usb3_setup_pkt \<Rightarrow> u8 list \<Rightarrow> bool \<Rightarrow> 'e world_scheme \<Rightarrow> (u8 list \<times> 'e world_scheme) run" where
  "ctrl_data_stage to_protocol wt addr setup data_buf host_to_device w =
     (if unat (wLength setup) > 0 then
        if \<not> host_to_device then
          if m_resp_valid (host_ctrl w) then
            Inr (m_resp_data (host_ctrl w),
                 w\<lparr>host_ctrl := (host_ctrl w)\<lparr>m_resp_data := [], m_resp_valid := False\<rparr>\<rparr>)
          else Inr (data_buf, w)
        else
          let out_buf = data_buf;
              out_buf = (if out_buf = [] then vec_resize (unat (wLength setup)) 0 out_buf
                         else out_buf)
          in bindR (to_protocol (data_payload addr out_buf) 0 w)
               (\<lambda>(tr, delay, w). Inr (data_buf, wt (SC_US 5) w))
      else Inr (data_buf, w))"

definition ctrl_transfer :: "('e world_scheme) b_transport \<Rightarrow> ('e world_scheme) waiting \<Rightarrow> u8 \<Rightarrow>
    usb3_setup_pkt \<Rightarrow> u8 list \<Rightarrow> bool \<Rightarrow> 'e world_scheme \<Rightarrow>
    (bool \<times> u8 list \<times> 'e world_scheme) run" where
  "ctrl_transfer to_protocol wt addr setup data_buf host_to_device w =
     bindR (to_protocol (setup_payload addr setup) 0 w) (\<lambda>(tr, delay, w).
     let w = wt (SC_US 5) w in
     bindR (ctrl_data_stage to_protocol wt addr setup data_buf host_to_device w)
       (\<lambda>(data_buf, w).
     bindR (to_protocol (status_payload addr host_to_device) 0 w) (\<lambda>(tr, delay, w).
     let w = wt (SC_US 2) w in
     Inr (response_status tr = TLM_OK_RESPONSE, data_buf, w))))"

section \<open>Requests\<close>

definition get_descriptor_setup :: "u8 \<Rightarrow> u8 \<Rightarrow> usb3_setup_pkt" where
  "get_descriptor_setup desc_type desc_index = default_setup_pkt\<lparr>
     bmRequestType := 0x80, bRequest := USB_REQ_GET_DESCRIPTOR,
     wValue := push_bit 8 (ucast desc_type) OR ucast desc_index, wIndex := 0,
     wLength := (if desc_type = USB_DESC_CONFIGURATION then 255
                 else if desc_type = USB_DESC_BOS then 255 else 18) \<rparr>"

definition get_descriptor :: "('e world_scheme) b_transport \<Rightarrow> ('e world_scheme) waiting \<Rightarrow> u8 \<Rightarrow>
    u8 \<Rightarrow> u8 \<Rightarrow> u8 list \<Rightarrow> 'e world_scheme \<Rightarrow> (bool \<times> u8 list \<times> 'e world_scheme) run" where
  "get_descriptor to_protocol wt addr desc_type desc_index buf w =
     ctrl_transfer to_protocol wt addr (get_descriptor_setup desc_type desc_index) buf False w"

definition set_address_setup :: "u8 \<Rightarrow> usb3_setup_pkt" where
  "set_address_setup new_addr = default_setup_pkt\<lparr>
     bmRequestType := 0x00, bRequest := USB_REQ_SET_ADDRESS, wValue := ucast new_addr,
     wIndex := 0, wLength := 0 \<rparr>"

definition set_address :: "('e world_scheme) b_transport \<Rightarrow> ('e world_scheme) waiting \<Rightarrow> u8 \<Rightarrow> u8 \<Rightarrow>
    'e world_scheme \<Rightarrow> (bool \<times> 'e world_scheme) run" where
  "set_address to_protocol wt old_addr new_addr w =
     bindR (ctrl_transfer to_protocol wt old_addr (set_address_setup new_addr) [] True w)
       (\<lambda>(ok, dummy, w). Inr (ok, w))"

definition set_configuration_setup :: "u8 \<Rightarrow> usb3_setup_pkt" where
  "set_configuration_setup config_val = default_setup_pkt\<lparr>
     bmRequestType := 0x00, bRequest := USB_REQ_SET_CONFIGURATION, wValue := ucast config_val,
     wIndex := 0, wLength := 0 \<rparr>"

definition set_configuration :: "('e world_scheme) b_transport \<Rightarrow> ('e world_scheme) waiting \<Rightarrow> u8 \<Rightarrow>
    u8 \<Rightarrow> 'e world_scheme \<Rightarrow> (bool \<times> 'e world_scheme) run" where
  "set_configuration to_protocol wt addr config_val w =
     bindR (ctrl_transfer to_protocol wt addr (set_configuration_setup config_val) [] True w)
       (\<lambda>(ok, dummy, w). Inr (ok, w))"

section \<open>Enumeration\<close>

definition put_dev :: "(usb3_device_info \<Rightarrow> usb3_device_info) \<Rightarrow> 'e world_scheme \<Rightarrow>
    'e world_scheme" where
  "put_dev f w = w\<lparr>host_ctrl := (host_ctrl w)\<lparr>m_dev := f (m_dev (host_ctrl w))\<rparr>\<rparr>"

text \<open>What the device descriptor's bytes tell, when at least 18 of them arrived.\<close>

definition parse_dev_desc :: "u8 list \<Rightarrow> usb3_device_info \<Rightarrow> usb3_device_info" where
  "parse_dev_desc buf d =
     (if length buf \<ge> 18 then
        d\<lparr>vendor_id := le16 (buf ! 8) (buf ! 9), product_id := le16 (buf ! 10) (buf ! 11),
          num_configs := buf ! 17\<rparr>
      else d)"

definition parse_cfg_desc :: "u8 list \<Rightarrow> usb3_device_info \<Rightarrow> usb3_device_info" where
  "parse_cfg_desc buf d = (if length buf \<ge> 9 then d\<lparr>active_config := buf ! 5\<rparr> else d)"

text \<open>
  \<open>enumerate_device\<close> in two parts: \<open>enumerate_configure\<close> is what follows once the device has its
  address, with the descriptor buffer as the first part left it.
\<close>

definition enumerate_configure :: "('e world_scheme) b_transport \<Rightarrow> ('e world_scheme) waiting \<Rightarrow>
    u8 list \<Rightarrow> 'e world_scheme \<Rightarrow> 'e world_scheme run" where
  "enumerate_configure to_protocol wt desc_buf w =
     bindR (get_descriptor to_protocol wt (di_addr (m_dev (host_ctrl w)))
              USB_DESC_CONFIGURATION 0 desc_buf w) (\<lambda>(ok, desc_buf, w).
     if \<not> ok then Inr w else
     let w = put_dev (parse_cfg_desc desc_buf) w in
     bindR (get_descriptor to_protocol wt (di_addr (m_dev (host_ctrl w))) USB_DESC_BOS 0 [] w)
       (\<lambda>(_, bos_buf, w).
     bindR (set_configuration to_protocol wt (di_addr (m_dev (host_ctrl w))) 1 w) (\<lambda>(ok, w).
     if \<not> ok then Inr w else
     let w = put_dev (\<lambda>d. d\<lparr>active_config := 1, enumerated := True\<rparr>) w;
         w = w\<lparr>host_ctrl := (host_ctrl w)\<lparr>enumeration_done := True\<rparr>\<rparr>;
         w = wt (SC_NS 10) w;
         w = w\<lparr>host_ctrl := (host_ctrl w)\<lparr>enumeration_done := False\<rparr>\<rparr>
     in Inr w)))"

definition enumerate_device :: "('e world_scheme) b_transport \<Rightarrow> ('e world_scheme) waiting \<Rightarrow>
    'e world_scheme \<Rightarrow> 'e world_scheme run" where
  "enumerate_device to_protocol wt w =
     bindR (get_descriptor to_protocol wt 0 USB_DESC_DEVICE 0 [] w) (\<lambda>(ok, desc_buf, w).
     if \<not> ok then Inr w else
     let w = put_dev (parse_dev_desc desc_buf) w;
         new_addr = m_next_addr (host_ctrl w);
         w = w\<lparr>host_ctrl := (host_ctrl w)\<lparr>m_next_addr := new_addr + 1\<rparr>\<rparr> in
     bindR (set_address to_protocol wt 0 new_addr w) (\<lambda>(ok, w).
     if \<not> ok then Inr w else
     let w = put_dev (\<lambda>d. d\<lparr>di_addr := new_addr\<rparr>) w;
         w = w\<lparr>host_ctrl := (host_ctrl w)\<lparr>dev_addr_out := new_addr\<rparr>\<rparr>;
         w = wt (SC_MS 2) w in
     enumerate_configure to_protocol wt desc_buf w))"

section \<open>Bulk transfers\<close>

definition enqueue_bulk_trb :: "u8 \<Rightarrow> u8 \<Rightarrow> usb3_dir \<Rightarrow> nat \<Rightarrow> u8 list \<Rightarrow> host_controller \<Rightarrow>
    host_controller run" where
  "enqueue_bulk_trb addr ep dir len bytes hc =
     (let trb = default_trb\<lparr>trb_dev_addr := addr, trb_endpoint := ep, trb_direction := dir,
                  trb_ep_type := BULK, trb_payload := bytes, trb_length := of_nat len,
                  trb_ioc := True\<rparr>
      in bindR (ring_enqueue trb (m_transfer_ring hc)) (\<lambda>r.
           Inr (hc\<lparr>m_transfer_ring := r, m_trb_complete_event := True\<rparr>)))"

definition bulk_out :: "u8 \<Rightarrow> u8 \<Rightarrow> u8 list \<Rightarrow> host_controller \<Rightarrow> host_controller run" where
  "bulk_out addr ep bytes hc = enqueue_bulk_trb addr ep HOST_TO_DEVICE (length bytes) bytes hc"

definition bulk_in :: "u8 \<Rightarrow> u8 \<Rightarrow> nat \<Rightarrow> host_controller \<Rightarrow> host_controller run" where
  "bulk_in addr ep len hc = enqueue_bulk_trb addr ep DEVICE_TO_HOST len [] hc"

definition trb_to_payload :: "usb3_trb \<Rightarrow> payload" where
  "trb_to_payload trb =
     (let ext = make_usb3_ext (if trb_direction trb = HOST_TO_DEVICE then BULK_OUT else BULK_IN)
                  (trb_dev_addr trb) (trb_endpoint trb) (trb_direction trb) (trb_ep_type trb);
          buf = (if trb_direction trb = HOST_TO_DEVICE then trb_payload trb
                 else vec_resize (unat (trb_length trb)) 0 [])
      in make_payload
           (if trb_direction trb = HOST_TO_DEVICE then TLM_WRITE_COMMAND else TLM_READ_COMMAND)
           buf ext)"

text \<open>The part of the loop body of \<open>process_transfer_ring\<close> that runs one dequeued TRB.\<close>

definition run_trb :: "('e world_scheme) b_transport \<Rightarrow> ('e world_scheme) waiting \<Rightarrow> usb3_trb \<Rightarrow>
    'e world_scheme \<Rightarrow> 'e world_scheme run" where
  "run_trb to_protocol wt trb w =
     bindR (to_protocol (trb_to_payload trb) 0 w) (\<lambda>(tr, delay, w).
     let w = (if trb_direction trb = DEVICE_TO_HOST \<and> m_resp_valid (host_ctrl w)
              then w\<lparr>host_ctrl := (host_ctrl w)\<lparr>m_rx_buf := m_resp_data (host_ctrl w),
                       m_resp_data := [], m_resp_valid := False\<rparr>\<rparr>
              else w) in
     if trb_ioc trb then
       let w = w\<lparr>host_ctrl := (host_ctrl w)\<lparr>transfer_done := True\<rparr>\<rparr>;
           w = wt (SC_NS 1) w;
           w = w\<lparr>host_ctrl := (host_ctrl w)\<lparr>transfer_done := False\<rparr>\<rparr>
       in Inr w
     else Inr w)"

text \<open>
  The loop, for at most \<open>n\<close> dequeued TRBs. It stops when the controller is disabled
  (\<open>RingLeft\<close>: the function returns) or the ring is empty (\<open>RingBlocked\<close>: the thread waits for
  \<open>m_trb_complete_event\<close>); \<open>RingFuel\<close> marks that \<open>n\<close> was not enough.
\<close>

datatype ring_outcome = RingLeft | RingBlocked | RingFuel

fun process_transfer_ring :: "('e world_scheme) b_transport \<Rightarrow> ('e world_scheme) waiting \<Rightarrow> nat \<Rightarrow>
    'e world_scheme \<Rightarrow> (ring_outcome \<times> 'e world_scheme) run" where
  "process_transfer_ring to_protocol wt n w =
     (if \<not> sig_host_enable (sigs w) then Inr (RingLeft, w)
      else if ring_empty (m_transfer_ring (host_ctrl w)) then Inr (RingBlocked, w)
      else case n of
          0 \<Rightarrow> Inr (RingFuel, w)
        | Suc m \<Rightarrow>
            bindR (ring_dequeue (m_transfer_ring (host_ctrl w))) (\<lambda>(trb, r).
            bindR (run_trb to_protocol wt trb (w\<lparr>host_ctrl := (host_ctrl w)\<lparr>m_transfer_ring := r\<rparr>\<rparr>))
              (process_transfer_ring to_protocol wt m)))"

declare process_transfer_ring.simps [simp del]

section \<open>The host thread\<close>

definition host_main_start :: "host_controller \<Rightarrow> host_controller" where
  "host_main_start hc =
     hc\<lparr>transfer_done := False, enumeration_done := False, dev_addr_out := 0\<rparr>"

text \<open>
  One round of the main loop once the controller is enabled: forget the old device, enumerate,
  and run the ring (here for at most \<open>n\<close> TRBs).
\<close>

definition host_main_round :: "('e world_scheme) b_transport \<Rightarrow> ('e world_scheme) waiting \<Rightarrow> nat \<Rightarrow>
    'e world_scheme \<Rightarrow> (ring_outcome \<times> 'e world_scheme) run" where
  "host_main_round to_protocol wt n w =
     bindR (enumerate_device to_protocol wt
              (w\<lparr>host_ctrl := (host_ctrl w)\<lparr>m_dev := default_device_info\<rparr>\<rparr>))
       (process_transfer_ring to_protocol wt n)"

section \<open>Lemmas\<close>

lemma pack_setup_packet_bytes:
  "pack_setup_packet s =
     [bmRequestType s, bRequest s, lo8 (wValue s), hi8 (wValue s), lo8 (wIndex s), hi8 (wIndex s),
      lo8 (wLength s), hi8 (wLength s)]"
  by (simp add: pack_setup_packet_def lo8_def hi8_def numeral_eq_Suc)

lemma payload_wf_sent [simp]:
  "payload_wf (setup_payload a s)"
  "payload_wf (data_payload a bs)"
  "payload_wf (status_payload a d)"
  "payload_wf (trb_to_payload t)"
  by (simp_all add: setup_payload_def data_payload_def status_payload_def trb_to_payload_def Let_def)

lemma extension_sent [simp]:
  "extension (setup_payload a s) =
     Some ((make_usb3_ext SETUP a 0 HOST_TO_DEVICE CONTROL)\<lparr>setup_pkt := s\<rparr>)"
  "extension (data_payload a bs) = Some (make_usb3_ext CTRL_DATA a 0 HOST_TO_DEVICE CONTROL)"
  "extension (status_payload a d) =
     Some (make_usb3_ext CTRL_STATUS a 0 (if d then DEVICE_TO_HOST else HOST_TO_DEVICE) CONTROL)"
  by (simp_all add: setup_payload_def data_payload_def status_payload_def)

text \<open>The value a GET_DESCRIPTOR carries splits again into type and index on the device side.\<close>

lemma get_descriptor_wValue: "wValue (get_descriptor_setup t i) = le16 i t"
  by (simp add: get_descriptor_setup_def default_setup_pkt_def le16_def or.commute)

lemma get_descriptor_setup_sel [simp]:
  "bRequest (get_descriptor_setup t i) = USB_REQ_GET_DESCRIPTOR"
  "hi8 (wValue (get_descriptor_setup t i)) = t"
  "lo8 (wValue (get_descriptor_setup t i)) = i"
  by (simp_all add: get_descriptor_wValue) (simp add: get_descriptor_setup_def)

lemma set_setup_sel [simp]:
  "bRequest (set_address_setup a) = USB_REQ_SET_ADDRESS"
  "wValue (set_address_setup a) = ucast a"
  "wLength (set_address_setup a) = 0"
  "bRequest (set_configuration_setup a) = USB_REQ_SET_CONFIGURATION"
  "wLength (set_configuration_setup a) = 0"
  by (simp_all add: set_address_setup_def set_configuration_setup_def)

lemma from_protocol_receives:
  "payload_wf tr \<Longrightarrow> data_length tr > 0 \<Longrightarrow>
   \<exists>bytes. read_data tr = Inr bytes \<and>
     from_protocol_b_transport tr delay w =
       Inr (tr, delay, w\<lparr>host_ctrl := (host_ctrl w)\<lparr>m_resp_data := bytes, m_resp_valid := True\<rparr>\<rparr>)"
  using read_data_wf [of tr]
  by (auto simp: from_protocol_b_transport_def payload_wf_def split: option.splits)

lemma from_protocol_empty:
  "data_length tr = 0 \<Longrightarrow> from_protocol_b_transport tr delay w = Inr (tr, delay, w)"
  by (simp add: from_protocol_b_transport_def)

end
