(* ===== verification/Device_Controller.thy ===== *)
theory Device_Controller imports Drd_World begin

text \<open>
  \<open>usb3_device_controller_t\<close>: standard requests on endpoint 0 and the bulk loopback from
  endpoint 2 to endpoint 1. The socket \<open>to_protocol\<close> and the \<open>wait\<close> of the calling thread are
  parameters; both run on the state of the whole simulation, so a handler that sends or waits
  continues on whatever state it gets back.
\<close>

section \<open>Sending\<close>

definition dev_packet :: "device_controller \<Rightarrow> usb3_pkt_type \<Rightarrow> u8 \<Rightarrow> usb3_dir \<Rightarrow> u8 list \<Rightarrow>
    usb3_ep_type \<Rightarrow> payload" where
  "dev_packet dc t ep dir bytes ept =
     make_payload TLM_WRITE_COMMAND bytes (make_usb3_ext t (m_assigned_addr dc) ep dir ept)"

definition send_to_protocol :: "('e world_scheme) b_transport \<Rightarrow> usb3_pkt_type \<Rightarrow> u8 \<Rightarrow> usb3_dir \<Rightarrow>
    u8 list \<Rightarrow> usb3_ep_type \<Rightarrow> 'e world_scheme \<Rightarrow> 'e world_scheme run" where
  "send_to_protocol to_protocol t ep dir bytes ept w =
     bindR (to_protocol (dev_packet (dev_ctrl w) t ep dir bytes ept) 0 w)
       (\<lambda>(tr, delay, w). Inr w)"

definition stall_endpoint :: "('e world_scheme) b_transport \<Rightarrow> u8 \<Rightarrow> 'e world_scheme \<Rightarrow>
    'e world_scheme run" where
  "stall_endpoint to_protocol ep w =
     send_to_protocol to_protocol TP_STALL ep DEVICE_TO_HOST (replicate 4 0) CONTROL w"

definition send_bulk_in :: "('e world_scheme) b_transport \<Rightarrow> u8 list \<Rightarrow> u8 \<Rightarrow> 'e world_scheme \<Rightarrow>
    'e world_scheme run" where
  "send_bulk_in to_protocol bytes ep w =
     send_to_protocol to_protocol BULK_IN ep DEVICE_TO_HOST bytes BULK w"

section \<open>Standard requests\<close>

definition handle_get_descriptor :: "('e world_scheme) b_transport \<Rightarrow> usb3_setup_pkt \<Rightarrow> payload \<Rightarrow>
    'e world_scheme \<Rightarrow> (payload \<times> 'e world_scheme) run" where
  "handle_get_descriptor to_protocol setup tr w =
     (case get_descriptor_data (dev_descs (dev_ctrl w)) setup of
        None \<Rightarrow> bindR (stall_endpoint to_protocol 0 w)
          (\<lambda>w. Inr (tr\<lparr>response_status := TLM_GENERIC_ERROR_RESPONSE\<rparr>, w))
      | Some resp_data \<Rightarrow>
          bindR (send_to_protocol to_protocol CTRL_DATA 0 DEVICE_TO_HOST resp_data CONTROL w)
            (\<lambda>w. Inr (tr\<lparr>response_status := TLM_OK_RESPONSE\<rparr>, w)))"

definition handle_set_address :: "('e world_scheme) waiting \<Rightarrow> usb3_setup_pkt \<Rightarrow>
    'e world_scheme \<Rightarrow> 'e world_scheme" where
  "handle_set_address wt setup w =
     wt (SC_MS 2)
       (w\<lparr>dev_ctrl := (dev_ctrl w)\<lparr>m_assigned_addr := ucast (wValue setup AND 0x7F)\<rparr>\<rparr>)"

definition handle_set_configuration :: "usb3_setup_pkt \<Rightarrow> 'e world_scheme \<Rightarrow> 'e world_scheme" where
  "handle_set_configuration setup w =
     w\<lparr>dev_ctrl := (dev_ctrl w)\<lparr>m_configured := True, configured := True\<rparr>\<rparr>"

definition handle_setup :: "('e world_scheme) b_transport \<Rightarrow> ('e world_scheme) waiting \<Rightarrow>
    usb3_setup_pkt \<Rightarrow> payload \<Rightarrow> 'e world_scheme \<Rightarrow> (payload \<times> 'e world_scheme) run" where
  "handle_setup to_protocol wt setup tr w =
     (if bRequest setup = USB_REQ_GET_DESCRIPTOR then
        handle_get_descriptor to_protocol setup tr w
      else if bRequest setup = USB_REQ_SET_ADDRESS then
        Inr (tr\<lparr>response_status := TLM_OK_RESPONSE\<rparr>, handle_set_address wt setup w)
      else if bRequest setup = USB_REQ_SET_CONFIGURATION then
        Inr (tr\<lparr>response_status := TLM_OK_RESPONSE\<rparr>, handle_set_configuration setup w)
      else if bRequest setup = USB_REQ_GET_STATUS then
        bindR (send_to_protocol to_protocol CTRL_DATA 0 DEVICE_TO_HOST (replicate 2 0) CONTROL w)
          (\<lambda>w. Inr (tr\<lparr>response_status := TLM_OK_RESPONSE\<rparr>, w))
      else
        bindR (stall_endpoint to_protocol 0 w)
          (\<lambda>w. Inr (tr\<lparr>response_status := TLM_GENERIC_ERROR_RESPONSE\<rparr>, w)))"

section \<open>Bulk endpoints\<close>

definition handle_bulk_out :: "payload \<Rightarrow> 'e world_scheme \<Rightarrow> (payload \<times> 'e world_scheme) run" where
  "handle_bulk_out tr w =
     bindR (read_data tr) (\<lambda>bytes.
       Inr (tr\<lparr>response_status := TLM_OK_RESPONSE\<rparr>,
            w\<lparr>dev_ctrl := (dev_ctrl w)\<lparr>m_ep2_out := fifo_write bytes (m_ep2_out (dev_ctrl w)),
                m_out_ep_event := True\<rparr>\<rparr>))"

text \<open>The BULK_IN case of the dispatcher: send what endpoint 1 holds, if anything.\<close>

definition handle_bulk_in :: "('e world_scheme) b_transport \<Rightarrow> 'e world_scheme \<Rightarrow>
    'e world_scheme run" where
  "handle_bulk_in to_protocol w = (case fifo_read (m_ep1_in (dev_ctrl w)) of
      None \<Rightarrow> Inr w
    | Some (bytes, f) \<Rightarrow>
        send_bulk_in to_protocol bytes 1 (w\<lparr>dev_ctrl := (dev_ctrl w)\<lparr>m_ep1_in := f\<rparr>\<rparr>))"

definition from_proto_b_transport :: "('e world_scheme) b_transport \<Rightarrow> ('e world_scheme) waiting \<Rightarrow>
    ('e world_scheme) b_transport" where
  "from_proto_b_transport to_protocol wt tr delay w =
     (if \<not> sig_dev_enable (sigs w) then
        Inr (tr\<lparr>response_status := TLM_GENERIC_ERROR_RESPONSE\<rparr>, delay, w)
      else case extension tr of
        None \<Rightarrow> Inr (tr\<lparr>response_status := TLM_GENERIC_ERROR_RESPONSE\<rparr>, delay, w)
      | Some ext \<Rightarrow>
          (case pkt_type ext of
              SETUP \<Rightarrow>
                bindR (handle_setup to_protocol wt (setup_pkt ext) tr w)
                  (\<lambda>(tr, w). Inr (tr, delay, w))
            | BULK_OUT \<Rightarrow> bindR (handle_bulk_out tr w) (\<lambda>(tr, w). Inr (tr, delay, w))
            | CTRL_DATA \<Rightarrow> bindR (handle_bulk_out tr w) (\<lambda>(tr, w). Inr (tr, delay, w))
            | CTRL_STATUS \<Rightarrow>
                bindR (send_to_protocol to_protocol CTRL_STATUS 0 DEVICE_TO_HOST
                         (replicate 1 0) CONTROL w)
                  (\<lambda>w. Inr (tr\<lparr>response_status := TLM_OK_RESPONSE\<rparr>, delay, w))
            | BULK_IN \<Rightarrow>
                bindR (handle_bulk_in to_protocol w)
                  (\<lambda>w. Inr (tr\<lparr>response_status := TLM_OK_RESPONSE\<rparr>, delay, w))
            | _ \<Rightarrow> Inr (tr\<lparr>response_status := TLM_GENERIC_ERROR_RESPONSE\<rparr>, delay, w)))"

section \<open>The loopback thread\<close>

text \<open>
  One pass of \<open>loopback_process\<close> after a wake-up, up to its \<open>wait(10 ns)\<close>; the second component
  tells whether the thread is now inside that wait. \<open>loopback_end\<close> is what follows the wait.
\<close>

definition loopback_body :: "('e world_scheme) b_transport \<Rightarrow> 'e world_scheme \<Rightarrow>
    ('e world_scheme \<times> bool) run" where
  "loopback_body to_protocol w =
     (if \<not> m_configured (dev_ctrl w) then Inr (w, False)
      else case fifo_read (m_ep2_out (dev_ctrl w)) of
        None \<Rightarrow> Inr (w, False)
      | Some (bytes, f) \<Rightarrow>
          bindR (send_to_protocol to_protocol TP_ERDY 1 DEVICE_TO_HOST [1, 0, 0, 0] CONTROL
                   (w\<lparr>dev_ctrl := (dev_ctrl w)\<lparr>m_ep2_out := f,
                        m_ep1_in := fifo_write bytes (m_ep1_in (dev_ctrl w))\<rparr>\<rparr>))
            (\<lambda>w. Inr (w\<lparr>dev_ctrl := (dev_ctrl w)\<lparr>bulk_irq := True\<rparr>\<rparr>, True)))"

definition loopback_end :: "'e world_scheme \<Rightarrow> 'e world_scheme" where
  "loopback_end w = w\<lparr>dev_ctrl := (dev_ctrl w)\<lparr>bulk_irq := False\<rparr>\<rparr>"

section \<open>Lemmas\<close>

lemma dev_packet_wf [simp]: "payload_wf (dev_packet dc t ep dir bytes ept)"
  by (simp add: dev_packet_def)

lemma dev_packet_sel [simp]:
  "extension (dev_packet dc t ep dir bytes ept) =
     Some (make_usb3_ext t (m_assigned_addr dc) ep dir ept)"
  "read_data (dev_packet dc t ep dir bytes ept) = Inr bytes"
  "command (dev_packet dc t ep dir bytes ept) = TLM_WRITE_COMMAND"
  "data_length (dev_packet dc t ep dir bytes ept) = length bytes"
  by (simp_all add: dev_packet_def)

text \<open>A disabled device controller drops everything: no packet, no change of state.\<close>

lemma from_proto_disabled:
  "\<not> sig_dev_enable (sigs w) \<Longrightarrow>
   from_proto_b_transport to_protocol wt tr delay w =
     Inr (tr\<lparr>response_status := TLM_GENERIC_ERROR_RESPONSE\<rparr>, delay, w)"
  by (simp add: from_proto_b_transport_def)

lemma handle_setup_cases:
  "bRequest s = USB_REQ_GET_DESCRIPTOR \<Longrightarrow>
     handle_setup tp wt s tr w = handle_get_descriptor tp s tr w"
  "bRequest s = USB_REQ_SET_ADDRESS \<Longrightarrow>
     handle_setup tp wt s tr w =
       Inr (tr\<lparr>response_status := TLM_OK_RESPONSE\<rparr>, handle_set_address wt s w)"
  "bRequest s = USB_REQ_SET_CONFIGURATION \<Longrightarrow>
     handle_setup tp wt s tr w =
       Inr (tr\<lparr>response_status := TLM_OK_RESPONSE\<rparr>, handle_set_configuration s w)"
  by (simp_all add: handle_setup_def usb_req_defs)

end
