(* ===== verification/Drd_Controller.thy ===== *)
theory Drd_Controller imports Protocol_Layer Host_Controller Device_Controller begin

text \<open>
  \<open>usb3_drd_controller_t\<close>: the register file behind \<open>cfg_socket\<close>, the interrupt logic, the
  thread that enables the controller of the new role, the input forwarding, and the socket
  bindings that connect the controllers, the protocol layer and the peer.
\<close>

section \<open>Register map and interrupt bits\<close>

definition REG_CTRL :: u64 where "REG_CTRL = 0x00"
definition REG_STATUS :: u64 where "REG_STATUS = 0x04"
definition REG_ROLE_CTRL :: u64 where "REG_ROLE_CTRL = 0x08"
definition REG_INTR_STATUS :: u64 where "REG_INTR_STATUS = 0x0C"
definition REG_INTR_ENABLE :: u64 where "REG_INTR_ENABLE = 0x10"
definition REG_DEV_ADDR :: u64 where "REG_DEV_ADDR = 0x14"
definition REG_SPEED :: u64 where "REG_SPEED = 0x1C"

lemmas reg_defs = REG_CTRL_def REG_STATUS_def REG_ROLE_CTRL_def REG_INTR_STATUS_def
  REG_INTR_ENABLE_def REG_DEV_ADDR_def REG_SPEED_def

definition DRD_INTR_ROLE_CHANGED :: u32 where "DRD_INTR_ROLE_CHANGED = push_bit 0 1"
definition DRD_INTR_ENUM_DONE :: u32 where "DRD_INTR_ENUM_DONE = push_bit 3 1"
definition DRD_INTR_XFER_DONE :: u32 where "DRD_INTR_XFER_DONE = push_bit 4 1"
definition DRD_INTR_BULK_IRQ :: u32 where "DRD_INTR_BULK_IRQ = push_bit 5 1"

lemmas intr_defs = DRD_INTR_ROLE_CHANGED_def DRD_INTR_ENUM_DONE_def DRD_INTR_XFER_DONE_def
  DRD_INTR_BULK_IRQ_def

section \<open>Interrupts\<close>

definition raise_irq :: "u32 \<Rightarrow> drd_controller \<Rightarrow> drd_controller" where
  "raise_irq bits d =
     (let d = d\<lparr>m_intr_status := m_intr_status d OR bits\<rparr> in
      if m_intr_status d AND m_intr_enable d \<noteq> 0
      then d\<lparr>irq := True,
             m_regs := (m_regs d)[unat (REG_INTR_STATUS div 4) := m_intr_status d]\<rparr>
      else d)"

definition interrupt_collector :: "drd_signals \<Rightarrow> drd_controller \<Rightarrow> drd_controller" where
  "interrupt_collector s d =
     (let d = (if sig_enum_done s
               then let d = raise_irq DRD_INTR_ENUM_DONE d in
                 d\<lparr>m_regs := (m_regs d)[unat (REG_DEV_ADDR div 4) := ucast (sig_dev_addr s)]\<rparr>
               else d);
          d = (if sig_xfer_done s then raise_irq DRD_INTR_XFER_DONE d else d)
      in if sig_bulk_irq s then raise_irq DRD_INTR_BULK_IRQ d else d)"

section \<open>The register file\<close>

definition build_status_reg :: "drd_signals \<Rightarrow> u32" where
  "build_status_reg s =
     (let r = 0;
          r = r OR push_bit 4 (ucast (role_val (sig_role s)) AND 0x03);
          r = r OR push_bit 8 (ucast (speed_val SUPER_SPEED) AND 0x07);
          r = r OR push_bit 16 1
      in r OR push_bit 17 (if sig_configured s then 1 else 0))"

text \<open>
  \<open>memcpy(&val, data, 4)\<close> and \<open>memcpy(data, &val, 4)\<close> on a little-endian machine; both are
  errors when the payload's memory is shorter than four bytes.
\<close>

definition load32 :: "payload \<Rightarrow> u32 run" where
  "load32 tr = (case data_ptr tr of
      Some (b0 # b1 # b2 # b3 # _) \<Rightarrow>
        Inr (ucast b0 OR push_bit 8 (ucast b1) OR push_bit 16 (ucast b2) OR push_bit 24 (ucast b3))
    | _ \<Rightarrow> Inl BadMemory)"

definition store32 :: "u32 \<Rightarrow> payload \<Rightarrow> payload run" where
  "store32 v tr = (case data_ptr tr of
      Some (_ # _ # _ # _ # rest) \<Rightarrow>
        Inr (tr\<lparr>data_ptr := Some (ucast v # ucast (drop_bit 8 v) # ucast (drop_bit 16 v) #
                 ucast (drop_bit 24 v) # rest)\<rparr>)
    | _ \<Rightarrow> Inl BadMemory)"

text \<open>
  \<open>get_address() & ~3u\<close>: the mask is a 32-bit value, so it also clears the upper half of the
  64-bit address.
\<close>

definition reg_addr :: "payload \<Rightarrow> u64" where
  "reg_addr tr = address tr AND ucast (NOT 3 :: u32)"

definition cfg_read :: "u64 \<Rightarrow> 'e world_scheme \<Rightarrow> u32" where
  "cfg_read addr w =
     (if addr = REG_STATUS then build_status_reg (sigs w)
      else if addr = REG_INTR_STATUS then m_intr_status (drd w)
      else if addr = REG_INTR_ENABLE then m_intr_enable (drd w)
      else if addr = REG_DEV_ADDR then ucast (sig_dev_addr (sigs w))
      else if addr = REG_SPEED then ucast (speed_val SUPER_SPEED)
      else if unat (addr div 4) < 8 then m_regs (drd w) ! unat (addr div 4)
      else 0)"

definition cfg_write :: "u64 \<Rightarrow> u32 \<Rightarrow> 'e world_scheme \<Rightarrow> 'e world_scheme" where
  "cfg_write addr val w =
     (if addr = REG_CTRL then w
      else if addr = REG_ROLE_CTRL then
        if val = 1 then w\<lparr>role_mgr := request_role HOST (role_mgr w)\<rparr>
        else if val = 2 then w\<lparr>role_mgr := request_role DEVICE (role_mgr w)\<rparr>
        else w
      else if addr = REG_INTR_STATUS then
        let d = (drd w)\<lparr>m_intr_status := m_intr_status (drd w) AND NOT val\<rparr>;
            d = (if m_intr_status d = 0 then d\<lparr>irq := False\<rparr> else d)
        in w\<lparr>drd := d\<rparr>
      else if addr = REG_INTR_ENABLE then w\<lparr>drd := (drd w)\<lparr>m_intr_enable := val\<rparr>\<rparr>
      else if unat (addr div 4) < 8 then
        w\<lparr>drd := (drd w)\<lparr>m_regs := (m_regs (drd w))[unat (addr div 4) := val]\<rparr>\<rparr>
      else w)"

definition cfg_b_transport :: "('e world_scheme) b_transport" where
  "cfg_b_transport tr delay w =
     (if data_length tr < 4 then
        Inr (tr\<lparr>response_status := TLM_GENERIC_ERROR_RESPONSE\<rparr>, delay, w)
      else if command tr = TLM_READ_COMMAND then
        bindR (store32 (cfg_read (reg_addr tr) w) tr) (\<lambda>tr.
          Inr (tr\<lparr>response_status := TLM_OK_RESPONSE\<rparr>, delay + SC_NS 10, w))
      else
        bindR (load32 tr) (\<lambda>val.
          Inr (tr\<lparr>response_status := TLM_OK_RESPONSE\<rparr>, delay + SC_NS 10,
               cfg_write (reg_addr tr) val w)))"

section \<open>Role switching and inputs\<close>

text \<open>
  \<open>role_switch_monitor\<close> by its segments: the start, the wake-up on the role pulse up to
  \<open>wait(1 us)\<close> (it also returns the role it read), and what follows that wait.
\<close>

definition role_switch_start :: "drd_controller \<Rightarrow> drd_controller" where
  "role_switch_start d = d\<lparr>host_enable := False, dev_enable := False\<rparr>"

definition role_switch_wake :: "drd_signals \<Rightarrow> drd_controller \<Rightarrow> usb3_role \<times> drd_controller" where
  "role_switch_wake s d = (sig_role s, d\<lparr>host_enable := False, dev_enable := False\<rparr>)"

definition role_switch_settle :: "usb3_role \<Rightarrow> drd_controller \<Rightarrow> drd_controller" where
  "role_switch_settle role d =
     raise_irq DRD_INTR_ROLE_CHANGED
       (if role = HOST then d\<lparr>host_enable := True\<rparr>
        else if role = DEVICE then d\<lparr>dev_enable := True\<rparr>
        else d)"

definition forward_inputs :: "usb_c_cc_state \<Rightarrow> bool \<Rightarrow> drd_controller \<Rightarrow> drd_controller" where
  "forward_inputs cc vb d = d\<lparr>cc_state_int := cc, vbus_int := vb\<rparr>"

section \<open>Socket bindings\<close>

text \<open>
  \<open>host_ctrl.to_protocol\<close> and \<open>dev_ctrl.to_protocol\<close> are bound to the protocol layer, whose
  \<open>to_link\<close> leads to the peer; \<open>upstream\<close> leads back through \<open>from_link\<close>.
\<close>

definition host_to_protocol :: "('e world_scheme) b_transport \<Rightarrow> ('e world_scheme) b_transport" where
  "host_to_protocol to_link = host_b_transport to_link"

definition dev_to_protocol :: "('e world_scheme) b_transport \<Rightarrow> ('e world_scheme) b_transport" where
  "dev_to_protocol to_link = device_b_transport to_link"

definition upstream_b_transport ::
  "('e world_scheme) b_transport \<Rightarrow> ('e world_scheme) waiting \<Rightarrow> ('e world_scheme) b_transport" where
  "upstream_b_transport to_link wt tr delay w =
     link_b_transport from_protocol_b_transport
       (from_proto_b_transport (dev_to_protocol to_link) wt) tr delay w"

end
