(* ===== verification/Socket_Contracts.thy ===== *)
theory Socket_Contracts imports Drd_Controller begin

text \<open>
  What a \<open>b_transport\<close> target promises its caller, as locales over the socket a block sends on:
  every call with a well-formed payload returns, hands back a well-formed payload and keeps the
  caller's invariant \<open>ok\<close>. The blocks that send on such a socket (protocol layer, device
  controller, host controller) are then shown to return as well, so no handler reads outside a
  payload's memory and no call aborts.
\<close>

definition bt_post :: "('w \<Rightarrow> bool) \<Rightarrow> payload \<times> sc_time \<times> 'w \<Rightarrow> bool" where
  "bt_post ok r \<longleftrightarrow> payload_wf (fst r) \<and> ok (snd (snd r))"

lemma bt_post_simp [simp]: "bt_post ok (tr, d, w) \<longleftrightarrow> payload_wf tr \<and> ok w"
  by (simp add: bt_post_def)

definition safe_bt :: "('w \<Rightarrow> bool) \<Rightarrow> 'w b_transport \<Rightarrow> bool" where
  "safe_bt ok bt \<longleftrightarrow> (\<forall>tr d w. payload_wf tr \<longrightarrow> ok w \<longrightarrow>
     returns (bt tr d w) (bt_post ok))"

lemma safe_btD:
  "safe_bt ok bt \<Longrightarrow> payload_wf tr \<Longrightarrow> ok w \<Longrightarrow>
   returns (bt tr d w) (bt_post ok)"
  by (simp add: safe_bt_def)

lemma safe_bt_bind:
  assumes "safe_bt ok bt" and "payload_wf tr" and "ok w"
    and "\<And>tr' d' w'. payload_wf tr' \<Longrightarrow> ok w' \<Longrightarrow> returns (f (tr', d', w')) P"
  shows "returns (bindR (bt tr d w) f) P"
  unfolding returns_bindR
  by (rule returns_mono [OF safe_btD [OF assms(1-3)]]) (auto intro: assms(4))

lemma returns_bind:
  assumes "returns m P" and "\<And>x. P x \<Longrightarrow> returns (f x) Q"
  shows "returns (bindR m f) Q"
  using assms by (cases m) auto

section \<open>Sending through the protocol layer\<close>

locale link_target =
  fixes to_link :: "('e world_scheme) b_transport"
    and ok :: "'e world_scheme \<Rightarrow> bool"
  assumes link_safe: "safe_bt ok to_link"
    and ok_protocol: "ok w \<Longrightarrow> ok (w\<lparr>protocol := p\<rparr>)"
begin

lemma route_tx_safe: "safe_bt ok (route_tx to_link)"
  unfolding safe_bt_def
proof (intro allI impI)
  fix tr :: payload and d and w :: "'e world_scheme"
  assume wf: "payload_wf tr" and ok: "ok w"
  show "returns (route_tx to_link tr d w) (bt_post ok)"
  proof (cases "extension tr")
    case None
    then show ?thesis
      using wf ok by (auto simp: route_tx_def Let_def intro!: safe_bt_bind [OF link_safe])
  next
    case (Some e)
    show ?thesis
      unfolding route_tx_ext [OF Some]
      using wf ok by (auto intro!: safe_btD [OF link_safe] ok_protocol)
  qed
qed

lemma host_socket_safe: "safe_bt ok (host_to_protocol to_link)"
  by (simp add: host_to_protocol_def tx_eq_route route_tx_safe)

lemma dev_socket_safe: "safe_bt ok (dev_to_protocol to_link)"
  by (simp add: dev_to_protocol_def tx_eq_route route_tx_safe)

end

section \<open>The device controller over a safe socket\<close>

locale device_socket =
  fixes to_protocol :: "('e world_scheme) b_transport"
    and wt :: "('e world_scheme) waiting"
    and ok :: "'e world_scheme \<Rightarrow> bool"
  assumes socket_safe: "safe_bt ok to_protocol"
    and ok_wait: "ok w \<Longrightarrow> ok (wt t w)"
    and ok_dev: "ok w \<Longrightarrow> ok (w\<lparr>dev_ctrl := dc\<rparr>)"
begin

lemma send_safe: "ok w \<Longrightarrow> returns (send_to_protocol to_protocol t ep dr bs et w) ok"
  by (auto simp: send_to_protocol_def intro!: safe_bt_bind [OF socket_safe])

lemma stall_safe: "ok w \<Longrightarrow> returns (stall_endpoint to_protocol ep w) ok"
  by (simp add: stall_endpoint_def send_safe)

lemma get_descriptor_safe:
  "payload_wf tr \<Longrightarrow> ok w \<Longrightarrow>
   returns (handle_get_descriptor to_protocol s tr w) (\<lambda>(tr', w'). payload_wf tr' \<and> ok w')"
  by (auto simp: handle_get_descriptor_def split: option.splits
      intro!: returns_bind [OF stall_safe] returns_bind [OF send_safe])

lemma setup_safe:
  "payload_wf tr \<Longrightarrow> ok w \<Longrightarrow>
   returns (handle_setup to_protocol wt s tr w) (\<lambda>(tr', w'). payload_wf tr' \<and> ok w')"
  by (auto simp: handle_setup_def handle_set_address_def handle_set_configuration_def
      intro!: get_descriptor_safe returns_bind [OF stall_safe] returns_bind [OF send_safe]
        ok_wait ok_dev)

lemma bulk_out_safe:
  assumes "payload_wf tr" and "ok w"
  shows "returns (handle_bulk_out tr w) (\<lambda>(tr', w'). payload_wf tr' \<and> ok w')"
proof -
  from read_data_wf [OF assms(1)] obtain bs where "read_data tr = Inr bs" by blast
  with assms show ?thesis by (simp add: handle_bulk_out_def ok_dev)
qed

lemma bulk_in_safe: "ok w \<Longrightarrow> returns (handle_bulk_in to_protocol w) ok"
  by (auto simp: handle_bulk_in_def send_bulk_in_def split: option.splits
      intro!: send_safe ok_dev)

lemma from_proto_safe: "safe_bt ok (from_proto_b_transport to_protocol wt)"
  unfolding safe_bt_def
proof (intro allI impI)
  fix tr :: payload and d and w :: "'e world_scheme"
  assume wf: "payload_wf tr" and ok: "ok w"
  note hs = returns_bind [OF setup_safe [OF wf ok]] returns_bind [OF bulk_out_safe [OF wf ok]]
    returns_bind [OF bulk_in_safe [OF ok]] returns_bind [OF send_safe [OF ok]]
  show "returns (from_proto_b_transport to_protocol wt tr d w)
      (bt_post ok)"
    using wf ok by (auto simp: from_proto_b_transport_def
        split: option.splits usb3_pkt_type.splits intro!: hs)
qed

lemma loopback_safe: "ok w \<Longrightarrow> returns (loopback_body to_protocol w) (\<lambda>(w', p). ok w')"
  by (auto simp: loopback_body_def split: option.splits
      intro!: returns_bind [OF send_safe] ok_dev)

end

section \<open>The host controller over a safe socket\<close>

locale host_socket =
  fixes to_protocol :: "('e world_scheme) b_transport"
    and wt :: "('e world_scheme) waiting"
    and ok :: "'e world_scheme \<Rightarrow> bool"
  assumes socket_safe: "safe_bt ok to_protocol"
    and ok_wait: "ok w \<Longrightarrow> ok (wt t w)"
    and ok_host: "ok w \<Longrightarrow> ok (w\<lparr>host_ctrl := hc\<rparr>)"
begin

lemma from_protocol_safe: "safe_bt ok from_protocol_b_transport"
  unfolding safe_bt_def
proof (intro allI impI)
  fix tr :: payload and d and w :: "'e world_scheme"
  assume wf: "payload_wf tr" and ok: "ok w"
  show "returns (from_protocol_b_transport tr d w) (bt_post ok)"
  proof (cases "data_length tr = 0")
    case True
    then show ?thesis using wf ok by (simp add: from_protocol_empty)
  next
    case False
    with wf obtain bs where
      "from_protocol_b_transport tr d w =
         Inr (tr, d, w\<lparr>host_ctrl := (host_ctrl w)\<lparr>m_resp_data := bs, m_resp_valid := True\<rparr>\<rparr>)"
      using from_protocol_receives [of tr d w] by auto
    then show ?thesis using wf ok by (simp add: ok_host)
  qed
qed

lemma data_stage_safe:
  "ok w \<Longrightarrow> returns (ctrl_data_stage to_protocol wt a s buf dr w) (\<lambda>(buf', w'). ok w')"
  by (auto simp: ctrl_data_stage_def Let_def intro!: safe_bt_bind [OF socket_safe] ok_wait ok_host)

lemma ctrl_transfer_safe:
  "ok w \<Longrightarrow> returns (ctrl_transfer to_protocol wt a s buf dr w) (\<lambda>(b, buf', w'). ok w')"
  by (auto simp: ctrl_transfer_def Let_def
      intro!: safe_bt_bind [OF socket_safe] returns_bind [OF data_stage_safe] ok_wait)

lemma get_desc_safe:
  "ok w \<Longrightarrow> returns (get_descriptor to_protocol wt a t i buf w) (\<lambda>(b, buf', w'). ok w')"
  by (simp add: get_descriptor_def ctrl_transfer_safe)

lemma set_address_safe:
  "ok w \<Longrightarrow> returns (set_address to_protocol wt a b w) (\<lambda>(b, w'). ok w')"
  by (auto simp: set_address_def intro!: returns_bind [OF ctrl_transfer_safe])

lemma set_configuration_safe:
  "ok w \<Longrightarrow> returns (set_configuration to_protocol wt a b w) (\<lambda>(b, w'). ok w')"
  by (auto simp: set_configuration_def intro!: returns_bind [OF ctrl_transfer_safe])

lemma put_dev_ok: "ok w \<Longrightarrow> ok (put_dev f w)"
  by (simp add: put_dev_def ok_host)

lemma configure_safe: "ok w \<Longrightarrow> returns (enumerate_configure to_protocol wt buf w) ok"
  unfolding enumerate_configure_def Let_def
  by (auto intro!: returns_bind [OF get_desc_safe] returns_bind [OF set_configuration_safe]
      put_dev_ok ok_host ok_wait)

lemma enumerate_safe: "ok w \<Longrightarrow> returns (enumerate_device to_protocol wt w) ok"
  unfolding enumerate_device_def Let_def
  by (auto intro!: returns_bind [OF get_desc_safe] returns_bind [OF set_address_safe]
      configure_safe put_dev_ok ok_host ok_wait)

lemma run_trb_safe: "ok w \<Longrightarrow> returns (run_trb to_protocol wt trb w) ok"
  by (auto simp: run_trb_def Let_def intro!: safe_bt_bind [OF socket_safe] ok_host ok_wait)

lemma process_ring_safe:
  "ok w \<Longrightarrow> returns (process_transfer_ring to_protocol wt n w) (\<lambda>(out, w'). ok w')"
proof (induction n arbitrary: w)
  case 0
  then show ?case by (simp add: process_transfer_ring.simps)
next
  case (Suc n)
  show ?case
  proof (cases "ring_queue (m_transfer_ring (host_ctrl w))")
    case Nil
    with Suc.prems show ?thesis by (simp add: process_transfer_ring.simps ring_empty_def)
  next
    case (Cons t ts)
    with Suc show ?thesis
      by (auto simp: process_transfer_ring.simps [of to_protocol wt "Suc n"] ring_empty_def
          ring_dequeue_def intro!: returns_bind [OF run_trb_safe] ok_host)
  qed
qed

lemma main_round_safe:
  "ok w \<Longrightarrow> returns (host_main_round to_protocol wt n w) (\<lambda>(out, w'). ok w')"
  by (auto simp: host_main_round_def intro!: returns_bind [OF enumerate_safe] process_ring_safe ok_host)

end

section \<open>What comes up from the link\<close>

text \<open>Both controllers behind the protocol layer, over one safe link.\<close>

locale drd_socket = link_target to_link ok
  for to_link :: "('e world_scheme) b_transport" and ok :: "'e world_scheme \<Rightarrow> bool" +
  fixes wt :: "('e world_scheme) waiting"
  assumes ok_wait: "ok w \<Longrightarrow> ok (wt t w)"
    and ok_dev: "ok w \<Longrightarrow> ok (w\<lparr>dev_ctrl := dc\<rparr>)"
    and ok_host: "ok w \<Longrightarrow> ok (w\<lparr>host_ctrl := hc\<rparr>)"

sublocale drd_socket \<subseteq> dev: device_socket "dev_to_protocol to_link" wt ok
  by unfold_locales (auto intro: dev_socket_safe ok_wait ok_dev)

sublocale drd_socket \<subseteq> host: host_socket "host_to_protocol to_link" wt ok
  by unfold_locales (auto intro: host_socket_safe ok_wait ok_host)

context drd_socket begin

lemma upstream_safe: "safe_bt ok (upstream_b_transport to_link wt)"
  unfolding safe_bt_def
proof (intro allI impI)
  fix tr :: payload and d and w :: "'e world_scheme"
  assume wf: "payload_wf tr" and ok: "ok w"
  have wf': "payload_wf (mark_stall tr)" using wf by simp
  show "returns (upstream_b_transport to_link wt tr d w)
      (bt_post ok)"
    using wf wf' ok safe_btD [OF host.from_protocol_safe wf' ok, of d]
      safe_btD [OF dev.from_proto_safe wf' ok, of d]
    by (auto simp: upstream_b_transport_def link_b_transport_def handle_rx_cases
        forward_to_active_controller_def split: usb3_role.splits)
qed

end

end
