(* ===== verification/Link_Recorder.thy ===== *)
theory Link_Recorder imports Socket_Contracts begin

text \<open>
  A socket that records what is sent on it, in order, and answers OK: the specification device
  the properties about the packets of the controllers and of the protocol layer are stated with.
\<close>

record log_world = world + sent :: "payload list"

definition rec_link :: "log_world b_transport" where
  "rec_link tr delay w =
     Inr (tr\<lparr>response_status := TLM_OK_RESPONSE\<rparr>, delay, w\<lparr>sent := sent w @ [tr]\<rparr>)"

definition rec_world :: log_world where
  "rec_world = world.extend (drd_new\<lparr>sigs := drd_signals_new
     \<lparr>sig_host_enable := True, sig_dev_enable := True, sig_role := HOST\<rparr>\<rparr>) \<lparr> sent = [] \<rparr>"

lemma rec_world_sel [simp]:
  "sig_host_enable (sigs rec_world)" "sig_dev_enable (sigs rec_world)" "sent rec_world = []"
  "host_ctrl rec_world = host_controller_new" "dev_ctrl rec_world = device_controller_new"
  "protocol rec_world = \<lparr>m_seq_num = 0\<rparr>"
  by (simp_all add: rec_world_def world.extend_def drd_new_def)

section \<open>The protocol layer\<close>

text \<open>Sending a list of payloads one after the other.\<close>

fun send_all :: "log_world b_transport \<Rightarrow> payload list \<Rightarrow> log_world \<Rightarrow> log_world run" where
  "send_all bt [] w = Inr w"
| "send_all bt (p # ps) w = bindR (bt p 0 w) (\<lambda>(tr, d, w). send_all bt ps w)"

definition numbered :: "payload \<Rightarrow> bool" where
  "numbered p \<longleftrightarrow> (case extension p of Some e \<Rightarrow> uses_sequence (pkt_type e) | None \<Rightarrow> False)"

definition seq_of :: "payload \<Rightarrow> u32" where
  "seq_of p = (case extension p of Some e \<Rightarrow> seq_num e | None \<Rightarrow> 0)"

text \<open>One packet through \<open>route_tx\<close>: what leaves and how the counter moves.\<close>

lemma route_tx_rec:
  assumes "extension p = Some e"
  shows "\<exists>tr' p'. route_tx rec_link p d w =
      Inr (tr', d, w\<lparr>protocol := (protocol w)\<lparr>m_seq_num := m_seq_num (protocol w) +
            (if numbered p then 1 else 0)\<rparr>, sent := sent w @ [p']\<rparr>) \<and>
    numbered p' = numbered p \<and> (numbered p \<longrightarrow> seq_of p' = m_seq_num (protocol w))"
proof (cases "uses_sequence (pkt_type e)")
  case True
  with assms show ?thesis
    by (intro exI [of _ "p\<lparr>extension := Some (e\<lparr>seq_num := m_seq_num (protocol w)\<rparr>),
          response_status := TLM_OK_RESPONSE\<rparr>"]
        exI [of _ "p\<lparr>extension := Some (e\<lparr>seq_num := m_seq_num (protocol w)\<rparr>)\<rparr>"])
      (simp add: route_tx_ext rec_link_def numbered_def seq_of_def)
next
  case False
  with assms show ?thesis
    by (intro exI [of _ "p\<lparr>extension := Some e, response_status := TLM_OK_RESPONSE\<rparr>"]
        exI [of _ "p\<lparr>extension := Some e\<rparr>"])
      (simp add: route_tx_ext rec_link_def numbered_def)
qed

text \<open>C22. Packets of the numbered types leave with consecutive sequence numbers (wrapping at 32
bits), the others leave in their place without using one up.\<close>

theorem sequence_numbers_consecutive:
  "\<forall>p \<in> set ps. extension p \<noteq> None \<Longrightarrow>
   returns (send_all (route_tx rec_link) ps w) (\<lambda>w'. \<exists>out.
     sent w' = sent w @ out \<and> map numbered out = map numbered ps \<and>
     map seq_of (filter numbered out) =
       map (\<lambda>i. m_seq_num (protocol w) + of_nat i) [0..<length (filter numbered ps)])"
proof (induction ps arbitrary: w)
  case Nil
  then show ?case by simp
next
  case (Cons p ps)
  let ?s = "m_seq_num (protocol w)"
  from Cons.prems obtain e where "extension p = Some e" by auto
  from route_tx_rec [OF this, of 0 w] obtain tr' p' where
    r: "route_tx rec_link p 0 w =
      Inr (tr', 0, w\<lparr>protocol := (protocol w)\<lparr>m_seq_num := ?s + (if numbered p then 1 else 0)\<rparr>,
             sent := sent w @ [p']\<rparr>)"
    and p': "numbered p' = numbered p" "numbered p \<longrightarrow> seq_of p' = ?s"
    by blast
  let ?w = "w\<lparr>protocol := (protocol w)\<lparr>m_seq_num := ?s + (if numbered p then 1 else 0)\<rparr>,
    sent := sent w @ [p']\<rparr>"
  have "returns (send_all (route_tx rec_link) ps ?w) (\<lambda>w'. \<exists>out.
     sent w' = sent ?w @ out \<and> map numbered out = map numbered ps \<and>
     map seq_of (filter numbered out) =
       map (\<lambda>i. m_seq_num (protocol ?w) + of_nat i) [0..<length (filter numbered ps)])"
    using Cons.prems by (intro Cons.IH) simp
  moreover have "map (\<lambda>i. ?s + of_nat i) [0..<Suc n] = ?s # map (\<lambda>i. ?s + 1 + of_nat i) [0..<n]" for n
    by (simp add: upt_conv_Cons map_Suc_upt [symmetric] add_ac del: upt_Suc map_Suc_upt)
  ultimately show ?case
    using r p' by (auto elim!: returns_mono simp: Cons_eq_append_conv)
qed

text \<open>A packet to or from a bulk endpoint.\<close>

definition bulk_packet :: "usb3_pkt_type \<Rightarrow> u8 \<Rightarrow> u8 list \<Rightarrow> payload" where
  "bulk_packet t ep bs =
     make_payload TLM_WRITE_COMMAND bs (make_usb3_ext t 0 ep HOST_TO_DEVICE BULK)"

lemma sequence_numbers_consecutive_witness:
  "returns (send_all (route_tx rec_link)
      [bulk_packet BULK_OUT 2 [7], bulk_packet CTRL_DATA 0 [1], bulk_packet BULK_IN 1 []] rec_world)
    (\<lambda>w'. map seq_of (filter numbered (sent w')) = [0, 1])"
  by (rule returns_mono [OF sequence_numbers_consecutive])
    (auto simp: bulk_packet_def numbered_def)

section \<open>The host controller\<close>

text \<open>A wait that leaves the ring, the enable signal and the record alone.\<close>

definition ring_wait :: "log_world waiting \<Rightarrow> bool" where
  "ring_wait wt \<longleftrightarrow> (\<forall>t w. m_transfer_ring (host_ctrl (wt t w)) = m_transfer_ring (host_ctrl w) \<and>
     sig_host_enable (sigs (wt t w)) = sig_host_enable (sigs w) \<and> sent (wt t w) = sent w)"

lemma ring_waitD:
  assumes "ring_wait wt"
  shows "m_transfer_ring (host_ctrl (wt t w)) = m_transfer_ring (host_ctrl w)"
    "sig_host_enable (sigs (wt t w)) = sig_host_enable (sigs w)" "sent (wt t w) = sent w"
  using assms by (simp_all add: ring_wait_def)

lemma run_trb_rec:
  assumes "ring_wait wt"
  shows "returns (run_trb rec_link wt t w) (\<lambda>w'. sent w' = sent w @ [trb_to_payload t] \<and>
    m_transfer_ring (host_ctrl w') = m_transfer_ring (host_ctrl w) \<and>
    sig_host_enable (sigs w') = sig_host_enable (sigs w))"
  by (simp add: run_trb_def rec_link_def Let_def ring_waitD [OF assms])

text \<open>C20. With the host enabled, the ring is emptied: every queued TRB goes out exactly once, in
the order it was queued, and the thread then blocks on the completion event. The number of TRBs in
the ring is enough fuel.\<close>

theorem ring_runs_in_order:
  assumes "ring_wait wt"
  shows "sig_host_enable (sigs w) \<Longrightarrow> length (ring_queue (m_transfer_ring (host_ctrl w))) \<le> n \<Longrightarrow>
    returns (process_transfer_ring rec_link wt n w) (\<lambda>(out, w'). out = RingBlocked \<and>
      sent w' = sent w @ map trb_to_payload (ring_queue (m_transfer_ring (host_ctrl w))) \<and>
      ring_empty (m_transfer_ring (host_ctrl w')))"
proof (induction n arbitrary: w)
  case 0
  then show ?case by (simp add: process_transfer_ring.simps ring_empty_def)
next
  case (Suc n)
  show ?case
  proof (cases "ring_queue (m_transfer_ring (host_ctrl w))")
    case Nil
    with Suc.prems show ?thesis by (simp add: process_transfer_ring.simps ring_empty_def)
  next
    case (Cons t ts)
    let ?w = "w\<lparr>host_ctrl := (host_ctrl w)
      \<lparr>m_transfer_ring := (m_transfer_ring (host_ctrl w))\<lparr>ring_queue := ts\<rparr>\<rparr>\<rparr>"
    have "process_transfer_ring rec_link wt (Suc n) w =
        bindR (run_trb rec_link wt t ?w) (process_transfer_ring rec_link wt n)"
      using Suc.prems Cons
      by (simp add: process_transfer_ring.simps [of rec_link wt "Suc n"] ring_empty_def ring_dequeue_def)
    moreover have "returns (bindR (run_trb rec_link wt t ?w) (process_transfer_ring rec_link wt n))
      (\<lambda>(out, w'). out = RingBlocked \<and>
        sent w' = sent w @ map trb_to_payload (t # ts) \<and>
        ring_empty (m_transfer_ring (host_ctrl w')))"
      by (rule returns_bind [OF run_trb_rec [OF assms]], rule returns_mono [OF Suc.IH])
        (use Suc.prems Cons in auto)
    ultimately show ?thesis using Cons by simp
  qed
qed

lemma ring_runs_in_order_witness:
  "returns (process_transfer_ring rec_link (\<lambda>t w. w) 2
      (rec_world\<lparr>host_ctrl := host_controller_new\<lparr>m_transfer_ring := \<lparr>ring_queue =
         [default_trb\<lparr>trb_endpoint := 2\<rparr>, default_trb\<lparr>trb_endpoint := 1\<rparr>]\<rparr>\<rparr>\<rparr>))
    (\<lambda>(out, w'). out = RingBlocked \<and> sent w' =
      [trb_to_payload (default_trb\<lparr>trb_endpoint := 2\<rparr>),
       trb_to_payload (default_trb\<lparr>trb_endpoint := 1\<rparr>)])"
  by (rule returns_mono [OF ring_runs_in_order]) (auto simp: ring_wait_def)

section \<open>The device controller\<close>

lemma send_rec:
  "send_to_protocol rec_link t ep dr bs et w =
     Inr (w\<lparr>sent := sent w @ [dev_packet (dev_ctrl w) t ep dr bs et]\<rparr>)"
  by (simp add: send_to_protocol_def rec_link_def)

text \<open>The SETUP payload a host sends with the request \<open>s\<close>.\<close>

definition is_setup :: "payload \<Rightarrow> usb3_setup_pkt \<Rightarrow> bool" where
  "is_setup tr s \<longleftrightarrow> (\<exists>e. extension tr = Some e \<and> pkt_type e = SETUP \<and> setup_pkt e = s)"

lemma from_proto_setup:
  "sig_dev_enable (sigs w) \<Longrightarrow> is_setup tr s \<Longrightarrow>
   from_proto_b_transport tp wt tr d w = bindR (handle_setup tp wt s tr w) (\<lambda>(tr, w). Inr (tr, d, w))"
  by (auto simp: from_proto_b_transport_def is_setup_def)

lemma from_proto_get_descriptor_rec:
  assumes "sig_dev_enable (sigs w)" and "is_setup tr s" and "bRequest s = USB_REQ_GET_DESCRIPTOR"
  shows "from_proto_b_transport rec_link wt tr d w = (case get_descriptor_data (dev_descs (dev_ctrl w)) s of
      Some bs \<Rightarrow> Inr (tr\<lparr>response_status := TLM_OK_RESPONSE\<rparr>, d,
        w\<lparr>sent := sent w @ [dev_packet (dev_ctrl w) CTRL_DATA 0 DEVICE_TO_HOST bs CONTROL]\<rparr>)
    | None \<Rightarrow> Inr (tr\<lparr>response_status := TLM_GENERIC_ERROR_RESPONSE\<rparr>, d,
        w\<lparr>sent := sent w @ [dev_packet (dev_ctrl w) TP_STALL 0 DEVICE_TO_HOST (replicate 4 0) CONTROL]\<rparr>))"
  using assms
  by (simp add: from_proto_setup handle_setup_cases handle_get_descriptor_def send_rec stall_endpoint_def
      split: option.splits)

text \<open>An OUT packet, a pass of the loopback thread, and an IN request.\<close>

definition device_loopback :: "log_world waiting \<Rightarrow> u8 list \<Rightarrow> log_world \<Rightarrow> log_world run" where
  "device_loopback wt bs w =
     bindR (from_proto_b_transport rec_link wt (bulk_packet BULK_OUT 2 bs) 0 w) (\<lambda>(tr, d, w).
     bindR (loopback_body rec_link w) (\<lambda>(w, pulsing).
     bindR (from_proto_b_transport rec_link wt (bulk_packet BULK_IN 1 []) 0 w) (\<lambda>(tr, d, w).
     Inr w)))"

text \<open>C25. A configured device echoes: an OUT packet, one pass of the loopback thread and an IN
request make it announce data (ERDY) and send back exactly the bytes it received, and leave both
endpoint FIFOs empty.\<close>

theorem device_loopback_echoes:
  assumes "sig_dev_enable (sigs w)" and "m_configured (dev_ctrl w)"
  shows "returns (device_loopback wt bs w) (\<lambda>w'.
    sent w' = sent w @ [dev_packet (dev_ctrl w) TP_ERDY 1 DEVICE_TO_HOST [1, 0, 0, 0] CONTROL,
      dev_packet (dev_ctrl w) BULK_IN 1 DEVICE_TO_HOST bs BULK] \<and>
    \<not> has_data (m_ep1_in (dev_ctrl w')) \<and> \<not> has_data (m_ep2_out (dev_ctrl w')))"
  using assms
  by (simp add: device_loopback_def from_proto_b_transport_def bulk_packet_def handle_bulk_out_def
      loopback_body_def fifo_read_def fifo_write_def send_rec handle_bulk_in_def send_bulk_in_def
      dev_packet_def)

lemma device_loopback_echoes_witness:
  "returns (device_loopback (\<lambda>t w. w) [1, 2, 3]
      (rec_world\<lparr>dev_ctrl := device_controller_new\<lparr>m_configured := True\<rparr>\<rparr>))
    (\<lambda>w'. \<exists>p. last (sent w') = p \<and> read_data p = Inr [1, 2, 3])"
  by (rule returns_mono [OF device_loopback_echoes]) auto

end
