(* ===== verification/Peer_Testbench.thy ===== *)
theory Peer_Testbench imports Drd_Controller begin

text \<open>
  \<open>src/sc_main.cpp\<close>: the peer device the testbench connects to the DRD, the state of the whole
  simulation, and the register accesses and checks \<open>run_scenarios\<close> makes.
\<close>

section \<open>The peer\<close>

record peer_device =
  peer_assigned_addr :: u8
  peer_configured :: bool
  m_loopback_buf :: "u8 list"

definition peer_device_new :: peer_device where
  "peer_device_new = \<lparr> peer_assigned_addr = 0, peer_configured = False, m_loopback_buf = [] \<rparr>"

text \<open>The simulated system: the DRD and its peer.\<close>

record tb_world = world + peer :: peer_device

definition tb_new :: tb_world where
  "tb_new = world.extend drd_new \<lparr> peer = peer_device_new \<rparr>"

definition make_dev_desc :: "u8 list" where
  "make_dev_desc = dev_desc_to_bytes default_device_descriptor"

definition make_cfg_desc :: "u8 list" where
  "make_cfg_desc =
     [0x09, 0x02, 0x31, 0x00, 0x01, 0x01, 0x00, 0xC0, 0x00,
      0x09, 0x04, 0x00, 0x00, 0x02, 0xFF, 0x00, 0x00, 0x00,
      0x07, 0x05, 0x81, 0x02, 0x00, 0x04, 0x00,
      0x06, 0x30, 0x00, 0x00, 0x00, 0x00,
      0x07, 0x05, 0x02, 0x02, 0x00, 0x04, 0x00,
      0x06, 0x30, 0x00, 0x00, 0x00, 0x00]"

definition peer_bos :: "u8 list" where
  "peer_bos = [0x05, 0x0F, 0x16, 0x00, 0x01, 0x0A, 0x10, 0x03, 0x00, 0x0E, 0x00, 0x01, 0x0A,
     0xFF, 0x07]"

definition send_ctrl_data :: "tb_world b_transport \<Rightarrow> u8 list \<Rightarrow> tb_world \<Rightarrow> tb_world run" where
  "send_ctrl_data to_drd bytes w =
     (if bytes = [] then Inr w
      else bindR (to_drd (make_payload TLM_WRITE_COMMAND bytes
                   (default_pkt_ext\<lparr>pkt_type := CTRL_DATA, dev_addr := peer_assigned_addr (peer w),
                      endpoint := 0, direction := DEVICE_TO_HOST\<rparr>)) 0 w)
             (\<lambda>(tr, delay, w). Inr w))"

definition peer_send_bulk_in :: "tb_world b_transport \<Rightarrow> u8 list \<Rightarrow> u8 \<Rightarrow> tb_world \<Rightarrow>
    tb_world run" where
  "peer_send_bulk_in to_drd bytes ep w =
     bindR (to_drd (make_payload TLM_WRITE_COMMAND bytes
              (default_pkt_ext\<lparr>pkt_type := BULK_IN, dev_addr := peer_assigned_addr (peer w),
                 endpoint := ep, direction := DEVICE_TO_HOST, ep_type := BULK\<rparr>)) 0 w)
       (\<lambda>(tr, delay, w). Inr w)"

definition peer_descriptor :: "usb3_setup_pkt \<Rightarrow> u8 list" where
  "peer_descriptor setup =
     (let dtype = hi8 (wValue setup);
          resp = (if dtype = USB_DESC_DEVICE then make_dev_desc
                  else if dtype = USB_DESC_CONFIGURATION then make_cfg_desc
                  else if dtype = USB_DESC_BOS then peer_bos
                  else [])
      in cap_length (wLength setup) resp)"

definition peer_handle_setup :: "tb_world b_transport \<Rightarrow> usb3_setup_pkt \<Rightarrow> payload \<Rightarrow> tb_world \<Rightarrow>
    (payload \<times> tb_world) run" where
  "peer_handle_setup to_drd setup tr w =
     bindR (if bRequest setup = USB_REQ_GET_DESCRIPTOR then
              send_ctrl_data to_drd (peer_descriptor setup) w
            else if bRequest setup = USB_REQ_SET_ADDRESS then
              Inr (w\<lparr>peer := (peer w)\<lparr>peer_assigned_addr := ucast (wValue setup AND 0x7F)\<rparr>\<rparr>)
            else if bRequest setup = USB_REQ_SET_CONFIGURATION then
              Inr (w\<lparr>peer := (peer w)\<lparr>peer_configured := True\<rparr>\<rparr>)
            else Inr w)
       (\<lambda>w. Inr (tr\<lparr>response_status := TLM_OK_RESPONSE\<rparr>, w))"

definition peer_b_transport :: "tb_world b_transport \<Rightarrow> tb_world b_transport" where
  "peer_b_transport to_drd tr delay w = (case extension tr of
      None \<Rightarrow> Inr (tr\<lparr>response_status := TLM_GENERIC_ERROR_RESPONSE\<rparr>, delay, w)
    | Some ext \<Rightarrow>
        (case pkt_type ext of
            SETUP \<Rightarrow> bindR (peer_handle_setup to_drd (setup_pkt ext) tr w)
              (\<lambda>(tr, w). Inr (tr, delay, w))
          | CTRL_STATUS \<Rightarrow> Inr (tr\<lparr>response_status := TLM_OK_RESPONSE\<rparr>, delay, w)
          | BULK_OUT \<Rightarrow> bindR (read_data tr) (\<lambda>bytes.
              Inr (tr\<lparr>response_status := TLM_OK_RESPONSE\<rparr>, delay,
                   w\<lparr>peer := (peer w)\<lparr>m_loopback_buf := bytes\<rparr>\<rparr>))
          | BULK_IN \<Rightarrow>
              bindR (if m_loopback_buf (peer w) \<noteq> [] then
                       bindR (peer_send_bulk_in to_drd (m_loopback_buf (peer w)) (endpoint ext) w)
                         (\<lambda>w. Inr (w\<lparr>peer := (peer w)\<lparr>m_loopback_buf := []\<rparr>\<rparr>))
                     else Inr w)
                (\<lambda>w. Inr (tr\<lparr>response_status := TLM_OK_RESPONSE\<rparr>, delay, w))
          | _ \<Rightarrow> Inr (tr\<lparr>response_status := TLM_OK_RESPONSE\<rparr>, delay, w)))"

section \<open>The closed system\<close>

text \<open>
  \<open>protocol.to_link\<close> is bound to the peer and the peer's \<open>to_drd\<close> to \<open>upstream\<close>, so a call may
  come back into the DRD, which may send again, and so on. \<open>tb_link n\<close> is that binding for nests
  of at most \<open>n\<close> calls of the peer; deeper nests are \<open>CallDepth\<close>.
\<close>

fun tb_link :: "tb_world waiting \<Rightarrow> nat \<Rightarrow> tb_world b_transport" where
  "tb_link wt 0 tr delay w = Inl CallDepth"
| "tb_link wt (Suc n) tr delay w =
     peer_b_transport (upstream_b_transport (tb_link wt n) wt) tr delay w"

declare tb_link.simps [simp del]

abbreviation tb_host_socket :: "tb_world waiting \<Rightarrow> nat \<Rightarrow> tb_world b_transport" where
  "tb_host_socket wt n \<equiv> host_to_protocol (tb_link wt n)"

abbreviation tb_upstream :: "tb_world waiting \<Rightarrow> nat \<Rightarrow> tb_world b_transport" where
  "tb_upstream wt n \<equiv> upstream_b_transport (tb_link wt n) wt"

lemma tb_link_Suc: "tb_link wt (Suc n) = peer_b_transport (tb_upstream wt n)"
  by (simp add: fun_eq_iff tb_link.simps)

end
