(* ===== verification/Peer_Link.thy ===== *)
theory Peer_Link imports Peer_Testbench Socket_Contracts begin

text \<open>
  The closed system of DRD and peer: how deep its socket calls nest, and that the peer's link
  meets the contract of \<open>Socket_Contracts\<close>, so that every operation of both controllers over
  this link returns.
\<close>

section \<open>The nest of calls is at most two deep\<close>

text \<open>
  A call of the peer comes back into the DRD once. It goes out a second time only when it is a
  BULK_IN that finds data on endpoint 1, and reading that data empties the FIFO first.
\<close>

definition ep1_fill :: "tb_world \<Rightarrow> bool" where
  "ep1_fill w \<longleftrightarrow> has_data (m_ep1_in (dev_ctrl w))"

text \<open>A call upwards keeps endpoint 1 empty when it was empty.\<close>

definition up_ok :: "bool \<Rightarrow> tb_world \<Rightarrow> bool" where
  "up_ok b w \<longleftrightarrow> (ep1_fill w \<longrightarrow> b)"

lemma up_ok_frame [simp]:
  "up_ok b (w\<lparr>protocol := p\<rparr>) = up_ok b w"
  "up_ok b (w\<lparr>host_ctrl := h\<rparr>) = up_ok b w"
  "up_ok b (w\<lparr>peer := q\<rparr>) = up_ok b w"
  by (simp_all add: up_ok_def ep1_fill_def)

text \<open>
  What the peer sends upwards is a CTRL_DATA or BULK_IN packet. It returns over any link that is
  safe while endpoint 1 is empty, or over no link at all when endpoint 1 is empty already.
\<close>

lemma upstream_from_peer:
  assumes wf: "payload_wf tr" and e: "extension tr = Some e"
    and t: "pkt_type e = CTRL_DATA \<or> pkt_type e = BULK_IN"
    and safe: "ep1_fill w \<Longrightarrow> safe_bt (up_ok False) L" and ok: "up_ok b w"
  shows "returns (upstream_b_transport L wt tr d w) (bt_post (up_ok b))"
proof -
  have na: "\<not> absorbed (pkt_type e)" and ms: "mark_stall tr = tr"
    using t e by (auto simp: absorbed_def mark_stall_def)
  obtain bs where bs: "read_data tr = Inr bs" using read_data_wf [OF wf] by blast
  have host: "returns (from_protocol_b_transport tr d w) (bt_post (up_ok b))"
    using wf bs ok by (auto simp: from_protocol_b_transport_def)
  have dev: "returns (from_proto_b_transport (dev_to_protocol L) wt tr d w) (bt_post (up_ok b))"
  proof (cases "sig_dev_enable (sigs w) \<and> pkt_type e = BULK_IN \<and> ep1_fill w")
    case False
    with t e wf bs ok show ?thesis
      by (auto simp: from_proto_b_transport_def handle_bulk_out_def handle_bulk_in_def
          fifo_read_def ep1_fill_def up_ok_def)
  next
    case True
    have lt: "link_target L (up_ok False)"
      using safe True by unfold_locales simp_all
    have "returns (send_bulk_in (dev_to_protocol L) x 1
        (w\<lparr>dev_ctrl := (dev_ctrl w)\<lparr>m_ep1_in := f\<lparr>fifo_buffer := [], has_data := False\<rparr>\<rparr>\<rparr>)) (up_ok False)" for x f
      unfolding send_bulk_in_def send_to_protocol_def
      by (rule safe_bt_bind [OF link_target.dev_socket_safe [OF lt]])
        (simp_all add: up_ok_def ep1_fill_def)
    with True e wf ok show ?thesis
      by (auto simp: from_proto_b_transport_def handle_bulk_in_def fifo_read_def ep1_fill_def
          up_ok_def intro!: returns_bind)
  qed
  show ?thesis
    using host dev wf ok e na ms
    by (auto simp: upstream_b_transport_def link_b_transport_def handle_rx_cases
        forward_to_active_controller_def split: usb3_role.splits)
qed

lemma peer_safe:
  assumes L: "\<And>w. up_ok b w \<Longrightarrow> ep1_fill w \<Longrightarrow> safe_bt (up_ok False) L"
  shows "safe_bt (up_ok b) (peer_b_transport (upstream_b_transport L wt))"
  unfolding safe_bt_def
proof (intro allI impI)
  fix tr :: payload and d and w :: tb_world
  assume wf: "payload_wf tr" and ok: "up_ok b w"
  obtain bs where bs: "read_data tr = Inr bs" using read_data_wf [OF wf] by blast
  note up = upstream_from_peer [OF payload_wf_make _ _ L ok]
  have ctrl: "returns (send_ctrl_data (upstream_b_transport L wt) x w) (up_ok b)" for x
    using ok by (auto simp: send_ctrl_data_def ok intro!: returns_bind [OF up])
  have bulk: "returns (peer_send_bulk_in (upstream_b_transport L wt) x ep w) (up_ok b)" for x ep
    using ok by (auto simp: peer_send_bulk_in_def ok intro!: returns_bind [OF up])
  have stp: "returns (peer_handle_setup (upstream_b_transport L wt) s tr w)
      (\<lambda>(tr', w'). payload_wf tr' \<and> up_ok b w')" for s
    using wf ok by (auto simp: peer_handle_setup_def intro!: returns_bind [OF ctrl])
  show "returns (peer_b_transport (upstream_b_transport L wt) tr d w) (bt_post (up_ok b))"
    using wf ok bs by (auto simp: peer_b_transport_def returns_bindR split: option.splits usb3_pkt_type.splits
        intro!: returns_mono [OF stp] returns_mono [OF bulk])
qed

lemma tb_link_safe_empty: "safe_bt (up_ok False) (tb_link wt (Suc n))"
proof -
  have "safe_bt (up_ok False) (peer_b_transport (upstream_b_transport (tb_link wt n) wt))"
    by (rule peer_safe) (simp add: up_ok_def)
  then show ?thesis by (simp add: tb_link_Suc)
qed

lemma tb_link_safe: "safe_bt (up_ok b) (tb_link wt (Suc (Suc n)))"
proof -
  have "safe_bt (up_ok b) (peer_b_transport (upstream_b_transport (tb_link wt (Suc n)) wt))"
    by (rule peer_safe) (rule tb_link_safe_empty)
  then show ?thesis by (simp add: tb_link_Suc)
qed

section \<open>The peer's link meets the contract\<close>

lemma tb_link_safe_True: "safe_bt (\<lambda>w. True) (tb_link wt (Suc (Suc n)))"
proof -
  have "up_ok True = (\<lambda>w. True)" by (simp add: fun_eq_iff up_ok_def)
  then show ?thesis using tb_link_safe [of True wt n] by simp
qed

interpretation tb: drd_socket "tb_link wt (Suc (Suc n))" "\<lambda>w. True" wt for wt n
  by unfold_locales (simp_all add: tb_link_safe_True)

section \<open>The depth bound does not show\<close>

text \<open>A socket that returns whenever another does, with the same result.\<close>

definition le_bt :: "'w b_transport \<Rightarrow> 'w b_transport \<Rightarrow> bool" where
  "le_bt f g \<longleftrightarrow> (\<forall>tr d w r. f tr d w = Inr r \<longrightarrow> g tr d w = Inr r)"

lemma le_btD: "le_bt f g \<Longrightarrow> f tr d w = Inr r \<Longrightarrow> g tr d w = Inr r"
  unfolding le_bt_def by blast

lemma le_btI: "(\<And>tr d w r. f tr d w = Inr r \<Longrightarrow> g tr d w = Inr r) \<Longrightarrow> le_bt f g"
  by (simp add: le_bt_def)

lemma le_bt_route: "le_bt f g \<Longrightarrow> le_bt (route_tx f) (route_tx g)"
  by (rule le_btI)
    (auto simp: route_tx_def bindR_eq_Inr Let_def split: option.splits if_splits prod.splits
      dest: le_btD)

lemma le_bt_send:
  "le_bt f g \<Longrightarrow> send_to_protocol f t ep dr bs et w = Inr w' \<Longrightarrow>
   send_to_protocol g t ep dr bs et w = Inr w'"
  by (auto simp: send_to_protocol_def bindR_eq_Inr dest: le_btD)

lemma le_bt_from_proto: "le_bt f g \<Longrightarrow> le_bt (from_proto_b_transport f wt) (from_proto_b_transport g wt)"
  by (rule le_btI)
    (auto simp: from_proto_b_transport_def handle_setup_def handle_get_descriptor_def
      stall_endpoint_def handle_bulk_in_def send_bulk_in_def bindR_eq_Inr
      split: option.splits if_splits usb3_pkt_type.splits dest: le_bt_send)

lemma le_bt_upstream: "le_bt f g \<Longrightarrow> le_bt (upstream_b_transport f wt) (upstream_b_transport g wt)"
  using le_bt_from_proto [OF le_bt_route, of f g wt]
  by (auto simp: le_bt_def upstream_b_transport_def link_b_transport_def handle_rx_cases
      dev_to_protocol_def tx_eq_route forward_to_active_controller_def
      split: usb3_role.splits if_splits)

lemma le_bt_peer: "le_bt f g \<Longrightarrow> le_bt (peer_b_transport f) (peer_b_transport g)"
  by (rule le_btI)
    (auto simp: peer_b_transport_def peer_handle_setup_def send_ctrl_data_def peer_send_bulk_in_def
      bindR_eq_Inr split: option.splits if_splits usb3_pkt_type.splits dest: le_btD)

lemma tb_link_mono: "le_bt (tb_link wt n) (tb_link wt (Suc n))"
proof (induction n)
  case 0
  show ?case by (simp add: le_bt_def tb_link.simps)
next
  case (Suc n)
  from le_bt_peer [OF le_bt_upstream [OF this]] show ?case by (simp add: tb_link_Suc)
qed

lemma tb_link_depth_add: "tb_link wt n tr d w = Inr r \<Longrightarrow> tb_link wt (n + k) tr d w = Inr r"
  by (induction k) (auto dest: le_btD [OF tb_link_mono])

end
