(* ===== verification/Drd_Registers.thy ===== *)
theory Drd_Registers imports Drd_Controller begin

text \<open>
  The register file as software sees it: 32-bit accesses over a little-endian buffer, what each
  register returns after a write, the write-one-to-clear interrupt status, and the status word.
\<close>

section \<open>Four bytes and a word\<close>

definition le32_bytes :: "u32 \<Rightarrow> u8 list" where
  "le32_bytes v = [ucast v, ucast (drop_bit 8 v), ucast (drop_bit 16 v), ucast (drop_bit 24 v)]"

definition le32 :: "u8 \<Rightarrow> u8 \<Rightarrow> u8 \<Rightarrow> u8 \<Rightarrow> u32" where
  "le32 b0 b1 b2 b3 =
     ucast b0 OR push_bit 8 (ucast b1) OR push_bit 16 (ucast b2) OR push_bit 24 (ucast b3)"

lemma bit_le32: "bit (le32 b0 b1 b2 b3) n \<longleftrightarrow>
    (if n < 8 then bit b0 n else if n < 16 then bit b1 (n - 8)
     else if n < 24 then bit b2 (n - 16) else n < 32 \<and> bit b3 (n - 24))"
  by (auto simp: le32_def bit_simps dest: bit_imp_le_length)

lemma le32_of_bytes [simp]:
  "le32 (ucast v) (ucast (drop_bit 8 v)) (ucast (drop_bit 16 v)) (ucast (drop_bit 24 v)) = v"
  by (rule bit_word_eqI) (auto simp: bit_le32 bit_simps)

lemma length_le32_bytes [simp]: "length (le32_bytes v) = 4"
  by (simp add: le32_bytes_def)

lemma wf_four:
  assumes "payload_wf tr" and "data_length tr \<ge> 4"
  obtains b0 b1 b2 b3 bs where "data_ptr tr = Some (b0 # b1 # b2 # b3 # bs)"
proof -
  from assms obtain b where b: "data_ptr tr = Some b" "length b \<ge> 4"
    by (auto simp: payload_wf_def split: option.splits)
  then obtain b0 b1 b2 b3 bs where "b = b0 # b1 # b2 # b3 # bs"
    by (auto simp: Suc_le_length_iff numeral_eq_Suc)
  with b that show thesis by blast
qed

lemma load32_bytes: "data_ptr tr = Some (le32_bytes v @ bs) \<Longrightarrow> load32 tr = Inr v"
  using le32_of_bytes [of v] by (simp add: load32_def le32_bytes_def le32_def)

lemma store32_bytes:
  "data_ptr tr = Some (b0 # b1 # b2 # b3 # bs) \<Longrightarrow>
   store32 v tr = Inr (tr\<lparr>data_ptr := Some (le32_bytes v @ bs)\<rparr>)"
  by (simp add: store32_def le32_bytes_def)

section \<open>Accesses\<close>

text \<open>The payload an initiator sends to access the register at \<open>a\<close> with a four-byte buffer.\<close>

definition reg_payload :: "tlm_command \<Rightarrow> u64 \<Rightarrow> u32 \<Rightarrow> payload" where
  "reg_payload c a v = tlm_generic_payload\<lparr>command := c, address := a,
     data_ptr := Some (le32_bytes v), data_length := 4\<rparr>"

definition aligned :: "u64 \<Rightarrow> u64" where
  "aligned a = a AND ucast (NOT 3 :: u32)"

definition reg_write :: "u64 \<Rightarrow> u32 \<Rightarrow> 'e world_scheme \<Rightarrow> 'e world_scheme run" where
  "reg_write a v w = bindR (cfg_b_transport (reg_payload TLM_WRITE_COMMAND a v) 0 w)
     (\<lambda>(tr, d, w). Inr w)"

definition reg_read :: "u64 \<Rightarrow> 'e world_scheme \<Rightarrow> u32 run" where
  "reg_read a w = bindR (cfg_b_transport (reg_payload TLM_READ_COMMAND a 0) 0 w)
     (\<lambda>(tr, d, w). load32 tr)"

lemma reg_write_eq: "reg_write a v w = Inr (cfg_write (aligned a) v w)"
  using load32_bytes [of "reg_payload TLM_WRITE_COMMAND a v" v "[]"]
  by (simp add: reg_write_def cfg_b_transport_def reg_payload_def tlm_generic_payload_def
      reg_addr_def aligned_def)

lemma reg_read_eq: "reg_read a w = Inr (cfg_read (aligned a) w)"
proof -
  let ?v = "cfg_read (aligned a) w" and ?p = "reg_payload TLM_READ_COMMAND a 0"
  have "store32 ?v ?p = Inr (?p\<lparr>data_ptr := Some (le32_bytes ?v @ [])\<rparr>)"
    by (rule store32_bytes) (simp add: reg_payload_def le32_bytes_def)
  then show ?thesis
    using load32_bytes [of "?p\<lparr>data_ptr := Some (le32_bytes ?v @ []),
        response_status := TLM_OK_RESPONSE\<rparr>" ?v "[]"]
    by (simp add: reg_read_def cfg_b_transport_def reg_addr_def aligned_def)
      (simp add: reg_payload_def tlm_generic_payload_def)
qed

lemma aligned_regs [simp]:
  "aligned REG_CTRL = REG_CTRL" "aligned REG_STATUS = REG_STATUS"
  "aligned REG_ROLE_CTRL = REG_ROLE_CTRL" "aligned REG_INTR_STATUS = REG_INTR_STATUS"
  "aligned REG_INTR_ENABLE = REG_INTR_ENABLE" "aligned REG_DEV_ADDR = REG_DEV_ADDR"
  "aligned REG_SPEED = REG_SPEED" "aligned 0x18 = 0x18"
  by (simp_all add: aligned_def reg_defs)

text \<open>Only the low 32 bits of the address, less the last two, select the register.\<close>

lemma bit_aligned: "bit (aligned a) n \<longleftrightarrow> 2 \<le> n \<and> n < 32 \<and> bit a n"
proof -
  have m: "(ucast (NOT 3 :: u32) :: u64) = push_bit 2 (mask 30)"
    by (simp add: mask_eq_exp_minus_1)
  show ?thesis
    unfolding aligned_def m bit_and_iff bit_push_bit_iff bit_mask_iff
    by (auto dest: bit_imp_le_length)
qed

lemma aligned_alias: "take_bit 30 (drop_bit 2 a) = take_bit 30 (drop_bit 2 b) \<Longrightarrow> aligned a = aligned b"
proof (rule bit_word_eqI)
  fix n
  assume eq: "take_bit 30 (drop_bit 2 a) = take_bit 30 (drop_bit 2 b)"
  have "bit (aligned x) n \<longleftrightarrow> 2 \<le> n \<and> bit (take_bit 30 (drop_bit 2 x)) (n - 2)" for x
    using le_Suc_ex [of 2 n] by (cases "2 \<le> n") (auto simp: bit_aligned bit_simps)
  then show "bit (aligned a) n \<longleftrightarrow> bit (aligned b) n" using eq by simp
qed

text \<open>Every access with a well-formed payload returns.\<close>

lemma cfg_returns:
  assumes "payload_wf tr"
  shows "returns (cfg_b_transport tr d w) (\<lambda>(tr', d', w').
    (data_length tr < 4 \<longrightarrow> response_status tr' = TLM_GENERIC_ERROR_RESPONSE \<and> d' = d \<and> w' = w) \<and>
    (data_length tr \<ge> 4 \<longrightarrow> response_status tr' = TLM_OK_RESPONSE \<and> d' = d + 10))"
proof (cases "data_length tr < 4")
  case True
  then show ?thesis by (simp add: cfg_b_transport_def)
next
  case False
  with assms obtain b0 b1 b2 b3 bs where "data_ptr tr = Some (b0 # b1 # b2 # b3 # bs)"
    using wf_four by (metis not_less)
  with False show ?thesis
    by (simp add: cfg_b_transport_def store32_bytes load32_def)
qed

section \<open>The status word\<close>

definition status_role :: "u32 \<Rightarrow> u32" where "status_role s = drop_bit 4 s AND 0x03"
definition status_speed :: "u32 \<Rightarrow> u32" where "status_speed s = drop_bit 8 s AND 0x07"

lemma status_fields:
  "status_role (build_status_reg s) = ucast (role_val (sig_role s))"
  "status_speed (build_status_reg s) = ucast (speed_val SUPER_SPEED)"
  "bit (build_status_reg s) 16"
  "bit (build_status_reg s) 17 \<longleftrightarrow> sig_configured s"
  by (cases "sig_role s"; simp add: build_status_reg_def status_role_def status_speed_def Let_def bit_simps)+

section \<open>Interrupts\<close>

lemma raise_irq_sel [simp]:
  "m_intr_status (raise_irq b d) = m_intr_status d OR b"
  "m_intr_enable (raise_irq b d) = m_intr_enable d"
  "irq (raise_irq b d) \<longleftrightarrow> irq d \<or> (m_intr_status d OR b) AND m_intr_enable d \<noteq> 0"
  "host_enable (raise_irq b d) = host_enable d"
  "dev_enable (raise_irq b d) = dev_enable d"
  "cc_state_int (raise_irq b d) = cc_state_int d"
  "vbus_int (raise_irq b d) = vbus_int d"
  "length (m_regs (raise_irq b d)) = length (m_regs d)"
  by (simp_all add: raise_irq_def Let_def)

lemma collector_sel [simp]:
  "host_enable (interrupt_collector s d) = host_enable d"
  "dev_enable (interrupt_collector s d) = dev_enable d"
  "m_intr_enable (interrupt_collector s d) = m_intr_enable d"
  "cc_state_int (interrupt_collector s d) = cc_state_int d"
  "vbus_int (interrupt_collector s d) = vbus_int d"
  "length (m_regs (interrupt_collector s d)) = length (m_regs d)"
  by (simp_all add: interrupt_collector_def Let_def)

lemma collector_status:
  "m_intr_status (interrupt_collector s d) = m_intr_status d
     OR (if sig_enum_done s then DRD_INTR_ENUM_DONE else 0)
     OR (if sig_xfer_done s then DRD_INTR_XFER_DONE else 0)
     OR (if sig_bulk_irq s then DRD_INTR_BULK_IRQ else 0)"
  by (simp add: interrupt_collector_def Let_def or.assoc)

lemma cfg_write_w1c:
  "drd (cfg_write REG_INTR_STATUS v w) =
     (let st = m_intr_status (drd w) AND NOT v in
      (drd w)\<lparr>m_intr_status := st, irq := irq (drd w) \<and> st \<noteq> 0\<rparr>)"
  by (auto simp: cfg_write_def Let_def reg_defs)

end
