(* ===== verification/Call_Invariants.thy ===== *)
theory Call_Invariants imports Peer_Link Drd_Registers begin

text \<open>
  What a socket call can do to the state of the DRD: it never touches the role manager, the
  register block or the signals, and it changes the device controller only by the updates of
  \<open>dev_step\<close>. The locale \<open>call_invariant\<close> turns a predicate closed under those updates into an
  invariant of every call, from either controller and from the peer; \<open>thread_invariant\<close> adds the
  updates of \<open>loop_step\<close>, and with them the loopback thread.
\<close>

section \<open>Partial correctness\<close>

definition after_run :: "'a run \<Rightarrow> ('a \<Rightarrow> bool) \<Rightarrow> bool" where
  "after_run m P \<longleftrightarrow> (case m of Inl _ \<Rightarrow> True | Inr x \<Rightarrow> P x)"

lemma after_run_simps [simp, run_simps]: "after_run (Inl e) P" "after_run (Inr x) P \<longleftrightarrow> P x"
  by (simp_all add: after_run_def)

lemma after_runD: "after_run m P \<Longrightarrow> m = Inr x \<Longrightarrow> P x"
  by simp

lemma after_bind:
  "after_run m P \<Longrightarrow> (\<And>x. P x \<Longrightarrow> after_run (f x) Q) \<Longrightarrow> after_run (bindR m f) Q"
  by (cases m) auto

lemma after_bind_any: "(\<And>x. after_run (f x) Q) \<Longrightarrow> after_run (bindR m f) Q"
  by (cases m) auto

definition keeps_bt :: "('w \<Rightarrow> bool) \<Rightarrow> 'w b_transport \<Rightarrow> bool" where
  "keeps_bt I bt \<longleftrightarrow> (\<forall>tr d w. I w \<longrightarrow> after_run (bt tr d w) (\<lambda>r. I (snd (snd r))))"

lemma keeps_btI:
  "(\<And>tr d w. I w \<Longrightarrow> after_run (bt tr d w) (\<lambda>r. I (snd (snd r)))) \<Longrightarrow> keeps_bt I bt"
  by (simp add: keeps_bt_def)

lemma keeps_btD: "keeps_bt I bt \<Longrightarrow> I w \<Longrightarrow> after_run (bt tr d w) (\<lambda>r. I (snd (snd r)))"
  by (simp add: keeps_bt_def)

lemma keeps_bt_Inr: "keeps_bt I bt \<Longrightarrow> I w \<Longrightarrow> bt tr d w = Inr (tr', d', w') \<Longrightarrow> I w'"
  using after_runD [OF keeps_btD] by fastforce

section \<open>The updates of the device controller\<close>

text \<open>What a call may do to it, and what the loopback thread does.\<close>

inductive dev_step :: "device_controller \<Rightarrow> device_controller \<Rightarrow> bool" where
  ds_address: "dev_step dc (dc\<lparr>m_assigned_addr := ucast ((v :: u16) AND 0x7F)\<rparr>)"
| ds_configure: "dev_step dc (dc\<lparr>m_configured := True, configured := True\<rparr>)"
| ds_out: "dev_step dc (dc\<lparr>m_ep2_out := fifo_write bs (m_ep2_out dc), m_out_ep_event := True\<rparr>)"
| ds_in: "fifo_read (m_ep1_in dc) = Some (bs, f) \<Longrightarrow> dev_step dc (dc\<lparr>m_ep1_in := f\<rparr>)"

inductive loop_step :: "device_controller \<Rightarrow> device_controller \<Rightarrow> bool" where
  ls_copy: "fifo_read (m_ep2_out dc) = Some (bs, f) \<Longrightarrow>
    loop_step dc (dc\<lparr>m_ep2_out := f, m_ep1_in := fifo_write bs (m_ep1_in dc)\<rparr>)"
| ls_irq: "loop_step dc (dc\<lparr>bulk_irq := b\<rparr>)"

locale call_invariant =
  fixes I :: "tb_world \<Rightarrow> bool" and wt :: "tb_world waiting"
  assumes inv_protocol: "I w \<Longrightarrow> I (w\<lparr>protocol := p\<rparr>)"
    and inv_resp: "I w \<Longrightarrow>
      I (w\<lparr>host_ctrl := (host_ctrl w)\<lparr>m_resp_data := bytes, m_resp_valid := True\<rparr>\<rparr>)"
    and inv_peer: "I w \<Longrightarrow> I (w\<lparr>peer := q\<rparr>)"
    and inv_wait: "I w \<Longrightarrow> I (wt t w)"
    and inv_dev: "I w \<Longrightarrow> dev_step (dev_ctrl w) dc \<Longrightarrow> I (w\<lparr>dev_ctrl := dc\<rparr>)"
begin

lemma route_tx_keeps: "keeps_bt I bt \<Longrightarrow> keeps_bt I (route_tx bt)"
proof (rule keeps_btI)
  fix tr :: payload and d :: sc_time and w :: tb_world
  assume k: "keeps_bt I bt" and w: "I w"
  show "after_run (route_tx bt tr d w) (\<lambda>r. I (snd (snd r)))"
  proof (cases "extension tr")
    case None
    then show ?thesis
      by (auto simp: route_tx_def Let_def intro!: after_bind [OF keeps_btD [OF k w]])
  next
    case (Some e)
    then show ?thesis
      by (auto simp: route_tx_ext intro!: keeps_btD [OF k] inv_protocol w)
  qed
qed

lemma dev_send_keeps:
  "keeps_bt I bt \<Longrightarrow> I w \<Longrightarrow> after_run (send_to_protocol bt t ep dr bs et w) I"
  by (auto simp: send_to_protocol_def intro: after_bind [OF keeps_btD])

lemma stall_keeps: "keeps_bt I bt \<Longrightarrow> I w \<Longrightarrow> after_run (stall_endpoint bt ep w) I"
  by (simp add: stall_endpoint_def dev_send_keeps)

lemma setup_keeps:
  "keeps_bt I bt \<Longrightarrow> I w \<Longrightarrow> after_run (handle_setup bt wt s tr w) (\<lambda>r. I (snd r))"
  by (auto simp: handle_setup_def handle_get_descriptor_def handle_set_address_def
      handle_set_configuration_def split: option.splits
      intro!: after_bind [OF dev_send_keeps] after_bind [OF stall_keeps] inv_wait
        inv_dev ds_address ds_configure)

lemma bulk_out_keeps: "I w \<Longrightarrow> after_run (handle_bulk_out tr w) (\<lambda>r. I (snd r))"
  by (auto simp: handle_bulk_out_def intro!: after_bind_any inv_dev ds_out)

lemma bulk_in_keeps: "keeps_bt I bt \<Longrightarrow> I w \<Longrightarrow> after_run (handle_bulk_in bt w) I"
  by (auto simp: handle_bulk_in_def send_bulk_in_def split: option.splits
      intro!: dev_send_keeps inv_dev ds_in)

lemma from_proto_keeps: "keeps_bt I bt \<Longrightarrow> keeps_bt I (from_proto_b_transport bt wt)"
  by (rule keeps_btI)
    (auto simp: from_proto_b_transport_def split: option.splits usb3_pkt_type.splits
      intro!: after_bind [OF setup_keeps] after_bind [OF bulk_out_keeps]
        after_bind [OF bulk_in_keeps] after_bind [OF dev_send_keeps])

lemma from_protocol_keeps: "keeps_bt I from_protocol_b_transport"
  by (rule keeps_btI) (auto simp: from_protocol_b_transport_def intro!: after_bind_any inv_resp)

lemma upstream_keeps: "keeps_bt I bt \<Longrightarrow> keeps_bt I (upstream_b_transport bt wt)"
  using keeps_btD [OF from_protocol_keeps] keeps_btD [OF from_proto_keeps [OF route_tx_keeps]]
  by (intro keeps_btI) (auto simp: upstream_b_transport_def link_b_transport_def handle_rx_cases
      forward_to_active_controller_def dev_to_protocol_def tx_eq_route split: usb3_role.splits)

lemma peer_keeps: "keeps_bt I up \<Longrightarrow> keeps_bt I (peer_b_transport up)"
proof (rule keeps_btI)
  fix tr :: payload and d :: sc_time and w :: tb_world
  assume k: "keeps_bt I up" and w: "I w"
  have ctrl: "after_run (send_ctrl_data up bs w) I" for bs
    using w by (auto simp: send_ctrl_data_def intro!: after_bind [OF keeps_btD [OF k]])
  have bulk: "after_run (peer_send_bulk_in up bs ep w) I" for bs ep
    using w by (auto simp: peer_send_bulk_in_def intro!: after_bind [OF keeps_btD [OF k]])
  have "after_run (peer_handle_setup up s tr w) (\<lambda>r. I (snd r))" for s
    using w by (auto simp: peer_handle_setup_def intro!: after_bind [OF ctrl] inv_peer)
  then have stp: "after_run (bindR (peer_handle_setup up s tr w) (\<lambda>(tr, w). Inr (tr, d, w)))
      (\<lambda>r. I (snd (snd r)))" for s
    by (rule after_bind) auto
  have blk: "after_run (bindR (bindR (peer_send_bulk_in up bs ep w)
        (\<lambda>w. Inr (w\<lparr>peer := (peer w)\<lparr>m_loopback_buf := []\<rparr>\<rparr>))) (\<lambda>w. Inr (tr', d, w)))
      (\<lambda>r. I (snd (snd r)))" for bs ep and tr' :: payload
    by (rule after_bind [of _ I]) (auto intro!: after_bind [OF bulk] inv_peer)
  have "after_run (bindR (read_data tr) (\<lambda>bytes.
      Inr (tr', d, w\<lparr>peer := (peer w)\<lparr>m_loopback_buf := bytes\<rparr>\<rparr>))) (\<lambda>r. I (snd (snd r)))" for tr' :: payload
    by (rule after_bind_any) (simp add: inv_peer w)
  then show "after_run (peer_b_transport up tr d w) (\<lambda>r. I (snd (snd r)))"
    using w by (simp add: peer_b_transport_def stp blk split: option.split usb3_pkt_type.split)
qed

lemma tb_link_keeps: "keeps_bt I (tb_link wt n)"
proof (induction n)
  case 0
  then show ?case by (simp add: keeps_bt_def tb_link.simps)
next
  case (Suc n)
  then show ?case by (simp add: tb_link_Suc peer_keeps upstream_keeps)
qed

lemma host_socket_keeps: "keeps_bt I (tb_host_socket wt n)"
  by (simp add: host_to_protocol_def tx_eq_route route_tx_keeps tb_link_keeps)

lemma dev_socket_keeps: "keeps_bt I (dev_to_protocol (tb_link wt n))"
  by (simp add: dev_to_protocol_def tx_eq_route route_tx_keeps tb_link_keeps)

lemma tb_upstream_keeps: "keeps_bt I (tb_upstream wt n)"
  by (simp add: upstream_keeps tb_link_keeps)

end

text \<open>Predicates that the loopback thread keeps as well.\<close>

locale thread_invariant = call_invariant +
  assumes inv_loop: "I w \<Longrightarrow> loop_step (dev_ctrl w) dc \<Longrightarrow> I (w\<lparr>dev_ctrl := dc\<rparr>)"
begin

lemma loopback_keeps:
  "keeps_bt I bt \<Longrightarrow> I w \<Longrightarrow> after_run (loopback_body bt w) (\<lambda>r. I (fst r))"
  by (auto simp: loopback_body_def split: option.splits
      intro!: after_bind [OF dev_send_keeps] inv_loop ls_irq ls_copy)

lemma loopback_end_keeps: "I w \<Longrightarrow> I (loopback_end w)"
  by (simp add: loopback_end_def inv_loop ls_irq)

end

section \<open>Two invariants of every call\<close>

text \<open>What the calls leave alone: everything but the controllers, the counter and the peer.\<close>

definition drd_rest ::
  "tb_world \<Rightarrow> role_manager \<times> drd_controller \<times> drd_signals \<times> usb_c_cc_state \<times> bool" where
  "drd_rest w = (role_mgr w, drd w, sigs w, cc_state w, vbus w)"

interpretation rest_kept: thread_invariant "\<lambda>w. drd_rest w = c" "\<lambda>t w. w" for c
  by unfold_locales (simp_all add: drd_rest_def)

text \<open>
  The device controller: its address has seven bits, the \<open>configured\<close> port shows its state, its
  descriptors are those of the constructor, and an endpoint without data has an empty buffer.
\<close>

definition dev_inv :: "device_controller \<Rightarrow> bool" where
  "dev_inv dc \<longleftrightarrow> unat (m_assigned_addr dc) < 128 \<and> configured dc = m_configured dc \<and>
     fifo_ok (m_ep1_in dc) \<and> fifo_ok (m_ep2_out dc) \<and>
     dev_descs dc = init_descriptors default_descriptor_set"

lemma seven_bits: "unat (ucast ((v :: u16) AND 0x7F) :: u8) < 128"
proof -
  have "unat (v AND 0x7F) \<le> 127"
    using word_and_le1 [of v "0x7F"] by (simp add: word_le_nat_alt)
  moreover have "unat (ucast (v AND 0x7F) :: u8) \<le> unat (v AND 0x7F)"
    by (simp add: unsigned_ucast_eq)
  ultimately show ?thesis by simp
qed

lemma dev_inv_step: "dev_step dc dc' \<Longrightarrow> dev_inv dc \<Longrightarrow> dev_inv dc'"
  by (induction rule: dev_step.induct)
    (auto simp: dev_inv_def seven_bits fifo_read_def fifo_ok_def fifo_write_def split: if_splits)

lemma loop_inv_step: "loop_step dc dc' \<Longrightarrow> dev_inv dc \<Longrightarrow> dev_inv dc'"
  by (induction rule: loop_step.induct)
    (auto simp: dev_inv_def fifo_read_def fifo_ok_def fifo_write_def split: if_splits)

interpretation dev_kept: thread_invariant "\<lambda>w. dev_inv (dev_ctrl w)" "\<lambda>t w. w"
  by unfold_locales (auto intro: dev_inv_step loop_inv_step)

text \<open>Once configured, the device stays configured.\<close>

interpretation conf_kept: thread_invariant "\<lambda>w. m_configured (dev_ctrl w)" "\<lambda>t w. w"
  by unfold_locales (auto elim: dev_step.cases loop_step.cases)

text \<open>No call touches the interrupt port of the device controller; only its loopback thread does.\<close>

interpretation irq_kept: call_invariant "\<lambda>w. bulk_irq (dev_ctrl w) = c" "\<lambda>t w. w" for c
  by unfold_locales (auto elim: dev_step.cases)

end
