(* ===== verification/Drd_System.thy ===== *)
theory Drd_System imports Call_Invariants begin

text \<open>
  The DRD under an arbitrary scheduler: the role manager's thread, the role switch monitor, the
  loopback thread, the methods, register accesses, calls from both controllers and from the link,
  and the signal updates, as steps that may follow each other in any order. The simulation
  kernel's order is one of them, so what holds in every reachable state holds in every run.
\<close>

section \<open>Calls do not wait\<close>

text \<open>
  The only \<open>wait\<close> below a socket is the 2 ms of SET_ADDRESS, and the peer sends no SETUP: over
  the testbench's link the \<open>wait\<close> of the calling thread plays no role.
\<close>

lemma from_proto_no_wait:
  "extension tr = Some e \<Longrightarrow> pkt_type e \<noteq> SETUP \<Longrightarrow>
   from_proto_b_transport L wt tr d w = from_proto_b_transport L wt' tr d w"
  by (simp add: from_proto_b_transport_def split: usb3_pkt_type.split)

lemma upstream_no_wait:
  "extension tr = Some e \<Longrightarrow> pkt_type e = CTRL_DATA \<or> pkt_type e = BULK_IN \<Longrightarrow>
   upstream_b_transport L wt tr d w = upstream_b_transport L wt' tr d w"
  using from_proto_no_wait [of "mark_stall tr" e "dev_to_protocol L" wt d w wt']
  by (auto simp: upstream_b_transport_def link_b_transport_def handle_rx_cases mark_stall_def
      forward_to_active_controller_def split: usb3_role.split)

lemma tb_link_no_wait: "tb_link wt n = tb_link wt' n"
proof (induction n)
  case 0
  then show ?case by (simp add: fun_eq_iff tb_link.simps)
next
  case (Suc n)
  have "send_ctrl_data (upstream_b_transport L wt) bs w = send_ctrl_data (upstream_b_transport L wt') bs w"
    and "peer_send_bulk_in (upstream_b_transport L wt) bs ep w =
      peer_send_bulk_in (upstream_b_transport L wt') bs ep w" for L bs ep w
    by (simp_all add: send_ctrl_data_def peer_send_bulk_in_def)
      (use upstream_no_wait [of _ _ L wt _ _ wt'] in simp_all)
  then have "peer_b_transport (upstream_b_transport L wt) = peer_b_transport (upstream_b_transport L wt')" for L
    by (simp add: fun_eq_iff peer_b_transport_def peer_handle_setup_def split: option.split usb3_pkt_type.split)
  then show ?case using Suc by (simp add: tb_link_Suc)
qed

section \<open>The stretches of the two role threads\<close>

datatype mon_pc = MON_Start | MON_Wait | MON_Settle usb3_role

text \<open>One stretch of \<open>role_detection_process\<close> and of \<open>role_switch_monitor\<close>, up to the next \<open>wait\<close>.\<close>

fun rm_segment :: "rm_pc \<Rightarrow> 'e world_scheme \<Rightarrow> rm_pc \<times> 'e world_scheme" where
  "rm_segment RM_Start w = (RM_Wait, w\<lparr>role_mgr := role_detection_start (role_mgr w)\<rparr>)"
| "rm_segment RM_Wait w =
     (let (rm, p) = role_detection_body (sig_cc_state_int (sigs w)) (sig_vbus_int (sigs w)) (role_mgr w)
      in (if p then RM_Pulse else RM_Wait, w\<lparr>role_mgr := rm\<rparr>))"
| "rm_segment RM_Pulse w = (RM_Wait, w\<lparr>role_mgr := apply_role_end (role_mgr w)\<rparr>)"

fun mon_segment :: "mon_pc \<Rightarrow> 'e world_scheme \<Rightarrow> mon_pc \<times> 'e world_scheme" where
  "mon_segment MON_Start w = (MON_Wait, w\<lparr>drd := role_switch_start (drd w)\<rparr>)"
| "mon_segment MON_Wait w =
     (let (r, d) = role_switch_wake (sigs w) (drd w) in (MON_Settle r, w\<lparr>drd := d\<rparr>))"
| "mon_segment (MON_Settle r) w = (MON_Wait, w\<lparr>drd := role_switch_settle r (drd w)\<rparr>)"

lemma rm_segment_step:
  assumes "rm_segment pc w = (pc', w')"
  obtains rm where "role_step (pc, role_mgr w) (pc', rm)" and "w' = w\<lparr>role_mgr := rm\<rparr>"
proof (cases pc)
  case RM_Wait
  obtain rm p where "role_detection_body (sig_cc_state_int (sigs w)) (sig_vbus_int (sigs w)) (role_mgr w)
      = (rm, p)" by fastforce
  from rm_wake [OF this] this assms RM_Wait show ?thesis
    by (intro that [of rm]) auto
qed (use assms in \<open>auto intro: role_step.intros intro!: that\<close>)

lemma segment_dev:
  "rm_segment pc w = (pc', w') \<Longrightarrow> dev_ctrl w' = dev_ctrl w"
  "mon_segment mc w = (mc', w') \<Longrightarrow> dev_ctrl w' = dev_ctrl w"
  by (cases pc; auto simp: Let_def split: prod.splits) (cases mc; auto simp: Let_def split: prod.splits)

section \<open>The steps\<close>

record drd_system =
  rm_at :: rm_pc
  mon_at :: mon_pc
  lb_pulse :: bool
  sys :: tb_world

definition drd_system_new :: drd_system where
  "drd_system_new = \<lparr> rm_at = RM_Start, mon_at = MON_Start, lb_pulse = False, sys = tb_new \<rparr>"

abbreviation no_wait :: "tb_world waiting" where "no_wait \<equiv> \<lambda>t w. w"

text \<open>
  Everything but the host thread: the role manager reads the forwarded inputs, the monitor is
  woken only while the pulse is visible, and a register access or a call from the link may come
  at any time, the call with any payload, not only what the peer sends.
\<close>

inductive core_step :: "drd_system \<Rightarrow> drd_system \<Rightarrow> bool" where
  sys_rm: "rm_segment (rm_at s) (sys s) = (pc, w) \<Longrightarrow> core_step s (s\<lparr>rm_at := pc, sys := w\<rparr>)"
| sys_mon: "(mon_at s = MON_Wait \<Longrightarrow> sig_role_changed (sigs (sys s))) \<Longrightarrow>
    mon_segment (mon_at s) (sys s) = (pc, w) \<Longrightarrow> core_step s (s\<lparr>mon_at := pc, sys := w\<rparr>)"
| sys_collect: "w = sys s \<Longrightarrow>
    core_step s (s\<lparr>sys := w\<lparr>drd := interrupt_collector (sigs w) (drd w)\<rparr>\<rparr>)"
| sys_forward: "w = sys s \<Longrightarrow>
    core_step s (s\<lparr>sys := w\<lparr>drd := forward_inputs (cc_state w) (vbus w) (drd w)\<rparr>\<rparr>)"
| sys_cfg: "cfg_b_transport tr d (sys s) = Inr (tr', d', w') \<Longrightarrow> core_step s (s\<lparr>sys := w'\<rparr>)"
| sys_upstream: "tb_upstream no_wait n tr d (sys s) = Inr (tr', d', w') \<Longrightarrow>
    core_step s (s\<lparr>sys := w'\<rparr>)"
| sys_loopback: "\<not> lb_pulse s \<Longrightarrow>
    loopback_body (dev_to_protocol (tb_link no_wait n)) (sys s) = Inr (w', p) \<Longrightarrow>
    core_step s (s\<lparr>lb_pulse := p, sys := w'\<rparr>)"
| sys_loopback_end: "lb_pulse s \<Longrightarrow>
    core_step s (s\<lparr>lb_pulse := False, sys := loopback_end (sys s)\<rparr>)"
| sys_update: "core_step s (s\<lparr>sys := update_signals (sys s)\<rparr>)"
| sys_events: "core_step s (s\<lparr>sys := clear_events (sys s)\<rparr>)"
| sys_inputs: "core_step s (s\<lparr>sys := (sys s)\<lparr>cc_state := cc, vbus := vb\<rparr>\<rparr>)"

text \<open>
  With the host thread as any sequence of calls and changes of its members: more than the thread
  of \<open>Host_Thread\<close> does, and enough for the invariants that do not depend on it.
\<close>

inductive drd_step :: "drd_system \<Rightarrow> drd_system \<Rightarrow> bool" where
  sys_core: "core_step s t \<Longrightarrow> drd_step s t"
| sys_host: "drd_step s (s\<lparr>sys := (sys s)\<lparr>host_ctrl := h\<rparr>\<rparr>)"
| sys_host_call: "tb_host_socket no_wait n tr d (sys s) = Inr (tr', d', w') \<Longrightarrow>
    drd_step s (s\<lparr>sys := w'\<rparr>)"

inductive drd_reachable :: "drd_system \<Rightarrow> bool" where
  drd_reach_init: "drd_reachable drd_system_new"
| drd_reach_step: "drd_reachable s \<Longrightarrow> drd_step s t \<Longrightarrow> drd_reachable t"

section \<open>Invariants\<close>

text \<open>
  The monitor's part of the state: the two enables are never on together, and both are off while
  a switch settles. The visible enables are a value the ports had at an earlier update.
\<close>

definition enable_inv :: "drd_system \<Rightarrow> bool" where
  "enable_inv s \<longleftrightarrow>
     \<not> (host_enable (drd (sys s)) \<and> dev_enable (drd (sys s))) \<and>
     (mon_at s \<noteq> MON_Wait \<longrightarrow> \<not> host_enable (drd (sys s)) \<and> \<not> dev_enable (drd (sys s))) \<and>
     \<not> (sig_host_enable (sigs (sys s)) \<and> sig_dev_enable (sigs (sys s)))"

text \<open>The bits an interrupt status may have: ROLE_CHANGED, ENUM_DONE, XFER_DONE, BULK_IRQ.\<close>

definition INTR_MASK :: u32 where
  "INTR_MASK = DRD_INTR_ROLE_CHANGED OR DRD_INTR_ENUM_DONE OR DRD_INTR_XFER_DONE OR DRD_INTR_BULK_IRQ"

definition intr_inv :: "drd_controller \<Rightarrow> bool" where
  "intr_inv d \<longleftrightarrow> length (m_regs d) = 8 \<and> (irq d \<longrightarrow> m_intr_status d \<noteq> 0) \<and>
     m_intr_status d AND INTR_MASK = m_intr_status d"

definition system_inv :: "drd_system \<Rightarrow> bool" where
  "system_inv s \<longleftrightarrow> role_inv (rm_at s, role_mgr (sys s)) \<and> enable_inv s \<and> intr_inv (drd (sys s)) \<and>
     dev_inv (dev_ctrl (sys s))"

lemma and_and_absorb: "x AND m = x \<Longrightarrow> (x AND b) AND m = x AND (b :: u32)"
  by (metis and.assoc and.commute)

lemma or_and_absorb: "x AND m = x \<Longrightarrow> b AND m = b \<Longrightarrow> (x OR b) AND m = x OR (b :: u32)"
  by (simp add: bit.conj_disj_distrib2)

lemma intr_bits: "DRD_INTR_ROLE_CHANGED AND INTR_MASK = DRD_INTR_ROLE_CHANGED"
  "DRD_INTR_ENUM_DONE AND INTR_MASK = DRD_INTR_ENUM_DONE"
  "DRD_INTR_XFER_DONE AND INTR_MASK = DRD_INTR_XFER_DONE"
  "DRD_INTR_BULK_IRQ AND INTR_MASK = DRD_INTR_BULK_IRQ"
  by (simp_all add: INTR_MASK_def intr_defs)

lemma intr_nonzero: "DRD_INTR_ROLE_CHANGED \<noteq> 0" "DRD_INTR_ENUM_DONE \<noteq> 0" "DRD_INTR_XFER_DONE \<noteq> 0"
  "DRD_INTR_BULK_IRQ \<noteq> 0"
  by (simp_all add: intr_defs)

lemma raise_irq_inv: "intr_inv d \<Longrightarrow> b AND INTR_MASK = b \<Longrightarrow> b \<noteq> 0 \<Longrightarrow> intr_inv (raise_irq b d)"
  by (auto simp: intr_inv_def or_and_absorb or_eq_0_iff)

lemma intr_inv_frame:
  "intr_inv (d\<lparr>host_enable := x\<rparr>) = intr_inv d" "intr_inv (d\<lparr>dev_enable := x\<rparr>) = intr_inv d"
  "intr_inv (d\<lparr>cc_state_int := c\<rparr>) = intr_inv d" "intr_inv (d\<lparr>vbus_int := x\<rparr>) = intr_inv d"
  "intr_inv (d\<lparr>m_intr_enable := v\<rparr>) = intr_inv d"
  "intr_inv (d\<lparr>m_regs := (m_regs d)[i := v]\<rparr>) = intr_inv d"
  by (simp_all add: intr_inv_def)

section \<open>Every step keeps the invariants\<close>

lemma cfg_result:
  assumes "cfg_b_transport tr d w = Inr (tr', d', w')"
  obtains "w' = w" | a v where "w' = cfg_write a v w"
  using assms by (auto simp: cfg_b_transport_def bindR_eq_Inr split: if_splits)

lemma cfg_write_frame [frame]:
  "sigs (cfg_write a v w) = sigs w" "dev_ctrl (cfg_write a v w) = dev_ctrl w"
  "host_enable (drd (cfg_write a v w)) = host_enable (drd w)"
  "dev_enable (drd (cfg_write a v w)) = dev_enable (drd w)"
  by (simp_all add: cfg_write_def Let_def)

lemma cfg_write_role:
  "role_mgr (cfg_write a v w) =
     (if a = REG_ROLE_CTRL \<and> v = 1 then request_role HOST (role_mgr w)
      else if a = REG_ROLE_CTRL \<and> v = 2 then request_role DEVICE (role_mgr w)
      else role_mgr w)"
  by (simp add: cfg_write_def Let_def reg_defs)

lemma cfg_write_intr: "intr_inv (drd w) \<Longrightarrow> intr_inv (drd (cfg_write a v w))"
proof -
  assume i: "intr_inv (drd w)"
  have "(m_intr_status (drd w) AND NOT v) AND INTR_MASK = m_intr_status (drd w) AND NOT v"
    using i by (intro and_and_absorb) (simp add: intr_inv_def)
  with i show ?thesis
    by (auto simp: cfg_write_def Let_def intr_inv_frame) (auto simp: intr_inv_def)
qed

lemma collector_inv: "intr_inv d \<Longrightarrow> intr_inv (interrupt_collector s d)"
  unfolding interrupt_collector_def Let_def
  by (auto simp: intr_inv_frame intr_bits intr_nonzero intro!: raise_irq_inv)

lemmas drd_part_defs = role_switch_start_def role_switch_wake_def role_switch_settle_def
  forward_inputs_def

lemma settle_inv: "intr_inv d \<Longrightarrow> intr_inv (role_switch_settle r d)"
  by (auto simp: role_switch_settle_def intr_inv_frame intr_bits intr_nonzero intro!: raise_irq_inv)

text \<open>Neither the monitor nor the collector touches the forwarded inputs.\<close>

lemma drd_part_inputs [frame]:
  "cc_state_int (role_switch_settle r d) = cc_state_int d" "vbus_int (role_switch_settle r d) = vbus_int d"
  "cc_state_int (interrupt_collector s d) = cc_state_int d" "vbus_int (interrupt_collector s d) = vbus_int d"
  "host_enable (interrupt_collector s d) = host_enable d" "dev_enable (interrupt_collector s d) = dev_enable d"
  by (simp_all add: role_switch_settle_def interrupt_collector_def Let_def)

text \<open>A call leaves all of the invariant's state but the device controller's alone.\<close>

lemma call_rest:
  assumes "drd_rest w' = drd_rest (sys s)" and "dev_inv (dev_ctrl w')" and "system_inv s"
  shows "system_inv (s\<lparr>sys := w'\<rparr>)" and "system_inv (s\<lparr>lb_pulse := p, sys := w'\<rparr>)"
  using assms by (simp_all add: system_inv_def enable_inv_def drd_rest_def)

lemma call_keeps:
  assumes "\<And>c. keeps_bt (\<lambda>w. drd_rest w = c) bt" and "keeps_bt (\<lambda>w. dev_inv (dev_ctrl w)) bt"
    and r: "bt tr d (sys s) = Inr (tr', d', w')" and "system_inv s"
  shows "system_inv (s\<lparr>sys := w'\<rparr>)"
proof (rule call_rest)
  show "drd_rest w' = drd_rest (sys s)"
    by (rule keeps_bt_Inr [OF assms(1) refl r])
  show "dev_inv (dev_ctrl w')"
    using assms(4) by (intro keeps_bt_Inr [OF assms(2) _ r]) (simp add: system_inv_def)
qed (rule assms(4))

lemma role_part:
  "role_inv (pc, rm) \<Longrightarrow> system_inv s \<Longrightarrow> system_inv (s\<lparr>rm_at := pc, sys := (sys s)\<lparr>role_mgr := rm\<rparr>\<rparr>)"
  by (simp add: system_inv_def enable_inv_def)

lemma core_step_inv:
  assumes "core_step s t" and "system_inv s"
  shows "system_inv t"
  using assms
proof (induction rule: core_step.induct)
  case (sys_rm s pc w)
  from sys_rm.hyps obtain rm where rm: "role_step (rm_at s, role_mgr (sys s)) (pc, rm)"
    "w = (sys s)\<lparr>role_mgr := rm\<rparr>" by (rule rm_segment_step)
  have "role_inv (rm_at s, role_mgr (sys s))" using sys_rm.prems by (simp add: system_inv_def)
  from role_part [OF role_step_inv [OF rm(1) this] sys_rm.prems] rm(2) show ?case by simp
next
  case (sys_mon s pc w)
  show ?case
  proof (cases "mon_at s")
    case MON_Start
    with sys_mon show ?thesis by (auto simp: system_inv_def enable_inv_def drd_part_defs intr_inv_frame)
  next
    case MON_Wait
    with sys_mon show ?thesis by (auto simp: system_inv_def enable_inv_def drd_part_defs intr_inv_frame)
  next
    case (MON_Settle r)
    let ?d = "role_switch_settle r (drd (sys s))"
    from MON_Settle sys_mon.hyps have t: "pc = MON_Wait" "w = (sys s)\<lparr>drd := ?d\<rparr>" by simp_all
    have "intr_inv ?d" using sys_mon.prems by (simp add: system_inv_def settle_inv)
    moreover have "\<not> (host_enable ?d \<and> dev_enable ?d)"
      using sys_mon.prems MON_Settle by (simp add: system_inv_def enable_inv_def role_switch_settle_def)
    ultimately show ?thesis using sys_mon.prems by (simp add: t system_inv_def enable_inv_def)
  qed
next
  case (sys_collect w s)
  then show ?case by (simp add: system_inv_def enable_inv_def collector_inv)
next
  case (sys_forward w s)
  then show ?case by (simp add: system_inv_def enable_inv_def drd_part_defs intr_inv_frame)
next
  case (sys_cfg tr d s tr' d' w')
  from sys_cfg.hyps show ?case
  proof (rule cfg_result)
    assume "w' = sys s"
    with sys_cfg.prems show ?thesis by (simp add: system_inv_def enable_inv_def)
  next
    fix a v
    assume w': "w' = cfg_write a v (sys s)"
    have "role_inv (rm_at s, role_mgr w')"
      using sys_cfg.prems by (simp add: w' cfg_write_role system_inv_def request_role_frame)
    with sys_cfg.prems show ?thesis
      by (simp add: system_inv_def enable_inv_def w' frame cfg_write_intr)
  qed
next
  case (sys_upstream n tr d s tr' d' w')
  then show ?case
    by (intro call_keeps [OF rest_kept.tb_upstream_keeps dev_kept.tb_upstream_keeps])
next
  case (sys_loopback s n w' p)
  have "dev_inv (dev_ctrl (sys s))" using sys_loopback.prems by (simp add: system_inv_def)
  from after_runD [OF dev_kept.loopback_keeps [OF dev_kept.dev_socket_keeps this] sys_loopback.hyps(2)]
    after_runD [OF rest_kept.loopback_keeps [OF rest_kept.dev_socket_keeps refl] sys_loopback.hyps(2)]
  show ?case using call_rest(2) [OF _ _ sys_loopback.prems] by simp
next
  case (sys_loopback_end s)
  have "dev_inv (dev_ctrl (sys s))" using sys_loopback_end.prems by (simp add: system_inv_def)
  from dev_kept.loopback_end_keeps [OF this] rest_kept.loopback_end_keeps [OF refl, of "sys s"]
  show ?case using call_rest(2) [OF _ _ sys_loopback_end.prems] by simp
next
  case (sys_update s)
  then show ?case by (simp add: system_inv_def enable_inv_def bind_internal_def)
next
  case (sys_events s)
  then show ?case
    by (simp add: system_inv_def enable_inv_def clear_events_def dev_inv_def)
next
  case (sys_inputs s cc vb)
  then show ?case by (simp add: system_inv_def enable_inv_def)
qed

lemma drd_step_inv:
  assumes "drd_step s t" and "system_inv s"
  shows "system_inv t"
  using assms
proof (induction rule: drd_step.induct)
  case (sys_core s t)
  then show ?case by (rule core_step_inv)
next
  case (sys_host s h)
  then show ?case by (simp add: system_inv_def enable_inv_def)
next
  case (sys_host_call n tr d s tr' d' w')
  then show ?case
    by (intro call_keeps [OF rest_kept.host_socket_keeps dev_kept.host_socket_keeps])
qed

lemma system_inv_new: "system_inv drd_system_new"
  by (simp add: system_inv_def drd_system_new_def tb_new_def drd_new_def world.extend_def
      enable_inv_def intr_inv_def dev_inv_def role_manager_new_def drd_controller_new_def
      drd_signals_new_def device_controller_new_def)

lemma drd_reachable_inv: "drd_reachable s \<Longrightarrow> system_inv s"
proof (induction rule: drd_reachable.induct)
  case drd_reach_init
  show ?case by (rule system_inv_new)
next
  case (drd_reach_step s t)
  then show ?case by (blast intro: drd_step_inv)
qed

text \<open>The interrupt port of the device controller is high exactly in the loopback thread's 10 ns.\<close>

lemma loopback_irq:
  assumes "loopback_body (dev_to_protocol (tb_link no_wait n)) w = Inr (w', p)"
  shows "bulk_irq (dev_ctrl w') \<longleftrightarrow> p \<or> bulk_irq (dev_ctrl w)"
proof -
  have "bulk_irq (dev_ctrl u) = bulk_irq (dev_ctrl v)"
    if "send_to_protocol (dev_to_protocol (tb_link no_wait n)) t ep dr bs et v = Inr u" for t ep dr bs et u v
    using after_runD [OF irq_kept.dev_send_keeps [OF irq_kept.dev_socket_keeps refl] that] .
  with assms show ?thesis
    by (fastforce simp: loopback_body_def bindR_eq_Inr split: if_splits option.splits)
qed

lemma core_step_irq: "core_step s t \<Longrightarrow> bulk_irq (dev_ctrl (sys s)) = lb_pulse s \<Longrightarrow> bulk_irq (dev_ctrl (sys t)) = lb_pulse t"
proof (induction rule: core_step.induct)
  case (sys_cfg tr d s tr' d' w')
  from sys_cfg.hyps have "dev_ctrl w' = dev_ctrl (sys s)" by (rule cfg_result) (simp_all add: frame)
  with sys_cfg.prems show ?case by simp
next
  case (sys_upstream n tr d s tr' d' w')
  from keeps_bt_Inr [OF irq_kept.tb_upstream_keeps refl sys_upstream.hyps] sys_upstream.prems
  show ?case by simp
next
  case (sys_loopback s n w' p)
  with loopback_irq [OF sys_loopback.hyps(2)] show ?case by simp
qed (auto simp: segment_dev loopback_end_def update_signals_def clear_events_def)

lemma irq_follows_pulse: "drd_reachable s \<Longrightarrow> bulk_irq (dev_ctrl (sys s)) \<longleftrightarrow> lb_pulse s"
proof (induction rule: drd_reachable.induct)
  case drd_reach_init
  then show ?case by (simp add: drd_system_new_def tb_new_def drd_new_def world.extend_def device_controller_new_def)
next
  case (drd_reach_step s t)
  from drd_reach_step.hyps(2) drd_reach_step.IH show ?case
  proof (induction rule: drd_step.induct)
    case (sys_host_call n tr d s tr' d' w')
    from keeps_bt_Inr [OF irq_kept.host_socket_keeps refl sys_host_call.hyps] sys_host_call.prems
    show ?case by simp
  qed (use core_step_irq in simp_all)
qed

end
