(* ===== verification/Role_Switch.thy ===== *)
theory Role_Switch imports Drd_System begin

text \<open>
  Executable runs of the system: a list of process activations, each one step of \<open>drd_step\<close>.
  With it, what one undisturbed role switch ends in, and what a second one that falls into the
  settling time of the first ends in.
\<close>

section \<open>Activations\<close>

text \<open>
  \<open>Act_rm\<close> and \<open>Act_mon\<close> run the next segment of their thread, the others a method, a register
  write, an update of the signals or a change of the inputs.
\<close>

datatype activation = Act_rm | Act_mon | Act_collect | Act_forward | Act_update
  | Act_inputs usb_c_cc_state bool | Act_write u64 u32

definition run_rm :: "drd_system \<Rightarrow> drd_system" where
  "run_rm s = (let (pc, w) = rm_segment (rm_at s) (sys s) in s\<lparr>rm_at := pc, sys := w\<rparr>)"

definition run_mon :: "drd_system \<Rightarrow> drd_system option" where
  "run_mon s =
     (if mon_at s = MON_Wait \<and> \<not> sig_role_changed (sigs (sys s)) then None
      else let (pc, w) = mon_segment (mon_at s) (sys s) in Some (s\<lparr>mon_at := pc, sys := w\<rparr>))"

lemmas run_role_defs = run_rm_def run_mon_def

fun activate :: "activation \<Rightarrow> drd_system \<Rightarrow> drd_system option" where
  "activate Act_rm s = Some (run_rm s)"
| "activate Act_mon s = run_mon s"
| "activate Act_collect s =
     Some (s\<lparr>sys := (sys s)\<lparr>drd := interrupt_collector (sigs (sys s)) (drd (sys s))\<rparr>\<rparr>)"
| "activate Act_forward s =
     Some (s\<lparr>sys := (sys s)\<lparr>drd := forward_inputs (cc_state (sys s)) (vbus (sys s)) (drd (sys s))\<rparr>\<rparr>)"
| "activate Act_update s = Some (s\<lparr>sys := update_signals (sys s)\<rparr>)"
| "activate (Act_inputs cc vb) s = Some (s\<lparr>sys := (sys s)\<lparr>cc_state := cc, vbus := vb\<rparr>\<rparr>)"
| "activate (Act_write a v) s = (case reg_write a v (sys s) of
      Inl e \<Rightarrow> None | Inr w \<Rightarrow> Some (s\<lparr>sys := w\<rparr>))"

fun run_acts :: "activation list \<Rightarrow> drd_system \<Rightarrow> drd_system option" where
  "run_acts [] s = Some s"
| "run_acts (a # as) s = (case activate a s of None \<Rightarrow> None | Some t \<Rightarrow> run_acts as t)"

lemma activate_step: "activate a s = Some t \<Longrightarrow> core_step s t"
proof (cases a)
  case Act_rm
  assume "activate a s = Some t"
  with Act_rm show ?thesis by (auto simp: run_rm_def split: prod.splits intro: sys_rm)
next
  case Act_mon
  assume "activate a s = Some t"
  with Act_mon show ?thesis
    by (auto simp: run_mon_def split: prod.splits if_splits intro: sys_mon)
next
  case (Act_write ad v)
  assume "activate a s = Some t"
  with Act_write obtain w where "reg_write ad v (sys s) = Inr w" "t = s\<lparr>sys := w\<rparr>"
    by (auto split: sum.splits)
  then show ?thesis
    by (auto simp: reg_write_def bindR_eq_Inr intro: sys_cfg)
qed (auto intro: core_step.intros)

lemma run_acts_reachable: "run_acts as s = Some t \<Longrightarrow> drd_reachable s \<Longrightarrow> drd_reachable t"
  by (induction as arbitrary: s)
    (auto split: option.splits dest: drd_reach_step [OF _ sys_core [OF activate_step]])

section \<open>One role switch\<close>

text \<open>
  The order of the kernel when nothing else happens: the inputs change and are forwarded, the
  role manager decides and raises its pulse, the monitor disables both controllers, the pulse
  ends after 10 ns, the monitor enables one controller after 1 us. Between two activations the
  signals take over what was written.
\<close>

definition switch_acts :: "usb_c_cc_state \<Rightarrow> bool \<Rightarrow> activation list" where
  "switch_acts cc vb = [Act_inputs cc vb, Act_forward, Act_update, Act_rm, Act_update,
     Act_mon, Act_collect, Act_update, Act_rm, Act_update, Act_collect, Act_mon, Act_update]"

lemma settle_sel:
  "host_enable (role_switch_settle r d) \<longleftrightarrow> r = HOST \<or> host_enable d"
  "dev_enable (role_switch_settle r d) \<longleftrightarrow> r = DEVICE \<or> dev_enable d"
  "bit (m_intr_status (role_switch_settle r d)) 0"
  "bit (m_intr_enable d) 0 \<Longrightarrow> irq (role_switch_settle r d)"
proof -
  have "bit x 0 \<Longrightarrow> bit ((y OR DRD_INTR_ROLE_CHANGED) AND x) 0" for x y :: u32
    by (simp add: bit_simps intr_defs)
  then have "bit x 0 \<Longrightarrow> (y OR DRD_INTR_ROLE_CHANGED) AND x \<noteq> 0" for x y :: u32
    by (metis bit_0_eq bot_apply bot_bool_def)
  then show "bit (m_intr_enable d) 0 \<Longrightarrow> irq (role_switch_settle r d)"
    by (simp add: role_switch_settle_def)
qed (auto simp: role_switch_settle_def bit_simps intr_defs)

lemma switch_result:
  assumes "rm_at s = RM_Wait" and "mon_at s = MON_Wait"
    and new: "role_target cc vb (role_mgr (sys s)) = r" "r \<noteq> m_role (role_mgr (sys s))"
  shows "\<exists>t. run_acts (switch_acts cc vb) s = Some t \<and> rm_at t = RM_Wait \<and> mon_at t = MON_Wait \<and>
    sig_role (sigs (sys t)) = r \<and>
    sig_host_enable (sigs (sys t)) = (r = HOST) \<and> sig_dev_enable (sigs (sys t)) = (r = DEVICE) \<and>
    bit (m_intr_status (drd (sys t))) 0 \<and>
    (bit (m_intr_enable (drd (sys s))) 0 \<longrightarrow> irq (drd (sys t)))"
proof -
  obtain rm where b: "role_detection_body cc vb (role_mgr (sys s)) = (rm, True)"
    and rm: "current_role rm = r" "role_changed rm"
    using role_body_pulse [of cc vb "role_mgr (sys s)"] role_body_ports [of cc vb "role_mgr (sys s)"] new
    by (cases "role_detection_body cc vb (role_mgr (sys s))") auto
  show ?thesis
    using assms(1,2) rm
    by (simp add: run_role_defs switch_acts_def b bind_internal_def apply_role_end_def settle_sel
        role_switch_wake_def forward_inputs_def cong: if_cong)
qed

section \<open>Two overlapping role switches\<close>

text \<open>The start of the simulation.\<close>

definition boot_acts :: "activation list" where
  "boot_acts = [Act_rm, Act_mon, Act_forward, Act_update]"

text \<open>
  The CC state changes to UFP and, after the first pulse is over but within the microsecond the
  monitor waits, to DFP: the monitor does not see the second pulse.
\<close>

definition overlap_acts :: "activation list" where
  "overlap_acts =
     [Act_inputs CC_UFP_ATTACHED True, Act_forward, Act_update, Act_rm, Act_update,
      Act_mon, Act_collect, Act_update, Act_rm, Act_update, Act_collect,
      Act_inputs CC_DFP_ATTACHED True, Act_forward, Act_update, Act_rm, Act_update, Act_collect,
      Act_rm, Act_update, Act_collect, Act_mon, Act_update]"

lemmas start_state_defs = drd_system_new_def tb_new_def drd_new_def world.extend_def
  role_manager_new_def drd_controller_new_def drd_signals_new_def

lemma boot_result:
  "\<exists>s. run_acts boot_acts drd_system_new = Some s \<and> rm_at s = RM_Wait \<and> mon_at s = MON_Wait \<and>
     role_mgr (sys s) = role_manager_new \<and> m_intr_enable (drd (sys s)) = 0xFFFFFFFF \<and>
     m_intr_status (drd (sys s)) = 0 \<and> \<not> irq (drd (sys s)) \<and> host_ctrl (sys s) = host_controller_new \<and>
     dev_ctrl (sys s) = device_controller_new \<and>
     \<not> host_enable (drd (sys s)) \<and> \<not> dev_enable (drd (sys s)) \<and>
     drd_reachable s"
proof -
  obtain s where s: "run_acts boot_acts drd_system_new = Some s"
    by (simp add: run_role_defs boot_acts_def start_state_defs)
  have "drd_reachable s" by (rule run_acts_reachable [OF s drd_reach_init])
  with s show ?thesis
    by (auto simp: run_role_defs boot_acts_def start_state_defs role_switch_start_def role_detection_start_def
        forward_inputs_def)
qed

lemma overlap_result:
  assumes "rm_at s = RM_Wait" and "mon_at s = MON_Wait" and "role_mgr (sys s) = role_manager_new"
    and "\<not> dev_enable (drd (sys s))"
  shows "\<exists>t. run_acts overlap_acts s = Some t \<and> rm_at t = RM_Wait \<and> mon_at t = MON_Wait \<and>
    sigs (sys t) = bind_internal (sys t) \<and> sig_role (sigs (sys t)) = DEVICE \<and>
    sig_host_enable (sigs (sys t)) \<and> \<not> sig_dev_enable (sigs (sys t))"
  using assms
  by (simp add: run_role_defs overlap_acts_def bind_internal_def role_defs role_desired_def settle_sel
      role_switch_wake_def forward_inputs_def cong: if_cong)

section \<open>A role switch with interrupts masked\<close>

text \<open>Mask all interrupts, switch to HOST, and unmask ROLE_CHANGED.\<close>

definition masked_acts :: "activation list" where
  "masked_acts = [Act_write REG_INTR_ENABLE 0] @ switch_acts CC_UFP_ATTACHED True @
     [Act_write REG_INTR_ENABLE 1]"

lemma collector_masked: "m_intr_enable d = 0 \<Longrightarrow> irq (interrupt_collector s d) = irq d"
  by (simp add: interrupt_collector_def Let_def)

lemma settle_masked: "m_intr_enable d = 0 \<Longrightarrow> irq (role_switch_settle r d) = irq d"
  by (simp add: role_switch_settle_def)

lemma settle_mask: "m_intr_enable (role_switch_settle r d) = m_intr_enable d"
  by (simp add: role_switch_settle_def)

lemma write_mask: "reg_write REG_INTR_ENABLE v w = Inr (w\<lparr>drd := (drd w)\<lparr>m_intr_enable := v\<rparr>\<rparr>)"
  by (simp add: reg_write_eq) (simp add: cfg_write_def reg_defs)

lemma masked_result:
  assumes "rm_at s = RM_Wait" and "mon_at s = MON_Wait" and "role_mgr (sys s) = role_manager_new"
    and "\<not> irq (drd (sys s))"
  shows "\<exists>t. run_acts masked_acts s = Some t \<and> bit (m_intr_status (drd (sys t))) 0 \<and>
    m_intr_enable (drd (sys t)) = 1 \<and> \<not> irq (drd (sys t))"
  using assms
  by (simp add: run_role_defs masked_acts_def switch_acts_def write_mask bind_internal_def role_defs
      role_desired_def settle_sel settle_masked settle_mask collector_masked role_switch_wake_def
      forward_inputs_def cong: if_cong)

section \<open>The device stays configured\<close>

lemma core_step_configured:
  assumes "core_step s t" and "m_configured (dev_ctrl (sys s))"
  shows "m_configured (dev_ctrl (sys t))"
  using assms
proof (induction rule: core_step.induct)
  case (sys_cfg tr d s tr' d' w')
  from sys_cfg.hyps show ?case
    by (rule cfg_result) (use sys_cfg.prems in \<open>simp_all add: frame\<close>)
next
  case (sys_upstream n tr d s tr' d' w')
  then show ?case using keeps_bt_Inr [OF conf_kept.tb_upstream_keeps] by simp
next
  case (sys_loopback s n w' p)
  then show ?case
    using after_runD [OF conf_kept.loopback_keeps [OF conf_kept.dev_socket_keeps]] by fastforce
next
  case (sys_loopback_end s)
  then show ?case using conf_kept.loopback_end_keeps by simp
qed (auto simp: segment_dev clear_events_def)

lemma drd_step_configured:
  "drd_step s t \<Longrightarrow> m_configured (dev_ctrl (sys s)) \<Longrightarrow> m_configured (dev_ctrl (sys t))"
  by (induction rule: drd_step.induct)
    (auto dest: core_step_configured keeps_bt_Inr [OF conf_kept.host_socket_keeps])

lemma drd_steps_configured:
  "drd_step\<^sup>*\<^sup>* s t \<Longrightarrow> m_configured (dev_ctrl (sys s)) \<Longrightarrow> m_configured (dev_ctrl (sys t))"
  by (induction rule: rtranclp_induct) (auto dest: drd_step_configured)

end
