(* ===== verification/Block_Properties.thy ===== *)
theory Block_Properties imports Link_Recorder Role_Switch begin

text \<open>
  The properties of the single blocks: protocol layer, host controller, device controller, role
  manager and register file. Each is stated over the definitions of its block alone; sockets are
  parameters or the recording link.
\<close>

section \<open>Transfer ring\<close>

text \<open>C21. Queueing a batch on the ring succeeds exactly when the batch fits into the 256 entries,
and then the batch is appended in order; the queue never exceeds the bound.\<close>

theorem ring_capacity:
  assumes "ring_ok r"
  shows "returns (put_all ring_enqueue ts r) (\<lambda>r'. ring_queue r' = ring_queue r @ ts \<and> ring_ok r')
    \<longleftrightarrow> length (ring_queue r) + length ts \<le> RING_DEPTH"
  using ring.put_all_returns [OF assms] assms by (simp add: ring_ok_def)

lemma ring_capacity_witness:
  "returns (put_all ring_enqueue (replicate 256 default_trb) ring_new)
     (\<lambda>r'. ring_queue r' = ring_queue ring_new @ replicate 256 default_trb \<and> ring_ok r') \<and>
   \<not> returns (put_all ring_enqueue (replicate 257 default_trb) ring_new)
     (\<lambda>r'. ring_queue r' = ring_queue ring_new @ replicate 257 default_trb \<and> ring_ok r')"
proof -
  have r: "ring_ok ring_new" by (simp add: ring_ok_def ring_new_def)
  show ?thesis
    unfolding ring_capacity [OF r] by (simp add: ring_new_def RING_DEPTH_def)
qed

section \<open>Protocol layer\<close>


section \<open>Setup packets\<close>

definition unpack_setup :: "u8 list \<Rightarrow> usb3_setup_pkt" where
  "unpack_setup bs = \<lparr> bmRequestType = bs ! 0, bRequest = bs ! 1, wValue = le16 (bs ! 2) (bs ! 3),
     wIndex = le16 (bs ! 4) (bs ! 5), wLength = le16 (bs ! 6) (bs ! 7) \<rparr>"

text \<open>The eight bytes of a packed setup packet, read as the USB wire format, give the packet
back.\<close>

theorem setup_packet_roundtrip:
  "unpack_setup (pack_setup_packet s) = s \<and> length (pack_setup_packet s) = 8"
  by (simp add: unpack_setup_def pack_setup_packet_bytes)

text \<open>C24. The device takes from the host's GET_DESCRIPTOR request exactly the descriptor type and
index the host asked for, for every type and index, and answers with that descriptor or a stall.\<close>

theorem device_answers_host_request:
  assumes "sig_dev_enable (sigs w)" and "is_setup tr (get_descriptor_setup t i)"
  shows "\<exists>tr' p. from_proto_b_transport rec_link wt tr d w = Inr (tr', d, w\<lparr>sent := sent w @ [p]\<rparr>) \<and>
    p = (let dc = dev_ctrl w; n = wLength (get_descriptor_setup t i) in
      if t = USB_DESC_DEVICE then dev_packet dc CTRL_DATA 0 DEVICE_TO_HOST
        (dev_desc_to_bytes (m_dev_desc (dev_descs dc))) CONTROL
      else if t = USB_DESC_CONFIGURATION then dev_packet dc CTRL_DATA 0 DEVICE_TO_HOST
        (take (unat n) (m_config_blob (dev_descs dc))) CONTROL
      else if t = USB_DESC_BOS then dev_packet dc CTRL_DATA 0 DEVICE_TO_HOST
        (take (unat n) bos_bytes) CONTROL
      else if t = USB_DESC_STRING then dev_packet dc CTRL_DATA 0 DEVICE_TO_HOST
        (take (unat n) (string_descriptor i)) CONTROL
      else dev_packet dc TP_STALL 0 DEVICE_TO_HOST (replicate 4 0) CONTROL)"
  using from_proto_get_descriptor_rec [OF assms]
  by (simp add: get_descriptor_data_def cap_length_take Let_def)

lemma device_answers_host_request_witness:
  "\<exists>tr' p. from_proto_b_transport rec_link (\<lambda>t w. w)
      (setup_payload 0 (get_descriptor_setup USB_DESC_STRING 2)) 0 rec_world =
        Inr (tr', 0, rec_world\<lparr>sent := [p]\<rparr>) \<and>
    p = dev_packet device_controller_new CTRL_DATA 0 DEVICE_TO_HOST
      (take 18 (string_descriptor 2)) CONTROL"
proof -
  have "is_setup (setup_payload 0 (get_descriptor_setup USB_DESC_STRING 2))
      (get_descriptor_setup USB_DESC_STRING 2)"
    by (simp add: is_setup_def)
  from device_answers_host_request [OF rec_world_sel(2) this, of "\<lambda>t w. w" 0] show ?thesis
    by (simp add: usb_desc_defs get_descriptor_setup_def)
qed

section \<open>Descriptors\<close>


text \<open>C34. The answer to a GET_DESCRIPTOR of any type but DEVICE is the longest prefix of the
descriptor that fits into wLength.\<close>

theorem answer_within_length:
  assumes "get_descriptor_data ds s = Some bs" and "hi8 (wValue s) \<noteq> USB_DESC_DEVICE"
  shows "length bs \<le> unat (wLength s) \<and>
    (\<exists>full. get_descriptor_data ds (s\<lparr>wLength := 0xFFFF\<rparr>) = Some (take 0xFFFF full) \<and>
       bs = take (unat (wLength s)) full)"
  using assms by (auto simp: get_descriptor_data_def cap_length_take Let_def split: if_splits)

lemma answer_within_length_witness:
  "\<exists>bs. get_descriptor_data (init_descriptors default_descriptor_set)
      (default_setup_pkt\<lparr>wValue := 0x0200, wLength := 9\<rparr>) = Some bs \<and> length bs \<le> 9"
proof -
  let ?s = "default_setup_pkt\<lparr>wValue := 0x0200, wLength := 9\<rparr>"
  have h: "hi8 (wValue ?s) = 2" by (simp add: hi8_def)
  then obtain bs where "get_descriptor_data (init_descriptors default_descriptor_set) ?s = Some bs"
    by (simp add: get_descriptor_data_def usb_desc_defs Let_def)
  from this answer_within_length [OF this] h show ?thesis by (simp add: usb_desc_defs)
qed

text \<open>A DEVICE descriptor request is answered with all 18 bytes whatever wLength says, so a
host that asks for fewer gets more than it asked for.\<close>

theorem device_descriptor_ignores_length:
  "get_descriptor_data (init_descriptors default_descriptor_set)
      (default_setup_pkt\<lparr>wValue := le16 i USB_DESC_DEVICE, wLength := n\<rparr>) =
    Some [18, 1, 0, 3, 0xFF, 0, 0, 9, 0x12, 0xAB, 0x34, 0xCD, 0, 1, 1, 2, 3, 1]"
  by (simp add: get_descriptor_data_def frame dev_desc_bytes_value) (simp add: default_descriptor_set_def dev_desc_bytes_value)

text \<open>Every string descriptor with an index from 1 to 3 has its own length in its first byte,
the STRING type in the second, and decodes from UTF-16LE to its text; index 0 is the language list,
and any other index is answered with no bytes at all.\<close>

theorem string_descriptor_decodes:
  "(case string_text i of
      Some text \<Rightarrow> string_descriptor i ! 0 = of_nat (length (string_descriptor i)) \<and>
        string_descriptor i ! 1 = USB_DESC_STRING \<and>
        utf16_low (drop 2 (string_descriptor i)) = Some (map of_char text)
    | None \<Rightarrow> string_descriptor i = (if i = 0 then [4, USB_DESC_STRING, 9, 4] else []))"
  by (auto simp: string_descriptor_def usb_desc_defs utf16_low_concat length_concat_pairs
      string_text_def split: option.split)

section \<open>Device controller\<close>

lemma unat_ucast_mask7: "unat (ucast ((v :: u16) AND 0x7F) :: u8) = unat v mod 128"
  using unat_and_7F [of v] by (simp add: unsigned_ucast_eq take_bit_eq_mod)

text \<open>C36. A request other than the four supported ones is stalled on endpoint 0 and answered with
an error; nothing else changes.\<close>

theorem unknown_request_stalls:
  assumes "sig_dev_enable (sigs w)" and "is_setup tr s"
    and "bRequest s \<notin> {USB_REQ_GET_DESCRIPTOR, USB_REQ_SET_ADDRESS, USB_REQ_SET_CONFIGURATION,
      USB_REQ_GET_STATUS}"
  shows "from_proto_b_transport rec_link wt tr d w =
    Inr (tr\<lparr>response_status := TLM_GENERIC_ERROR_RESPONSE\<rparr>, d,
      w\<lparr>sent := sent w @ [dev_packet (dev_ctrl w) TP_STALL 0 DEVICE_TO_HOST (replicate 4 0) CONTROL]\<rparr>)"
  using assms by (simp add: from_proto_setup handle_setup_def stall_endpoint_def send_rec)

lemma unknown_request_stalls_witness:
  "from_proto_b_transport rec_link (\<lambda>t w. w)
      (setup_payload 0 (default_setup_pkt\<lparr>bRequest := 0x0B\<rparr>)) 0 rec_world =
    Inr ((setup_payload 0 (default_setup_pkt\<lparr>bRequest := 0x0B\<rparr>))
        \<lparr>response_status := TLM_GENERIC_ERROR_RESPONSE\<rparr>, 0,
      rec_world\<lparr>sent := [dev_packet device_controller_new TP_STALL 0 DEVICE_TO_HOST
        (replicate 4 0) CONTROL]\<rparr>)"
proof -
  have "is_setup (setup_payload 0 (default_setup_pkt\<lparr>bRequest := 0x0B\<rparr>))
      (default_setup_pkt\<lparr>bRequest := 0x0B\<rparr>)"
    by (simp add: is_setup_def)
  from unknown_request_stalls [OF rec_world_sel(2) this, of "\<lambda>t w. w" 0] show ?thesis
    by (simp add: usb_req_defs)
qed

text \<open>C35. SET_ADDRESS stores the low seven bits of wValue; every packet the device sends from then
on carries that address.\<close>

theorem set_address_takes_effect:
  assumes "sig_dev_enable (sigs w)" and "is_setup tr s" and "bRequest s = USB_REQ_SET_ADDRESS"
  shows "\<exists>tr' w'. from_proto_b_transport rec_link (\<lambda>t w. w) tr d w = Inr (tr', d, w') \<and>
    response_status tr' = TLM_OK_RESPONSE \<and> sent w' = sent w \<and>
    unat (m_assigned_addr (dev_ctrl w')) = unat (wValue s) mod 128 \<and>
    (\<exists>p e. send_to_protocol rec_link t ep dr bs et w' = Inr (w'\<lparr>sent := sent w @ [p]\<rparr>) \<and>
       extension p = Some e \<and> unat (dev_addr e) = unat (wValue s) mod 128)"
proof -
  have "unat (ucast (wValue s AND 0x7F) :: u8) = unat (wValue s) mod 128"
    using unat_ucast_mask7 by blast
  then show ?thesis
    using assms
    by (simp add: from_proto_setup handle_setup_cases handle_set_address_def send_rec)
      (intro exI conjI, rule refl, simp, simp)
qed

lemma set_address_takes_effect_witness:
  "\<exists>tr' w'. from_proto_b_transport rec_link (\<lambda>t w. w)
      (setup_payload 0 (set_address_setup 200)) 0 rec_world = Inr (tr', 0, w') \<and>
    unat (m_assigned_addr (dev_ctrl w')) = 72"
proof -
  have "is_setup (setup_payload 0 (set_address_setup 200)) (set_address_setup 200)"
    by (simp add: is_setup_def)
  from set_address_takes_effect [OF rec_world_sel(2) this set_setup_sel(1), of 0]
  obtain tr' w' where "from_proto_b_transport rec_link (\<lambda>t w. w)
      (setup_payload 0 (set_address_setup 200)) 0 rec_world = Inr (tr', 0, w')"
    "unat (m_assigned_addr (dev_ctrl w')) = unat (wValue (set_address_setup 200)) mod 128"
    by blast
  then show ?thesis by auto
qed

text \<open>The endpoint FIFO holds one packet: a write replaces what was there, a read returns the
last write and empties it, and a second read finds nothing.\<close>

theorem fifo_keeps_last_write:
  "\<exists>f'. fifo_read (fold fifo_write (bss @ [bs]) f) = Some (bs, f') \<and> fifo_read f' = None \<and> fifo_ok f'"
  using fifo.get_store [of bs "fold fifo_write bss f"] fifo.get_get_store
  by fastforce

end
