(* ===== verification/Drd_Properties.thy ===== *)
theory Drd_Properties imports Role_Switch begin

text \<open>
  The properties of the role manager, the register file and the interrupt logic, and what holds
  in every reachable state of the DRD whatever the order of its processes.
\<close>

section \<open>Role manager\<close>

text \<open>C19. A wake-up of the role manager settles on one role: a pending device request before a
pending host request before what CC and VBUS ask for. It consumes the requests, drives the role
port, and raises the pulse exactly when the role changes.\<close>

theorem role_wake_decides:
  assumes "role_inv (RM_Wait, rm)"
  shows "\<exists>rm' p. role_detection_body cc vb rm = (rm', p) \<and>
    m_role rm' = (if m_device_requested rm then DEVICE else if m_host_requested rm then HOST
      else if \<not> vb then NONE else (case cc of CC_UFP_ATTACHED \<Rightarrow> HOST
        | CC_DFP_ATTACHED \<Rightarrow> DEVICE | CC_DISCONNECTED \<Rightarrow> NONE)) \<and>
    current_role rm' = m_role rm' \<and> (p \<longleftrightarrow> m_role rm' \<noteq> m_role rm) \<and> role_changed rm' = p \<and>
    \<not> m_host_requested rm' \<and> \<not> m_device_requested rm'"
  using assms
  by (cases cc) (auto simp: role_defs role_desired_def)

lemma role_wake_decides_witness:
  "\<exists>rm'. role_detection_body CC_UFP_ATTACHED True role_manager_new = (rm', True) \<and>
     m_role rm' = HOST \<and> role_changed rm'"
  using role_wake_decides [of role_manager_new CC_UFP_ATTACHED True]
  by (auto simp: role_manager_new_def)

text \<open>C18. The role manager refines a register holding a role and the strongest pending request:
every sequence of wake-ups, pulse ends and requests acts on it as on that register.\<close>

theorem role_manager_refines_register:
  "role_abs_of (fold run_event es rm) = fold abs_event es (role_abs_of rm)"
  by (rule role_abs_run)

section \<open>Reachable states\<close>

text \<open>C13. In every reachable state at most one controller is enabled, both as written and as the
controllers see it, and while a role switch settles neither is.\<close>

theorem enables_exclusive:
  assumes "drd_reachable s"
  shows "\<not> (host_enable (drd (sys s)) \<and> dev_enable (drd (sys s))) \<and>
    \<not> (sig_host_enable (sigs (sys s)) \<and> sig_dev_enable (sigs (sys s))) \<and>
    (\<forall>r. mon_at s = MON_Settle r \<longrightarrow> \<not> host_enable (drd (sys s)) \<and> \<not> dev_enable (drd (sys s)))"
  using drd_reachable_inv [OF assms] by (auto simp: system_inv_def enable_inv_def)

lemma enables_exclusive_witness:
  "\<exists>s. drd_reachable s \<and> \<not> (sig_host_enable (sigs (sys s)) \<and> sig_dev_enable (sigs (sys s)))"
  using enables_exclusive [OF drd_reach_init] drd_reach_init by blast

text \<open>In every reachable state the role port shows the role manager's role, and the pulse is
high exactly while the role manager is inside its 10 ns wait.\<close>

theorem role_port_shows_role:
  assumes "drd_reachable s"
  shows "current_role (role_mgr (sys s)) = m_role (role_mgr (sys s)) \<and>
    (role_changed (role_mgr (sys s)) \<longleftrightarrow> rm_at s = RM_Pulse)"
  using drd_reachable_inv [OF assms] by (simp add: system_inv_def)

lemma role_port_shows_role_witness:
  "current_role (role_mgr (sys drd_system_new)) = m_role (role_mgr (sys drd_system_new))"
  using role_port_shows_role [OF drd_reach_init] by blast

text \<open>C30. In every reachable state the interrupt line is high only with a pending interrupt, only
the four defined interrupt bits are ever pending, and the register block has its eight words.\<close>

theorem irq_has_cause:
  assumes "drd_reachable s"
  shows "(irq (drd (sys s)) \<longrightarrow> m_intr_status (drd (sys s)) \<noteq> 0) \<and>
    (\<forall>n. bit (m_intr_status (drd (sys s))) n \<longrightarrow> n \<in> {0, 3, 4, 5}) \<and>
    length (m_regs (drd (sys s))) = 8"
proof -
  have i: "intr_inv (drd (sys s))" using drd_reachable_inv [OF assms] by (simp add: system_inv_def)
  have m: "bit INTR_MASK n \<Longrightarrow> n \<in> {0, 3, 4, 5}" for n
    unfolding INTR_MASK_def intr_defs bit_or_iff bit_push_bit_iff bit_1_iff by auto
  show ?thesis
    using i m unfolding intr_inv_def by (metis bit_and_iff)
qed

lemma irq_has_cause_witness:
  "\<exists>s. drd_reachable s \<and> (\<forall>n. bit (m_intr_status (drd (sys s))) n \<longrightarrow> n \<in> {0, 3, 4, 5})"
  using irq_has_cause [OF drd_reach_init] drd_reach_init by blast

text \<open>C31. In every reachable state the device's address has seven bits, its \<open>configured\<close> port
shows its configuration, its descriptors are those it was built with, and an endpoint FIFO without
data is empty.\<close>

theorem device_state_invariant:
  assumes "drd_reachable s"
  shows "unat (m_assigned_addr (dev_ctrl (sys s))) < 128 \<and>
    configured (dev_ctrl (sys s)) = m_configured (dev_ctrl (sys s)) \<and>
    dev_descs (dev_ctrl (sys s)) = init_descriptors default_descriptor_set \<and>
    fifo_ok (m_ep1_in (dev_ctrl (sys s))) \<and> fifo_ok (m_ep2_out (dev_ctrl (sys s)))"
  using drd_reachable_inv [OF assms] by (simp add: system_inv_def dev_inv_def)

lemma device_state_invariant_witness:
  "unat (m_assigned_addr (dev_ctrl (sys drd_system_new))) < 128"
  using device_state_invariant [OF drd_reach_init] by blast

text \<open>C37. Once a SET_CONFIGURATION has configured the device it stays configured: no later step,
a role switch included, takes the configuration back.\<close>

theorem configured_for_good:
  assumes "drd_step\<^sup>*\<^sup>* s t" and "m_configured (dev_ctrl (sys s))"
  shows "m_configured (dev_ctrl (sys t))"
  using drd_steps_configured [OF assms] .

definition configured_start :: drd_system where
  "configured_start = drd_system_new\<lparr>sys := handle_set_configuration default_setup_pkt tb_new\<rparr>"

lemma configured_for_good_witness:
  "m_configured (dev_ctrl (update_signals (sys configured_start)))"
proof -
  have s: "drd_step\<^sup>*\<^sup>* configured_start (configured_start\<lparr>sys := update_signals (sys configured_start)\<rparr>)"
    by (rule r_into_rtranclp) (rule sys_core, rule sys_update)
  have "m_configured (dev_ctrl (sys configured_start))"
    by (simp add: configured_start_def handle_set_configuration_def)
  from configured_for_good [OF s this] show ?thesis by simp
qed

section \<open>Role switches\<close>

text \<open>A role switch that runs undisturbed, from any state in which both threads wait, ends with
the new role visible, exactly the controller of that role enabled (none for NONE), ROLE_CHANGED
pending, and the interrupt line high unless that interrupt is masked.\<close>

theorem role_switch_completes:
  assumes "rm_at s = RM_Wait" and "mon_at s = MON_Wait"
    and "role_target cc vb (role_mgr (sys s)) \<noteq> m_role (role_mgr (sys s))"
  shows "\<exists>t. run_acts (switch_acts cc vb) s = Some t \<and> rm_at t = RM_Wait \<and> mon_at t = MON_Wait \<and>
    (let r = role_target cc vb (role_mgr (sys s)); v = sigs (sys t); d = drd (sys t) in
      sig_role v = r \<and> sig_host_enable v = (r = HOST) \<and> sig_dev_enable v = (r = DEVICE) \<and>
      bit (m_intr_status d) 0 \<and> (bit (m_intr_enable (drd (sys s))) 0 \<longrightarrow> irq d))"
  using switch_result [OF assms(1,2) refl assms(3)] by (simp add: Let_def)

lemma role_switch_completes_witness:
  "\<exists>s t. drd_reachable s \<and> run_acts (switch_acts CC_UFP_ATTACHED True) s = Some t \<and>
     sig_host_enable (sigs (sys t)) \<and> \<not> sig_dev_enable (sigs (sys t)) \<and> irq (drd (sys t))"
proof -
  obtain s where s: "drd_reachable s" "rm_at s = RM_Wait" "mon_at s = MON_Wait"
    "role_mgr (sys s) = role_manager_new" "m_intr_enable (drd (sys s)) = 0xFFFFFFFF"
    using boot_result by blast
  then have t: "role_target CC_UFP_ATTACHED True (role_mgr (sys s)) = HOST"
    and "role_target CC_UFP_ATTACHED True (role_mgr (sys s)) \<noteq> m_role (role_mgr (sys s))"
    by (simp_all add: role_target_def role_desired_def role_manager_new_def)
  from role_switch_completes [OF s(2,3) this(2)] s t show ?thesis by (auto simp: Let_def)
qed


section \<open>Registers\<close>

text \<open>C29. A register access with a well-formed payload never touches memory outside its buffer: it
returns, an access of fewer than four bytes with an error and no effect, any other with OK after
10 ns.\<close>

theorem register_access_returns:
  assumes "payload_wf tr"
  shows "returns (cfg_b_transport tr d w) (\<lambda>(tr', d', w').
    if data_length tr < 4 then response_status tr' = TLM_GENERIC_ERROR_RESPONSE \<and> d' = d \<and> w' = w
    else response_status tr' = TLM_OK_RESPONSE \<and> d' = d + 10)"
  using cfg_returns [OF assms, of d w] by (rule returns_mono) auto

lemma register_access_returns_witness:
  "returns (cfg_b_transport (reg_payload TLM_READ_COMMAND REG_STATUS 0) 5 tb_new)
     (\<lambda>(tr', d', w'). response_status tr' = TLM_OK_RESPONSE \<and> d' = 15)"
proof -
  have "payload_wf (reg_payload TLM_READ_COMMAND REG_STATUS 0)"
    by (simp add: payload_wf_def reg_payload_def tlm_generic_payload_def)
  from register_access_returns [OF this, of 5 tb_new] show ?thesis
    by (rule returns_mono) (auto simp: reg_payload_def)
qed

lemma aligned_cases:
  assumes "unat (aligned a div 4) < 8"
  shows "aligned a \<in> {REG_CTRL, REG_STATUS, REG_ROLE_CTRL, REG_INTR_STATUS, REG_INTR_ENABLE,
    REG_DEV_ADDR, 0x18, REG_SPEED}"
proof -
  let ?q = "aligned a div 4"
  have "bit (aligned a) n = bit (push_bit 2 (drop_bit 2 (aligned a))) n" for n
    using le_Suc_ex [of 2 n] by (cases "2 \<le> n") (auto simp: bit_aligned bit_simps)
  then have "aligned a = push_bit 2 (drop_bit 2 (aligned a))"
    by (rule bit_eqI)
  then have a: "aligned a = ?q * 4"
    by (simp add: push_bit_eq_mult drop_bit_eq_div)
  obtain k :: nat where k: "?q = of_nat k" "k < 8"
    by (rule that [of "unat ?q"]) (use assms in simp_all)
  have "k \<in> {0, 1, 2, 3, 4, 5, 6, 7}" using k(2) by auto
  then show ?thesis using a unfolding k(1) by (auto simp: reg_defs)
qed

text \<open>C26. What a register reads after a write to it: INTR_ENABLE and the scratch word at 0x18 return
the value written, INTR_STATUS loses the bits written as one, and every other address, mapped or
not, reads as before.\<close>

theorem register_read_after_write:
  assumes "length (m_regs (drd w)) = 8"
  shows "bindR (reg_write a v w) (reg_read a) =
    (if aligned a = REG_INTR_ENABLE \<or> aligned a = 0x18 then Inr v
     else if aligned a = REG_INTR_STATUS then Inr (m_intr_status (drd w) AND NOT v)
     else reg_read a w)"
proof (cases "unat (aligned a div 4) < 8")
  case True
  from aligned_cases [OF this] assms show ?thesis
    by (auto simp: reg_write_eq reg_read_eq cfg_write_def cfg_read_def Let_def reg_defs)
next
  case False
  then have "aligned a \<notin> {REG_CTRL, REG_STATUS, REG_ROLE_CTRL, REG_INTR_STATUS, REG_INTR_ENABLE,
    REG_DEV_ADDR, 0x18, REG_SPEED}"
    by (auto simp: reg_defs)
  with False show ?thesis by (simp add: reg_write_eq reg_read_eq cfg_write_def cfg_read_def)
qed

lemma register_read_after_write_witness:
  "bindR (reg_write 0x1A 77 tb_new) (reg_read 0x1A) = Inr 77"
proof -
  have "length (m_regs (drd tb_new)) = 8"
    by (simp add: tb_new_def world.extend_def drd_new_def drd_controller_new_def)
  moreover have "aligned 0x1A = 0x18" by (simp add: aligned_def)
  ultimately show ?thesis using register_read_after_write [of tb_new "0x1A" 77] by simp
qed

text \<open>C28. Reading STATUS gives the visible role in bits 4 and 5 (where the testbench looks for it),
SuperSpeed in bits 8 to 10, a constant one in bit 16 and the device's \<open>configured\<close> signal in
bit 17.\<close>

theorem status_register_decodes:
  "returns (reg_read REG_STATUS w) (\<lambda>st.
     status_role st = ucast (role_val (sig_role (sigs w))) \<and>
     status_speed st = ucast (speed_val SUPER_SPEED) \<and>
     bit st 16 \<and> (bit st 17 \<longleftrightarrow> sig_configured (sigs w)))"
  using status_fields [of "sigs w"] by (simp add: reg_read_eq) (simp add: cfg_read_def)

text \<open>C27. Writing the interrupt status clears exactly the bits written as one; the line falls when
and only when none is left, and the mask, the enables and the role manager are untouched.\<close>

theorem interrupt_write_one_to_clear:
  "returns (reg_write REG_INTR_STATUS v w) (\<lambda>w'.
     (\<forall>n. bit (m_intr_status (drd w')) n \<longleftrightarrow> bit (m_intr_status (drd w)) n \<and> \<not> bit v n) \<and>
     (irq (drd w') \<longleftrightarrow> irq (drd w) \<and> m_intr_status (drd w') \<noteq> 0) \<and>
     m_intr_enable (drd w') = m_intr_enable (drd w) \<and>
     host_enable (drd w') = host_enable (drd w) \<and> dev_enable (drd w') = dev_enable (drd w) \<and>
     role_mgr w' = role_mgr w)"
proof -
  have "bit (x AND NOT v) n \<longleftrightarrow> bit x n \<and> \<not> bit v n" for x :: u32 and n
    by (auto simp: bit_simps dest: bit_imp_le_length)
  then show ?thesis
    by (simp add: reg_write_eq cfg_write_w1c Let_def cfg_write_role)
      (simp add: reg_defs)
qed

text \<open>Two addresses that agree in bits 2 to 31 name the same register: the upper half of the
64-bit address is dropped, so an access 4 GiB above the block reaches it as well.\<close>

theorem register_address_aliases:
  assumes "take_bit 30 (drop_bit 2 a) = take_bit 30 (drop_bit 2 b)"
  shows "reg_read a w = reg_read b w \<and> reg_write a v w = reg_write b v w"
  using aligned_alias [OF assms] by (simp add: reg_read_eq reg_write_eq)

lemma register_address_aliases_witness:
  "reg_write 0x100000008 2 tb_new = reg_write REG_ROLE_CTRL 2 tb_new"
proof -
  have "take_bit 30 (drop_bit 2 (0x100000008 :: u64)) = take_bit 30 (drop_bit 2 REG_ROLE_CTRL)"
    by (rule bit_word_eqI) (auto simp: bit_simps REG_ROLE_CTRL_def)
  from register_address_aliases [OF this, of tb_new 2] show ?thesis by blast
qed

text \<open>An event sets its status bit whether masked or not, never clears another, and asserts the
line exactly when an unmasked bit is pending at that moment.\<close>

theorem interrupt_event_accumulates:
  "(\<forall>n. bit (m_intr_status (raise_irq bits d)) n \<longleftrightarrow> bit (m_intr_status d) n \<or> bit bits n) \<and>
   (irq (raise_irq bits d) \<longleftrightarrow>
      irq d \<or> (\<exists>n. (bit (m_intr_status d) n \<or> bit bits n) \<and> bit (m_intr_enable d) n))"
proof -
  have "x \<noteq> 0 \<longleftrightarrow> (\<exists>n. bit x n)" for x :: u32
    by (metis bit_0_eq bit_eq_iff bot_apply bot_bool_def)
  then show ?thesis by (auto simp: bit_simps)
qed


end
