(* ===== verification/Host_Thread.thy ===== *)
theory Host_Thread imports Host_Controller begin

text \<open>
  \<open>host_main_process\<close> as the thread it is: a program counter for every place where it waits, and
  one definition per stretch of code between two waits. \<open>host_run\<close> strings the stretches together
  with a waiting function and is shown to compute what \<open>enumerate_device\<close> and
  \<open>process_transfer_ring\<close> of \<open>Host_Controller\<close> compute.
\<close>

section \<open>Program counters\<close>

text \<open>
  The locals of a running \<open>ctrl_transfer\<close>: its arguments and the buffer it was given. The stage
  says which call of \<open>enumerate_device\<close> it is and carries the locals that call needs afterwards.
\<close>

record ctrl_frame =
  cf_addr :: u8
  cf_setup :: usb3_setup_pkt
  cf_buf :: "u8 list"
  cf_out :: bool

datatype enum_stage = E_Device | E_Address u8 "u8 list" | E_Config | E_Bos | E_Configure

text \<open>
  \<open>H_Top\<close> and \<open>H_RingTop\<close> are the heads of the two loops, where the thread does not wait; the
  others are the places of its \<open>wait\<close> calls.
\<close>

datatype host_pc =
    H_Start
  | H_Top
  | H_Disabled
  | H_Setup enum_stage ctrl_frame
  | H_Data enum_stage ctrl_frame
  | H_Status enum_stage ctrl_frame bool
  | H_AddrSettle "u8 list"
  | H_EnumDone
  | H_RingTop
  | H_RingEmpty
  | H_XferDone

text \<open>How long a timed \<open>wait\<close> lasts; \<open>None\<close> where the thread waits for an event or not at all.\<close>

fun host_pause :: "host_pc \<Rightarrow> sc_time option" where
  "host_pause (H_Setup st f) = Some (SC_US 5)"
| "host_pause (H_Data st f) = Some (SC_US 5)"
| "host_pause (H_Status st f ok) = Some (SC_US 2)"
| "host_pause (H_AddrSettle buf) = Some (SC_MS 2)"
| "host_pause H_EnumDone = Some (SC_NS 10)"
| "host_pause H_XferDone = Some (SC_NS 1)"
| "host_pause _ = None"

section \<open>One control transfer\<close>

definition get_descriptor_frame :: "u8 \<Rightarrow> u8 \<Rightarrow> u8 list \<Rightarrow> ctrl_frame" where
  "get_descriptor_frame addr dtype buf =
     \<lparr> cf_addr = addr, cf_setup = get_descriptor_setup dtype 0, cf_buf = buf, cf_out = False \<rparr>"

definition set_address_frame :: "u8 \<Rightarrow> u8 \<Rightarrow> ctrl_frame" where
  "set_address_frame old_addr new_addr =
     \<lparr> cf_addr = old_addr, cf_setup = set_address_setup new_addr, cf_buf = [], cf_out = True \<rparr>"

definition set_configuration_frame :: "u8 \<Rightarrow> u8 \<Rightarrow> ctrl_frame" where
  "set_configuration_frame addr config_val =
     \<lparr> cf_addr = addr, cf_setup = set_configuration_setup config_val, cf_buf = [], cf_out = True \<rparr>"

text \<open>
  The start up to the first \<open>wait\<close>, the data stage (the third component tells whether the thread
  is now in the \<open>wait\<close> after an OUT data packet), and the status stage up to the last \<open>wait\<close>.
\<close>

definition ctrl_begin :: "('e world_scheme) b_transport \<Rightarrow> enum_stage \<Rightarrow> ctrl_frame \<Rightarrow>
    'e world_scheme \<Rightarrow> (host_pc \<times> 'e world_scheme) run" where
  "ctrl_begin to_protocol st f w =
     bindR (to_protocol (setup_payload (cf_addr f) (cf_setup f)) 0 w)
       (\<lambda>(tr, delay, w). Inr (H_Setup st f, w))"

definition ctrl_data :: "('e world_scheme) b_transport \<Rightarrow> ctrl_frame \<Rightarrow> 'e world_scheme \<Rightarrow>
    (ctrl_frame \<times> bool \<times> 'e world_scheme) run" where
  "ctrl_data to_protocol f w =
     (if unat (wLength (cf_setup f)) > 0 then
        if \<not> cf_out f then
          if m_resp_valid (host_ctrl w) then
            Inr (f\<lparr>cf_buf := m_resp_data (host_ctrl w)\<rparr>, False,
                 w\<lparr>host_ctrl := (host_ctrl w)\<lparr>m_resp_data := [], m_resp_valid := False\<rparr>\<rparr>)
          else Inr (f, False, w)
        else
          let out_buf = cf_buf f;
              out_buf = (if out_buf = [] then vec_resize (unat (wLength (cf_setup f))) 0 out_buf
                         else out_buf)
          in bindR (to_protocol (data_payload (cf_addr f) out_buf) 0 w)
               (\<lambda>(tr, delay, w). Inr (f, True, w))
      else Inr (f, False, w))"

definition ctrl_status :: "('e world_scheme) b_transport \<Rightarrow> enum_stage \<Rightarrow> ctrl_frame \<Rightarrow>
    'e world_scheme \<Rightarrow> (host_pc \<times> 'e world_scheme) run" where
  "ctrl_status to_protocol st f w =
     bindR (to_protocol (status_payload (cf_addr f) (cf_out f)) 0 w)
       (\<lambda>(tr, delay, w). Inr (H_Status st f (response_status tr = TLM_OK_RESPONSE), w))"

text \<open>What \<open>enumerate_device\<close> does with the result of the call at a stage, up to the next \<open>wait\<close>.\<close>

fun enum_next :: "('e world_scheme) b_transport \<Rightarrow> enum_stage \<Rightarrow> u8 list \<Rightarrow> bool \<Rightarrow>
    'e world_scheme \<Rightarrow> (host_pc \<times> 'e world_scheme) run" where
  "enum_next tp E_Device buf ok w =
     (if \<not> ok then Inr (H_RingTop, w) else
      let w = put_dev (parse_dev_desc buf) w;
          new_addr = m_next_addr (host_ctrl w);
          w = w\<lparr>host_ctrl := (host_ctrl w)\<lparr>m_next_addr := new_addr + 1\<rparr>\<rparr>
      in ctrl_begin tp (E_Address new_addr buf) (set_address_frame 0 new_addr) w)"
| "enum_next tp (E_Address new_addr desc_buf) buf ok w =
     (if \<not> ok then Inr (H_RingTop, w) else
      let w = put_dev (\<lambda>d. d\<lparr>di_addr := new_addr\<rparr>) w;
          w = w\<lparr>host_ctrl := (host_ctrl w)\<lparr>dev_addr_out := new_addr\<rparr>\<rparr>
      in Inr (H_AddrSettle desc_buf, w))"
| "enum_next tp E_Config buf ok w =
     (if \<not> ok then Inr (H_RingTop, w) else
      let w = put_dev (parse_cfg_desc buf) w
      in ctrl_begin tp E_Bos
           (get_descriptor_frame (di_addr (m_dev (host_ctrl w))) USB_DESC_BOS []) w)"
| "enum_next tp E_Bos buf ok w =
     ctrl_begin tp E_Configure (set_configuration_frame (di_addr (m_dev (host_ctrl w))) 1) w"
| "enum_next tp E_Configure buf ok w =
     (if \<not> ok then Inr (H_RingTop, w) else
      let w = put_dev (\<lambda>d. d\<lparr>active_config := 1, enumerated := True\<rparr>) w
      in Inr (H_EnumDone, w\<lparr>host_ctrl := (host_ctrl w)\<lparr>enumeration_done := True\<rparr>\<rparr>))"

section \<open>The stretches of the thread\<close>

text \<open>The loop body of \<open>host_main_process\<close> once the controller is enabled.\<close>

definition host_enumerate :: "('e world_scheme) b_transport \<Rightarrow> 'e world_scheme \<Rightarrow>
    (host_pc \<times> 'e world_scheme) run" where
  "host_enumerate to_protocol w =
     ctrl_begin to_protocol E_Device (get_descriptor_frame 0 USB_DESC_DEVICE [])
       (w\<lparr>host_ctrl := (host_ctrl w)\<lparr>m_dev := default_device_info\<rparr>\<rparr>)"

text \<open>One TRB, from its removal from the ring to the \<open>wait\<close> of the completion pulse.\<close>

definition trb_segment :: "('e world_scheme) b_transport \<Rightarrow> 'e world_scheme \<Rightarrow>
    (host_pc \<times> 'e world_scheme) run" where
  "trb_segment to_protocol w =
     bindR (ring_dequeue (m_transfer_ring (host_ctrl w))) (\<lambda>(trb, r).
     bindR (to_protocol (trb_to_payload trb) 0
              (w\<lparr>host_ctrl := (host_ctrl w)\<lparr>m_transfer_ring := r\<rparr>\<rparr>)) (\<lambda>(tr, delay, w).
     let w = (if trb_direction trb = DEVICE_TO_HOST \<and> m_resp_valid (host_ctrl w)
              then w\<lparr>host_ctrl := (host_ctrl w)\<lparr>m_rx_buf := m_resp_data (host_ctrl w),
                       m_resp_data := [], m_resp_valid := False\<rparr>\<rparr>
              else w) in
     if trb_ioc trb
     then Inr (H_XferDone, w\<lparr>host_ctrl := (host_ctrl w)\<lparr>transfer_done := True\<rparr>\<rparr>)
     else Inr (H_RingTop, w)))"

fun host_segment :: "('e world_scheme) b_transport \<Rightarrow> host_pc \<Rightarrow> 'e world_scheme \<Rightarrow>
    (host_pc \<times> 'e world_scheme) run" where
  "host_segment tp H_Start w = Inr (H_Top, w\<lparr>host_ctrl := host_main_start (host_ctrl w)\<rparr>)"
| "host_segment tp H_Top w =
     (if \<not> sig_host_enable (sigs w) then Inr (H_Disabled, w) else host_enumerate tp w)"
| "host_segment tp H_Disabled w = host_enumerate tp w"
| "host_segment tp (H_Setup st f) w =
     bindR (ctrl_data tp f w) (\<lambda>(f, sent_data, w).
       if sent_data then Inr (H_Data st f, w) else ctrl_status tp st f w)"
| "host_segment tp (H_Data st f) w = ctrl_status tp st f w"
| "host_segment tp (H_Status st f ok) w = enum_next tp st (cf_buf f) ok w"
| "host_segment tp (H_AddrSettle buf) w =
     ctrl_begin tp E_Config
       (get_descriptor_frame (di_addr (m_dev (host_ctrl w))) USB_DESC_CONFIGURATION buf) w"
| "host_segment tp H_EnumDone w =
     Inr (H_RingTop, w\<lparr>host_ctrl := (host_ctrl w)\<lparr>enumeration_done := False\<rparr>\<rparr>)"
| "host_segment tp H_RingTop w =
     (if \<not> sig_host_enable (sigs w) then Inr (H_Top, w)
      else if ring_empty (m_transfer_ring (host_ctrl w)) then Inr (H_RingEmpty, w)
      else trb_segment tp w)"
| "host_segment tp H_RingEmpty w = Inr (H_RingTop, w)"
| "host_segment tp H_XferDone w =
     Inr (H_RingTop, w\<lparr>host_ctrl := (host_ctrl w)\<lparr>transfer_done := False\<rparr>\<rparr>)"

section \<open>Running the thread\<close>

text \<open>
  At most \<open>n\<close> stretches, with the waiting function applied at every timed wait, until the thread
  reaches a program counter of \<open>stop\<close>.
\<close>

definition host_resume :: "('e world_scheme) waiting \<Rightarrow> host_pc \<Rightarrow> 'e world_scheme \<Rightarrow>
    'e world_scheme" where
  "host_resume wt pc w = (case host_pause pc of None \<Rightarrow> w | Some t \<Rightarrow> wt t w)"

fun host_run :: "('e world_scheme) b_transport \<Rightarrow> ('e world_scheme) waiting \<Rightarrow> host_pc set \<Rightarrow> nat \<Rightarrow>
    host_pc \<Rightarrow> 'e world_scheme \<Rightarrow> (host_pc \<times> 'e world_scheme) run" where
  "host_run tp wt stop 0 pc w = Inr (pc, w)"
| "host_run tp wt stop (Suc n) pc w =
     (if pc \<in> stop then Inr (pc, w)
      else bindR (host_segment tp pc (host_resume wt pc w)) (\<lambda>(pc, w). host_run tp wt stop n pc w))"

lemma host_run_stop [simp]: "pc \<in> stop \<Longrightarrow> host_run tp wt stop n pc w = Inr (pc, w)"
  by (cases n) simp_all

lemma host_run_step:
  "pc \<notin> stop \<Longrightarrow> host_run tp wt stop (Suc n) pc w =
     bindR (host_segment tp pc (host_resume wt pc w)) (\<lambda>(pc, w). host_run tp wt stop n pc w)"
  by simp

declare host_run.simps(2) [simp del]

section \<open>The thread computes what the functions compute\<close>

definition ctrl_stop :: "host_pc set \<Rightarrow> bool" where
  "ctrl_stop stop \<longleftrightarrow> (\<forall>st f ok. H_Setup st f \<notin> stop \<and> H_Status st f ok \<notin> stop)"

lemma ctrl_run:
  assumes stop: "ctrl_stop stop" and f: "\<not> cf_out f \<or> wLength (cf_setup f) = 0"
  shows "bindR (ctrl_begin tp st f w) (\<lambda>(pc, w). host_run tp wt stop (Suc (Suc n)) pc w) =
    bindR (ctrl_transfer tp wt (cf_addr f) (cf_setup f) (cf_buf f) (cf_out f) w)
      (\<lambda>(ok, buf, w). bindR (enum_next tp st buf ok w) (\<lambda>(pc, w). host_run tp wt stop n pc w))"
proof -
  have pc: "H_Setup st f \<notin> stop" "H_Status st g ok \<notin> stop" for g ok
    using stop by (simp_all add: ctrl_stop_def)
  have d: "bindR (ctrl_data tp f w) (\<lambda>(f, sent_data, w). bindR
        (if sent_data then Inr (H_Data st f, w) else ctrl_status tp st f w) k) =
    bindR (ctrl_data_stage tp wt (cf_addr f) (cf_setup f) (cf_buf f) (cf_out f) w)
      (\<lambda>(buf, w). bindR (ctrl_status tp st (f\<lparr>cf_buf := buf\<rparr>) w) k)" for w and k :: "_ \<Rightarrow> 'b run"
    using f by (auto simp: ctrl_data_def ctrl_data_stage_def)
  have s: "bindR (ctrl_status tp st (f\<lparr>cf_buf := buf\<rparr>) w)
        (\<lambda>(pc, w). host_run tp wt stop (Suc n) pc w) =
    bindR (tp (status_payload (cf_addr f) (cf_out f)) 0 w) (\<lambda>(tr, delay, w).
      bindR (enum_next tp st buf (response_status tr = TLM_OK_RESPONSE) (wt 2000 w))
        (\<lambda>(pc, w). host_run tp wt stop n pc w))" for buf w
    by (simp add: ctrl_status_def run_simps host_run_step pc host_resume_def split_def)
  show ?thesis
    by (simp add: ctrl_begin_def ctrl_transfer_def bindR_assoc host_run_step pc d [unfolded split_def]
        s [unfolded split_def] host_resume_def split_def Let_def del: bindR_if)
qed

lemma frame_sel [simp]:
  "cf_addr (get_descriptor_frame a t b) = a" "cf_setup (get_descriptor_frame a t b) = get_descriptor_setup t 0"
  "cf_buf (get_descriptor_frame a t b) = b" "\<not> cf_out (get_descriptor_frame a t b)"
  "cf_addr (set_address_frame a n) = a" "cf_setup (set_address_frame a n) = set_address_setup n"
  "cf_buf (set_address_frame a n) = []" "cf_out (set_address_frame a n)"
  "cf_addr (set_configuration_frame a c) = a"
  "cf_setup (set_configuration_frame a c) = set_configuration_setup c"
  "cf_buf (set_configuration_frame a c) = []" "cf_out (set_configuration_frame a c)"
  by (simp_all add: get_descriptor_frame_def set_address_frame_def set_configuration_frame_def)

lemma ctrl_stop_ring: "ctrl_stop {H_RingTop}"
  by (simp add: ctrl_stop_def)

text \<open>The three kinds of calls, in the form \<open>ctrl_run\<close> produces them.\<close>

lemma ctrl_calls:
  "bindR (ctrl_transfer tp wt a (get_descriptor_setup t 0) buf False w) k =
     bindR (get_descriptor tp wt a t 0 buf w) k"
  "bindR (ctrl_transfer tp wt a (set_address_setup n) [] True w) (\<lambda>(ok, buf, w). h ok w) =
     bindR (set_address tp wt a n w) (\<lambda>(ok, w). h ok w)"
  "bindR (ctrl_transfer tp wt a (set_configuration_setup n) [] True w) (\<lambda>(ok, buf, w). h ok w) =
     bindR (set_configuration tp wt a n w) (\<lambda>(ok, w). h ok w)"
  by (simp_all add: get_descriptor_def set_address_def set_configuration_def bindR_assoc split_def)

lemma configure_run:
  "host_run tp wt {H_RingTop} (Suc (Suc (Suc (Suc (Suc (Suc (Suc (Suc n)))))))) (H_AddrSettle buf) w =
     bindR (enumerate_configure tp wt buf (wt 2000000 w)) (\<lambda>w. Inr (H_RingTop, w))"
  by (simp add: host_run_step [of "H_AddrSettle buf"] host_run_step [of H_EnumDone] host_resume_def
      ctrl_run [OF ctrl_stop_ring] ctrl_calls enumerate_configure_def Let_def run_simps
      cong: if_cong)

lemma enumerate_run:
  assumes "sig_host_enable (sigs w)"
  shows "host_run tp wt {H_RingTop} (13 + n) H_Top w =
    bindR (enumerate_device tp wt (w\<lparr>host_ctrl := (host_ctrl w)\<lparr>m_dev := default_device_info\<rparr>\<rparr>))
      (\<lambda>w. Inr (H_RingTop, w))"
proof -
  have n: "13 + n = Suc (Suc (Suc (Suc (Suc (Suc (Suc (Suc (Suc (Suc (Suc (Suc (Suc n))))))))))))" by simp
  show ?thesis
    unfolding n using assms
    by (simp add: host_run_step [of H_Top] host_resume_def host_enumerate_def
        ctrl_run [OF ctrl_stop_ring] ctrl_calls configure_run enumerate_device_def Let_def run_simps
        cong: if_cong)
qed

text \<open>One TRB: the stretch, and for a TRB with interrupt on completion the end of its pulse.\<close>

definition ring_stop :: "host_pc set" where "ring_stop = {H_RingEmpty, H_Top}"

lemma ring_stop_simps [simp]:
  "H_RingEmpty \<in> ring_stop" "H_Top \<in> ring_stop" "H_RingTop \<notin> ring_stop" "H_XferDone \<notin> ring_stop"
  by (simp_all add: ring_stop_def)

lemma trb_run:
  assumes "ring_dequeue (m_transfer_ring (host_ctrl w)) = Inr (trb, r)"
    and "run_trb tp wt trb (w\<lparr>host_ctrl := (host_ctrl w)\<lparr>m_transfer_ring := r\<rparr>\<rparr>) = Inr w'"
    and "sig_host_enable (sigs w)"
  shows "\<exists>k. k \<le> 2 \<and> k > 0 \<and> (\<forall>n. host_run tp wt ring_stop (k + n) H_RingTop w =
    host_run tp wt ring_stop n H_RingTop w')"
proof -
  have e: "\<not> ring_empty (m_transfer_ring (host_ctrl w))"
    using assms(1) by (cases "ring_queue (m_transfer_ring (host_ctrl w))")
      (simp_all add: ring_empty_def ring_dequeue_def)
  show ?thesis
  proof (cases "trb_ioc trb")
    case True
    then show ?thesis
      using assms e
      by (intro exI [of _ 2]) (auto simp: run_trb_def bindR_eq_Inr host_run_step host_resume_def
          trb_segment_def Let_def numeral_2_eq_2)
  next
    case False
    then show ?thesis
      using assms e
      by (intro exI [of _ 1]) (auto simp: run_trb_def bindR_eq_Inr host_run_step host_resume_def
          trb_segment_def Let_def)
  qed
qed

lemma ring_run:
  "process_transfer_ring tp wt n w = Inr (out, w') \<Longrightarrow> out \<noteq> RingFuel \<Longrightarrow>
   host_run tp wt ring_stop (2 * n + 1 + m) H_RingTop w =
     Inr (if out = RingLeft then H_Top else H_RingEmpty, w')"
proof (induction n arbitrary: w m)
  case 0
  then show ?case
    by (auto simp: process_transfer_ring.simps host_run_step host_resume_def split: if_splits)
next
  case (Suc n)
  consider "\<not> sig_host_enable (sigs w)"
    | "sig_host_enable (sigs w)" "ring_empty (m_transfer_ring (host_ctrl w))"
    | "sig_host_enable (sigs w)" "\<not> ring_empty (m_transfer_ring (host_ctrl w))" by blast
  then show ?case
  proof cases
    case 1
    with Suc.prems show ?thesis
      by (auto simp: process_transfer_ring.simps [of tp wt "Suc n"] host_run_step host_resume_def)
  next
    case 2
    with Suc.prems show ?thesis
      by (auto simp: process_transfer_ring.simps [of tp wt "Suc n"] host_run_step host_resume_def)
  next
    case 3
    with Suc.prems obtain trb r w1 where d: "ring_dequeue (m_transfer_ring (host_ctrl w)) = Inr (trb, r)"
      and t: "run_trb tp wt trb (w\<lparr>host_ctrl := (host_ctrl w)\<lparr>m_transfer_ring := r\<rparr>\<rparr>) = Inr w1"
      and p: "process_transfer_ring tp wt n w1 = Inr (out, w')"
      by (auto simp: process_transfer_ring.simps [of tp wt "Suc n"] bindR_eq_Inr)
    from trb_run [OF d t 3(1)] obtain k where k: "k \<le> 2" "k > 0"
      "\<And>n. host_run tp wt ring_stop (k + n) H_RingTop w = host_run tp wt ring_stop n H_RingTop w1"
      by blast
    from k(1) have "2 * Suc n + 1 + m = k + (2 * n + 1 + (m + (2 - k)))" by simp
    then show ?thesis using k(3) Suc.IH [OF p Suc.prems(2)] by metis
  qed
qed

end
