(* ===== verification/Sim_Kernel.thy ===== *)
theory Sim_Kernel imports Drd_System Host_Thread begin

text \<open>
  The program under the simulation kernel's rules: every process at its place in the code, the
  processes ready in the evaluation phase, the timed waits, the sensitivity of each process as
  the sources declare it. The kernel is a library, so its choices stay open: a ready process may
  run in any order, and the rest of the simulation (the testbench) may act at any time.
\<close>

section \<open>Processes\<close>

datatype process = P_Role | P_Monitor | P_Collect | P_Forward | P_Loopback | P_Host

definition all_processes :: "process list" where
  "all_processes = [P_Role, P_Monitor, P_Collect, P_Forward, P_Loopback, P_Host]"

lemma all_processes [simp]: "p \<in> set all_processes"
  by (cases p) (simp_all add: all_processes_def)

text \<open>
  \<open>tb_cc\<close> and \<open>tb_vbus\<close> are what the testbench last wrote to the signals behind the input ports,
  \<open>timers\<close> says when a process in a timed \<open>wait\<close> is due.
\<close>

record sim =
  sim_core :: drd_system
  host_at :: host_pc
  tb_cc :: usb_c_cc_state
  tb_vbus :: bool
  now :: sc_time
  ready :: "process list"
  timers :: "process \<Rightarrow> sc_time option"

abbreviation sim_world :: "sim \<Rightarrow> tb_world" where "sim_world s \<equiv> sys (sim_core s)"

text \<open>
  At the start every process runs once but \<open>interrupt_collector\<close> (\<open>dont_initialize\<close>). The first
  run of \<open>loopback_process\<close> has no code before its \<open>wait\<close> and is left out.
\<close>

definition sim_new :: sim where
  "sim_new = \<lparr> sim_core = drd_system_new, host_at = H_Start, tb_cc = CC_DISCONNECTED,
     tb_vbus = False, now = 0, ready = [P_Role, P_Monitor, P_Forward, P_Host],
     timers = (\<lambda>p. None) \<rparr>"

section \<open>One turn of a process\<close>

text \<open>
  The host thread up to its next \<open>wait\<close>: its stretches in a row while it is at the head of a
  loop. \<open>n\<close> bounds their number; a TRB without interrupt on completion costs one.
\<close>

definition at_wait :: "host_pc \<Rightarrow> bool" where
  "at_wait pc \<longleftrightarrow> pc \<notin> {H_Start, H_Top, H_RingTop}"

fun host_turn :: "('e world_scheme) b_transport \<Rightarrow> nat \<Rightarrow> host_pc \<Rightarrow> 'e world_scheme \<Rightarrow>
    (host_pc \<times> 'e world_scheme) run" where
  "host_turn tp 0 pc w = Inr (pc, w)"
| "host_turn tp (Suc n) pc w =
     bindR (host_segment tp pc w) (\<lambda>(pc, w).
       if at_wait pc then Inr (pc, w) else host_turn tp n pc w)"

declare host_turn.simps(2) [simp del]

definition host_fuel :: "'e world_scheme \<Rightarrow> nat" where
  "host_fuel w = 3 + length (ring_queue (m_transfer_ring (host_ctrl w)))"

text \<open>The process enters a timed \<open>wait\<close>, or a \<open>wait\<close> for events (\<open>None\<close>).\<close>

definition arm :: "process \<Rightarrow> sc_time option \<Rightarrow> sim \<Rightarrow> sim" where
  "arm p d s = (case d of None \<Rightarrow> s | Some t \<Rightarrow> s\<lparr>timers := (timers s)(p \<mapsto> now s + t)\<rparr>)"

abbreviation put_core :: "drd_system \<Rightarrow> sim \<Rightarrow> sim" where
  "put_core c s \<equiv> s\<lparr>sim_core := c\<rparr>"

definition rm_pause :: "rm_pc \<Rightarrow> sc_time option" where
  "rm_pause pc = (if pc = RM_Pulse then Some (SC_NS 10) else None)"

definition mon_pause :: "mon_pc \<Rightarrow> sc_time option" where
  "mon_pause pc = (case pc of MON_Settle r \<Rightarrow> Some (SC_US 1) | _ \<Rightarrow> None)"

definition lb_pause :: "bool \<Rightarrow> sc_time option" where
  "lb_pause p = (if p then Some (SC_NS 10) else None)"

definition role_turn :: "sim \<Rightarrow> sim" where
  "role_turn s = (let c = sim_core s; (pc, w) = rm_segment (rm_at c) (sys c)
     in arm P_Role (rm_pause pc) (put_core (c\<lparr>rm_at := pc, sys := w\<rparr>) s))"

definition monitor_turn :: "sim \<Rightarrow> sim" where
  "monitor_turn s = (let c = sim_core s; (pc, w) = mon_segment (mon_at c) (sys c)
     in arm P_Monitor (mon_pause pc) (put_core (c\<lparr>mon_at := pc, sys := w\<rparr>) s))"

definition collect_turn :: "sim \<Rightarrow> sim" where
  "collect_turn s = (let c = sim_core s; w = sys c
     in put_core (c\<lparr>sys := w\<lparr>drd := interrupt_collector (sigs w) (drd w)\<rparr>\<rparr>) s)"

definition forward_turn :: "sim \<Rightarrow> sim" where
  "forward_turn s = (let c = sim_core s; w = sys c
     in put_core (c\<lparr>sys := w\<lparr>drd := forward_inputs (cc_state w) (vbus w) (drd w)\<rparr>\<rparr>) s)"

definition loopback_turn :: "sim \<Rightarrow> sim run" where
  "loopback_turn s = (let c = sim_core s in
     bindR (if lb_pulse c then Inr (loopback_end (sys c), False)
            else loopback_body (dev_to_protocol (tb_link no_wait 2)) (sys c)) (\<lambda>(w, p).
       Inr (arm P_Loopback (lb_pause p) (put_core (c\<lparr>lb_pulse := p, sys := w\<rparr>) s))))"

definition host_thread_turn :: "sim \<Rightarrow> sim run" where
  "host_thread_turn s = (let c = sim_core s in
     bindR (host_turn (tb_host_socket no_wait 2) (host_fuel (sys c)) (host_at s) (sys c))
       (\<lambda>(pc, w). Inr (arm P_Host (host_pause pc) (put_core (c\<lparr>sys := w\<rparr>) s\<lparr>host_at := pc\<rparr>))))"

fun proc_turn :: "process \<Rightarrow> sim \<Rightarrow> sim run" where
  "proc_turn P_Role s = Inr (role_turn s)"
| "proc_turn P_Monitor s = Inr (monitor_turn s)"
| "proc_turn P_Collect s = Inr (collect_turn s)"
| "proc_turn P_Forward s = Inr (forward_turn s)"
| "proc_turn P_Loopback s = loopback_turn s"
| "proc_turn P_Host s = host_thread_turn s"

section \<open>The update and notification phase\<close>

text \<open>
  Which process the change of the signals from \<open>a\<close> to \<open>b\<close>, the change of the inputs (\<open>i\<close>) and
  the notified events make ready.
\<close>

definition posedge :: "bool \<Rightarrow> bool \<Rightarrow> bool" where
  "posedge a b \<longleftrightarrow> \<not> a \<and> b"

fun wakes :: "sim \<Rightarrow> drd_signals \<Rightarrow> bool \<Rightarrow> process \<Rightarrow> bool" where
  "wakes s b i P_Role =
     (let a = sigs (sim_world s) in rm_at (sim_core s) = RM_Wait \<and>
        (sig_cc_state_int a \<noteq> sig_cc_state_int b \<or> sig_vbus_int a \<noteq> sig_vbus_int b \<or>
         m_role_request_event (role_mgr (sim_world s))))"
| "wakes s b i P_Monitor = (mon_at (sim_core s) = MON_Wait \<and>
     posedge (sig_role_changed (sigs (sim_world s))) (sig_role_changed b))"
| "wakes s b i P_Collect =
     (let a = sigs (sim_world s) in sig_role_changed a \<noteq> sig_role_changed b \<or>
        sig_enum_done a \<noteq> sig_enum_done b \<or> sig_xfer_done a \<noteq> sig_xfer_done b \<or>
        posedge (sig_bulk_irq a) (sig_bulk_irq b))"
| "wakes s b i P_Forward = i"
| "wakes s b i P_Loopback = (\<not> lb_pulse (sim_core s) \<and> m_out_ep_event (dev_ctrl (sim_world s)))"
| "wakes s b i P_Host =
     (host_at s = H_Disabled \<and> posedge (sig_host_enable (sigs (sim_world s))) (sig_host_enable b) \<or>
      host_at s = H_RingEmpty \<and> m_trb_complete_event (host_ctrl (sim_world s)))"

definition inputs_pending :: "sim \<Rightarrow> bool" where
  "inputs_pending s \<longleftrightarrow> cc_state (sim_world s) \<noteq> tb_cc s \<or> vbus (sim_world s) \<noteq> tb_vbus s"

text \<open>No signal has a value waiting to be taken over, and no event is pending.\<close>

definition settled :: "sim \<Rightarrow> bool" where
  "settled s \<longleftrightarrow> \<not> inputs_pending s \<and> sigs (sim_world s) = bind_internal (sim_world s) \<and>
     \<not> events_pending (sim_world s)"

definition delta_world :: "sim \<Rightarrow> tb_world" where
  "delta_world s = (clear_events (update_signals (sim_world s)))\<lparr>cc_state := tb_cc s, vbus := tb_vbus s\<rparr>"

definition delta_cycle :: "sim \<Rightarrow> sim" where
  "delta_cycle s = (put_core ((sim_core s)\<lparr>sys := delta_world s\<rparr>) s)\<lparr>
     ready := filter (wakes s (bind_internal (sim_world s)) (inputs_pending s)) all_processes\<rparr>"

text \<open>Time moves to \<open>t\<close>; the processes due then become ready.\<close>

definition clear_due :: "sc_time \<Rightarrow> (process \<Rightarrow> sc_time option) \<Rightarrow> process \<Rightarrow> sc_time option" where
  "clear_due t f p = (case f p of None \<Rightarrow> None | Some u \<Rightarrow> if u = t then None else Some u)"

definition advance :: "sc_time \<Rightarrow> sim \<Rightarrow> sim" where
  "advance t s = s\<lparr>now := t, ready := filter (\<lambda>p. timers s p = Some t) all_processes,
     timers := clear_due t (timers s)\<rparr>"

section \<open>The steps of the simulation\<close>

text \<open>
  What the kernel does by itself: run a ready process, begin a new delta cycle when none is left,
  and move on to the next due time when nothing is left to do at the present one.
\<close>

inductive kernel_step :: "sim \<Rightarrow> sim \<Rightarrow> bool" where
  k_run: "p \<in> set (ready s) \<Longrightarrow> proc_turn p (s\<lparr>ready := removeAll p (ready s)\<rparr>) = Inr t \<Longrightarrow>
    kernel_step s t"
| k_delta: "ready s = [] \<Longrightarrow> \<not> settled s \<Longrightarrow> kernel_step s (delta_cycle s)"
| k_time: "ready s = [] \<Longrightarrow> settled s \<Longrightarrow> timers s p = Some t \<Longrightarrow>
    (\<And>q u. timers s q = Some u \<Longrightarrow> t \<le> u) \<Longrightarrow> kernel_step s (advance t s)"

text \<open>
  What the rest of the simulation may do: drive the inputs, access a register, call \<open>bulk_out\<close>
  or \<open>bulk_in\<close>, send any packet to \<open>upstream\<close>, or let time pass up to the next due time.
\<close>

inductive env_step :: "sim \<Rightarrow> sim \<Rightarrow> bool" where
  e_inputs: "env_step s (s\<lparr>tb_cc := cc, tb_vbus := vb\<rparr>)"
| e_cfg: "cfg_b_transport tr d (sim_world s) = Inr (tr', d', w) \<Longrightarrow>
    env_step s (put_core ((sim_core s)\<lparr>sys := w\<rparr>) s)"
| e_bulk_out: "bulk_out a ep bytes (host_ctrl (sim_world s)) = Inr h \<Longrightarrow>
    env_step s (put_core ((sim_core s)\<lparr>sys := (sim_world s)\<lparr>host_ctrl := h\<rparr>\<rparr>) s)"
| e_bulk_in: "bulk_in a ep n (host_ctrl (sim_world s)) = Inr h \<Longrightarrow>
    env_step s (put_core ((sim_core s)\<lparr>sys := (sim_world s)\<lparr>host_ctrl := h\<rparr>\<rparr>) s)"
| e_upstream: "tb_upstream no_wait 2 tr d (sim_world s) = Inr (tr', d', w) \<Longrightarrow>
    env_step s (put_core ((sim_core s)\<lparr>sys := w\<rparr>) s)"
| e_time: "ready s = [] \<Longrightarrow> settled s \<Longrightarrow> now s < t \<Longrightarrow>
    (\<And>q u. timers s q = Some u \<Longrightarrow> t \<le> u) \<Longrightarrow> env_step s (advance t s)"

inductive sim_reachable :: "sim \<Rightarrow> bool" where
  sim_init: "sim_reachable sim_new"
| sim_kernel: "sim_reachable s \<Longrightarrow> kernel_step s t \<Longrightarrow> sim_reachable t"
| sim_env: "sim_reachable s \<Longrightarrow> env_step s t \<Longrightarrow> sim_reachable t"

end
