(* ===== verification/Host_Progress.thy ===== *)
theory Host_Progress imports Sim_Kernel begin

text \<open>
  A turn of the host thread always ends at a \<open>wait\<close>, never aborts, and brings the thread closer
  to a place where it waits for an event. What a socket call may change of the host controller is
  a locale; the link of the testbench meets it.
\<close>

section \<open>What the host thread reads\<close>

text \<open>The host controller without the response buffer, and the part of the DRD no call touches.\<close>

definition host_view :: "tb_world \<Rightarrow> _" where
  "host_view w = (m_next_addr (host_ctrl w), m_dev (host_ctrl w), m_transfer_ring (host_ctrl w),
     m_trb_complete_event (host_ctrl w), transfer_done (host_ctrl w),
     enumeration_done (host_ctrl w), dev_addr_out (host_ctrl w), drd_rest w)"

interpretation host_kept: thread_invariant "\<lambda>w. host_view w = c" "\<lambda>t w. w" for c
  by unfold_locales (simp_all add: host_view_def drd_rest_def)

definition ring_len :: "'e world_scheme \<Rightarrow> nat" where
  "ring_len w = length (ring_queue (m_transfer_ring (host_ctrl w)))"

section \<open>The invariant of the thread\<close>

text \<open>The places where the host has assigned the address it shows on its port.\<close>

fun addr_known :: "host_pc \<Rightarrow> bool" where
  "addr_known (H_Setup st f) = (st \<in> {E_Config, E_Bos, E_Configure})"
| "addr_known (H_Data st f) = (st \<in> {E_Config, E_Bos, E_Configure})"
| "addr_known (H_Status st f ok) = (st \<in> {E_Config, E_Bos, E_Configure})"
| "addr_known (H_AddrSettle buf) = True"
| "addr_known pc = False"

fun in_enumeration :: "host_pc \<Rightarrow> bool" where
  "in_enumeration (H_Setup st f) = True"
| "in_enumeration (H_Data st f) = True"
| "in_enumeration (H_Status st f ok) = True"
| "in_enumeration (H_AddrSettle buf) = True"
| "in_enumeration pc = False"

definition host_inv :: "host_pc \<Rightarrow> host_controller \<Rightarrow> bool" where
  "host_inv pc h \<longleftrightarrow>
     (enumeration_done h \<longleftrightarrow> pc = H_EnumDone) \<and> (transfer_done h \<longleftrightarrow> pc = H_XferDone) \<and>
     (in_enumeration pc \<or> pc = H_Start \<longrightarrow> \<not> enumerated (m_dev h)) \<and>
     (addr_known pc \<or> enumerated (m_dev h) \<longrightarrow> di_addr (m_dev h) = dev_addr_out h) \<and>
     (pc = H_EnumDone \<longrightarrow> enumerated (m_dev h)) \<and>
     (enumerated (m_dev h) \<longrightarrow> active_config (m_dev h) = 1) \<and> ring_ok (m_transfer_ring h)"

lemma host_inv_view: "host_view w' = host_view w \<Longrightarrow> host_inv pc (host_ctrl w') = host_inv pc (host_ctrl w)"
  by (simp add: host_view_def host_inv_def)

lemma host_view_rest: "host_view w' = host_view w \<Longrightarrow> drd_rest w' = drd_rest w"
  by (simp add: host_view_def)

section \<open>How far a place is from the next event\<close>

fun stage_rank :: "enum_stage \<Rightarrow> nat" where
  "stage_rank E_Device = 17"
| "stage_rank (E_Address a b) = 14"
| "stage_rank E_Config = 10"
| "stage_rank E_Bos = 7"
| "stage_rank E_Configure = 4"

lemma stage_rank_pos [simp]: "0 < stage_rank st"
  by (cases st) simp_all

text \<open>
  The rank of a place with \<open>r\<close> TRBs in the ring; a thread resting at an event \<open>wait\<close> has rank 0,
  \<open>woken_rank\<close> is the rank it gets when the event comes.
\<close>

fun pc_rank :: "nat \<Rightarrow> host_pc \<Rightarrow> nat" where
  "pc_rank r H_Start = 2 * r + 21"
| "pc_rank r H_Top = 2 * r + 20"
| "pc_rank r H_Disabled = 0"
| "pc_rank r (H_Setup st f) = 2 * r + stage_rank st + 2"
| "pc_rank r (H_Data st f) = 2 * r + stage_rank st + 1"
| "pc_rank r (H_Status st f ok) = 2 * r + stage_rank st"
| "pc_rank r (H_AddrSettle buf) = 2 * r + 13"
| "pc_rank r H_EnumDone = 2 * r + 3"
| "pc_rank r H_RingTop = 2 * r + 2"
| "pc_rank r H_RingEmpty = 0"
| "pc_rank r H_XferDone = 2 * r + 3"

definition woken_rank :: "nat \<Rightarrow> host_pc \<Rightarrow> nat" where
  "woken_rank r pc = (if pc = H_Disabled then 2 * r + 20 else if pc = H_RingEmpty then 2 * r + 3
     else pc_rank r pc)"

text \<open>An upper bound for the stretches left in the turn.\<close>

fun turn_len :: "nat \<Rightarrow> host_pc \<Rightarrow> nat" where
  "turn_len r H_Top = 1"
| "turn_len r H_RingTop = r + 2"
| "turn_len r pc = r + 3"

text \<open>
  What one stretch does. The thread goes to sleep on an empty ring or a low enable. At the head of the main loop with the controller disabled the thread
  goes to sleep, so the rank of \<open>H_Top\<close> counts only when it is enabled.
\<close>

definition seg_rank :: "bool \<Rightarrow> nat \<Rightarrow> host_pc \<Rightarrow> nat" where
  "seg_rank e r pc = (if pc = H_Top \<and> \<not> e then 1 else woken_rank r pc)"

definition asleep :: "host_pc \<Rightarrow> tb_world \<Rightarrow> bool" where
  "asleep pc w \<longleftrightarrow> (pc = H_RingEmpty \<longrightarrow> ring_len w = 0) \<and> (pc = H_Disabled \<longrightarrow> \<not> sig_host_enable (sigs w))"

definition seg_post :: "host_pc \<Rightarrow> tb_world \<Rightarrow> host_pc \<times> tb_world \<Rightarrow> bool" where
  "seg_post pc w r \<longleftrightarrow> (let (pc', w') = r in
     drd_rest w' = drd_rest w \<and> host_inv pc' (host_ctrl w') \<and> pc' \<noteq> H_Start \<and>
     m_trb_complete_event (host_ctrl w') = m_trb_complete_event (host_ctrl w) \<and>
     ring_len w' \<le> ring_len w \<and> asleep pc' w' \<and>
     (if at_wait pc' then pc_rank (ring_len w') pc' < seg_rank (sig_host_enable (sigs w)) (ring_len w) pc
      else turn_len (ring_len w') pc' < turn_len (ring_len w) pc \<and>
        seg_rank (sig_host_enable (sigs w)) (ring_len w') pc' <
          seg_rank (sig_host_enable (sigs w)) (ring_len w) pc))"

text \<open>What a whole turn does.\<close>

definition turn_post :: "host_pc \<Rightarrow> tb_world \<Rightarrow> host_pc \<times> tb_world \<Rightarrow> bool" where
  "turn_post pc w r \<longleftrightarrow> (let (pc', w') = r in
     drd_rest w' = drd_rest w \<and> host_inv pc' (host_ctrl w') \<and> at_wait pc' \<and>
     m_trb_complete_event (host_ctrl w') = m_trb_complete_event (host_ctrl w) \<and>
     ring_len w' \<le> ring_len w \<and> asleep pc' w' \<and>
     pc_rank (ring_len w') pc' < seg_rank (sig_host_enable (sigs w)) (ring_len w) pc)"

section \<open>The stretches over a quiet socket\<close>

text \<open>A socket whose calls return and leave what the host thread reads alone.\<close>

locale quiet_socket =
  fixes tp :: "tb_world b_transport"
  assumes quiet: "payload_wf tr \<Longrightarrow>
    returns (tp tr d w) (\<lambda>(tr', d', w'). payload_wf tr' \<and> host_view w' = host_view w)"
begin

lemma begin_post:
  "returns (ctrl_begin tp st f w) (\<lambda>(pc', w'). pc' = H_Setup st f \<and> host_view w' = host_view w)"
  by (auto simp: ctrl_begin_def intro!: returns_bind [OF quiet])

lemma data_post:
  "returns (ctrl_data tp f w) (\<lambda>(f', b, w'). host_view w' = host_view w)"
  by (auto simp: ctrl_data_def Let_def intro!: returns_bind [OF quiet])
    (simp_all add: host_view_def drd_rest_def)

lemma status_post:
  "returns (ctrl_status tp st f w)
     (\<lambda>(pc', w'). (\<exists>ok. pc' = H_Status st f ok) \<and> host_view w' = host_view w)"
  by (auto simp: ctrl_status_def intro!: returns_bind [OF quiet])

lemma begin_seg:
  assumes "host_inv (H_Setup st f) (host_ctrl v)" and "drd_rest v = drd_rest w"
    and "m_trb_complete_event (host_ctrl v) = m_trb_complete_event (host_ctrl w)"
    and "ring_len v = ring_len w"
    and "2 * ring_len w + stage_rank st + 2 < seg_rank (sig_host_enable (sigs w)) (ring_len w) pc"
  shows "returns (ctrl_begin tp st f v) (seg_post pc w)"
proof (rule returns_mono [OF begin_post])
  fix r
  assume "(\<lambda>(pc', w'). pc' = H_Setup st f \<and> host_view w' = host_view v) r"
  then obtain w' where r: "r = (H_Setup st f, w')" "host_view w' = host_view v" by auto
  from r(2) have "ring_len w' = ring_len v" "m_trb_complete_event (host_ctrl w') =
      m_trb_complete_event (host_ctrl v)" by (simp_all add: host_view_def ring_len_def)
  with assms host_inv_view [OF r(2)] host_view_rest [OF r(2)] r(1)
  show "seg_post pc w r" by (simp add: asleep_def seg_post_def at_wait_def)
qed

lemma status_seg:
  assumes "host_inv (H_Setup st f) (host_ctrl w)" and "host_view v = host_view w"
    and "2 * ring_len w + stage_rank st < seg_rank (sig_host_enable (sigs w)) (ring_len w) pc"
  shows "returns (ctrl_status tp st g v) (seg_post pc w)"
proof (rule returns_mono [OF status_post])
  fix r
  assume "(\<lambda>(pc', w'). (\<exists>ok. pc' = H_Status st g ok) \<and> host_view w' = host_view v) r"
  then obtain w' ok where r: "r = (H_Status st g ok, w')" "host_view w' = host_view w"
    using assms(2) by auto
  from r(2) have "ring_len w' = ring_len w" "m_trb_complete_event (host_ctrl w') =
      m_trb_complete_event (host_ctrl w)" by (simp_all add: host_view_def ring_len_def)
  moreover have "host_inv (H_Status st g ok) (host_ctrl w)"
    using assms(1) by (cases st) (simp_all add: host_inv_def)
  ultimately show "seg_post pc w r"
    using assms host_inv_view [OF r(2)] host_view_rest [OF r(2)] r(1)
    by (simp add: asleep_def seg_post_def at_wait_def)
qed

lemma next_seg:
  assumes "host_inv (H_Status st f ok) (host_ctrl w)"
  shows "returns (enum_next tp st buf ok w) (seg_post (H_Status st f ok) w)"
proof (cases st)
  case E_Device
  with assms show ?thesis
    by (cases ok) (auto simp: Let_def put_dev_def parse_dev_desc_def host_inv_def asleep_def seg_post_def at_wait_def
        ring_len_def seg_rank_def woken_rank_def drd_rest_def intro!: begin_seg)
next
  case (E_Address a b)
  with assms show ?thesis
    by (cases ok) (auto simp: Let_def put_dev_def host_inv_def asleep_def seg_post_def at_wait_def
        ring_len_def seg_rank_def woken_rank_def drd_rest_def)
next
  case E_Config
  with assms show ?thesis
    by (cases ok) (auto simp: Let_def put_dev_def parse_cfg_desc_def host_inv_def asleep_def seg_post_def at_wait_def
        ring_len_def seg_rank_def woken_rank_def drd_rest_def intro!: begin_seg)
next
  case E_Bos
  with assms show ?thesis
    by (auto simp: host_inv_def ring_len_def seg_rank_def woken_rank_def intro!: begin_seg)
next
  case E_Configure
  with assms show ?thesis
    by (cases ok) (auto simp: Let_def put_dev_def host_inv_def asleep_def seg_post_def at_wait_def
        ring_len_def seg_rank_def woken_rank_def drd_rest_def)
qed

text \<open>A TRB leaves the ring, whether or not the thread then waits for its pulse.\<close>

lemma trb_seg:
  assumes inv: "host_inv H_RingTop (host_ctrl w)" and ne: "ring_len w > 0"
  shows "returns (trb_segment tp w) (seg_post H_RingTop w)"
proof -
  from ne obtain t ts where q: "ring_queue (m_transfer_ring (host_ctrl w)) = t # ts"
    by (cases "ring_queue (m_transfer_ring (host_ctrl w))") (simp_all add: ring_len_def)
  let ?v = "w\<lparr>host_ctrl := (host_ctrl w)\<lparr>m_transfer_ring := (m_transfer_ring (host_ctrl w))\<lparr>ring_queue := ts\<rparr>\<rparr>\<rparr>"
  have post: "seg_post H_RingTop w
      (if trb_ioc t then (H_XferDone, u\<lparr>host_ctrl := (host_ctrl u)\<lparr>transfer_done := True\<rparr>\<rparr>)
       else (H_RingTop, u))" if "host_view u = host_view ?v" for u
    using that inv q
    by (auto simp: host_view_def asleep_def seg_post_def at_wait_def host_inv_def ring_len_def seg_rank_def
        woken_rank_def drd_rest_def ring_ok_def)
  have "returns (tp (trb_to_payload t) 0 ?v) (\<lambda>(tr', d', w'). payload_wf tr' \<and> host_view w' = host_view ?v)"
    by (rule quiet) simp
  then obtain tr d u where u: "tp (trb_to_payload t) 0 ?v = Inr (tr, d, u)" "host_view u = host_view ?v"
    by (auto elim!: returnsE)
  let ?u = "if trb_direction t = DEVICE_TO_HOST \<and> m_resp_valid (host_ctrl u)
      then u\<lparr>host_ctrl := (host_ctrl u)\<lparr>m_rx_buf := m_resp_data (host_ctrl u), m_resp_data := [],
        m_resp_valid := False\<rparr>\<rparr> else u"
  have "host_view ?u = host_view ?v" using u(2) by (simp add: host_view_def drd_rest_def)
  from post [OF this] show ?thesis
    by (cases "trb_direction t = DEVICE_TO_HOST \<and> m_resp_valid (host_ctrl u)"; cases "trb_ioc t")
      (auto simp: trb_segment_def ring_dequeue_def q u(1))
qed

lemma host_segment_post:
  assumes inv: "host_inv pc (host_ctrl w)"
  shows "returns (host_segment tp pc w) (seg_post pc w)"
proof (cases pc)
  case H_Start
  with inv show ?thesis
    by (auto simp: host_main_start_def asleep_def seg_post_def at_wait_def host_inv_def ring_len_def
        seg_rank_def woken_rank_def drd_rest_def)
next
  case H_Top
  with inv show ?thesis
    by (auto simp: host_enumerate_def default_device_info_def asleep_def seg_post_def at_wait_def host_inv_def
        ring_len_def seg_rank_def woken_rank_def drd_rest_def intro!: begin_seg)
next
  case H_Disabled
  with inv show ?thesis
    by (auto simp: host_enumerate_def default_device_info_def host_inv_def
        ring_len_def seg_rank_def woken_rank_def drd_rest_def intro!: begin_seg)
next
  case (H_Setup st f)
  have d: "returns (ctrl_data tp f w) (\<lambda>(f', b, w'). host_view w' = host_view w)"
    by (rule data_post)
  have data: "seg_post pc w (H_Data st g, v)" if v: "host_view v = host_view w" for g v
  proof -
    from v have "ring_len v = ring_len w" "m_trb_complete_event (host_ctrl v) =
        m_trb_complete_event (host_ctrl w)" by (simp_all add: host_view_def ring_len_def)
    moreover have "host_inv (H_Data st g) (host_ctrl w)"
      using inv H_Setup by (simp add: host_inv_def)
    ultimately show ?thesis
      using host_inv_view [OF v] host_view_rest [OF v] H_Setup
      by (simp add: asleep_def seg_post_def at_wait_def seg_rank_def woken_rank_def)
  qed
  have status: "returns (ctrl_status tp st g v) (seg_post pc w)" if v: "host_view v = host_view w" for g v
    using inv H_Setup v by (intro status_seg [of st f]) (simp_all add: seg_rank_def woken_rank_def)
  show ?thesis
    using returns_bind [OF d, of "\<lambda>(f, sent_data, w). if sent_data then Inr (H_Data st f, w)
      else ctrl_status tp st f w" "seg_post pc w"] data status H_Setup by auto
next
  case (H_Data st f)
  with inv show ?thesis
    by (auto intro!: status_seg [of st f] simp: seg_rank_def woken_rank_def host_inv_def)
next
  case (H_Status st f ok)
  with inv next_seg [of st f ok w] show ?thesis by simp
next
  case (H_AddrSettle buf)
  with inv show ?thesis
    by (auto simp: host_inv_def seg_rank_def woken_rank_def intro!: begin_seg)
next
  case H_EnumDone
  with inv show ?thesis
    by (auto simp: asleep_def seg_post_def at_wait_def host_inv_def ring_len_def seg_rank_def woken_rank_def
        drd_rest_def)
next
  case H_RingTop
  with inv trb_seg [of w] show ?thesis
    by (auto simp: asleep_def seg_post_def at_wait_def host_inv_def ring_len_def seg_rank_def woken_rank_def
        ring_empty_def)
next
  case H_RingEmpty
  with inv show ?thesis
    by (auto simp: asleep_def seg_post_def at_wait_def host_inv_def ring_len_def seg_rank_def woken_rank_def)
next
  case H_XferDone
  with inv show ?thesis
    by (auto simp: asleep_def seg_post_def at_wait_def host_inv_def ring_len_def seg_rank_def woken_rank_def
        drd_rest_def)
qed

text \<open>A whole turn.\<close>

lemma host_turn_post:
  "host_inv pc (host_ctrl w) \<Longrightarrow> turn_len (ring_len w) pc \<le> n \<Longrightarrow>
   returns (host_turn tp n pc w) (turn_post pc w)"
proof (induction n arbitrary: pc w)
  case 0
  then show ?case by (cases pc) simp_all
next
  case (Suc n)
  have "returns (if at_wait pc' then Inr (pc', w') else host_turn tp n pc' w') (turn_post pc w)"
    if p: "seg_post pc w (pc', w')" for pc' w'
  proof (cases "at_wait pc'")
    case True
    with p show ?thesis by (simp add: asleep_def seg_post_def turn_post_def)
  next
    case False
    with p Suc.prems(2) have "turn_len (ring_len w') pc' \<le> n" "host_inv pc' (host_ctrl w')"
      by (simp_all add: asleep_def seg_post_def)
    from Suc.IH [OF this(2,1)] show ?thesis
      using p False by (auto simp: asleep_def seg_post_def turn_post_def drd_rest_def elim!: returns_mono)
  qed
  with returns_bind [OF host_segment_post [OF Suc.prems(1)], of _ "turn_post pc w"]
  show ?case by (auto simp: host_turn.simps(2))
qed

end

text \<open>The testbench's link is quiet.\<close>

interpretation tb_quiet: quiet_socket "tb_host_socket no_wait 2"
proof
  fix tr :: payload and d and w :: tb_world
  assume wf: "payload_wf tr"
  have "returns (tb_host_socket no_wait 2 tr d w) (bt_post (\<lambda>w. True))"
    using tb.host.socket_safe [of no_wait 0] wf by (simp add: numeral_2_eq_2 safe_bt_def)
  moreover have "after_run (tb_host_socket no_wait 2 tr d w) (\<lambda>r. host_view (snd (snd r)) = host_view w)"
    by (rule keeps_btD [OF host_kept.host_socket_keeps refl])
  ultimately show "returns (tb_host_socket no_wait 2 tr d w)
      (\<lambda>(tr', d', w'). payload_wf tr' \<and> host_view w' = host_view w)"
    by (auto elim!: returnsE)
qed

lemma turn_len_fuel: "turn_len (ring_len w) pc \<le> host_fuel w"
  by (cases pc) (simp_all add: host_fuel_def ring_len_def)

lemmas host_turn_ok = tb_quiet.host_turn_post [OF _ turn_len_fuel]

end
