(* ===== verification/Sim_Invariants.thy ===== *)
theory Sim_Invariants imports Host_Progress begin

text \<open>
  The simulation refines the system of \<open>Drd_System\<close>: every turn of a process is a sequence of its
  steps. With it, the invariant of the simulation: no timed wait is lost, and every process in the
  ready list is there for a reason its code can see.
\<close>

section \<open>Turns as steps of the system\<close>

text \<open>What is closed under the calls and the member updates of the host thread.\<close>

locale host_closed =
  fixes I :: "tb_world \<Rightarrow> bool" and tp :: "tb_world b_transport"
  assumes closed_call: "keeps_bt I tp"
    and closed_host: "I w \<Longrightarrow> I (w\<lparr>host_ctrl := h\<rparr>)"
begin

lemma begin_closed: "I w \<Longrightarrow> after_run (ctrl_begin tp st f w) (\<lambda>r. I (snd r))"
  by (auto simp: ctrl_begin_def intro!: after_bind [OF keeps_btD [OF closed_call]])

lemma data_closed: "I w \<Longrightarrow> after_run (ctrl_data tp f w) (\<lambda>r. I (snd (snd r)))"
  by (auto simp: ctrl_data_def Let_def intro!: after_bind [OF keeps_btD [OF closed_call]] closed_host)

lemma status_closed: "I w \<Longrightarrow> after_run (ctrl_status tp st f w) (\<lambda>r. I (snd r))"
  by (auto simp: ctrl_status_def intro!: after_bind [OF keeps_btD [OF closed_call]])

lemma next_closed: "I w \<Longrightarrow> after_run (enum_next tp st buf ok w) (\<lambda>r. I (snd r))"
  by (cases st) (auto simp: Let_def put_dev_def intro!: begin_closed closed_host)

lemma trb_closed: "I w \<Longrightarrow> after_run (trb_segment tp w) (\<lambda>r. I (snd r))"
  unfolding trb_segment_def Let_def
  by (rule after_bind_any) (auto intro!: after_bind [OF keeps_btD [OF closed_call]] closed_host)

lemma segment_closed: "I w \<Longrightarrow> after_run (host_segment tp pc w) (\<lambda>r. I (snd r))"
  by (cases pc) (auto simp: host_enumerate_def
      intro!: begin_closed next_closed trb_closed status_closed after_bind [OF data_closed] closed_host)

lemma turn_closed: "I w \<Longrightarrow> after_run (host_turn tp n pc w) (\<lambda>r. I (snd r))"
  by (induction n arbitrary: pc w) (auto simp: host_turn.simps(2) intro!: after_bind [OF segment_closed])

end

lemma tb_depth_two: "tb_host_socket no_wait 2 tr d w = Inr r \<Longrightarrow> drd_step (c\<lparr>sys := w\<rparr>) (c\<lparr>sys := snd (snd r)\<rparr>)"
  using sys_host_call [of 2 tr d "c\<lparr>sys := w\<rparr>" "fst r" "fst (snd r)" "snd (snd r)"] by simp

interpretation host_steps: host_closed "\<lambda>w. drd_step\<^sup>*\<^sup>* c (c\<lparr>sys := w\<rparr>)" "tb_host_socket no_wait 2" for c
proof
  show "keeps_bt (\<lambda>w. drd_step\<^sup>*\<^sup>* c (c\<lparr>sys := w\<rparr>)) (tb_host_socket no_wait 2)"
    by (auto simp: keeps_bt_def after_run_def split: sum.splits
        intro: rtranclp.rtrancl_into_rtrancl dest: tb_depth_two [of _ _ _ _ c])
next
  fix w h
  assume "drd_step\<^sup>*\<^sup>* c (c\<lparr>sys := w\<rparr>)"
  then show "drd_step\<^sup>*\<^sup>* c (c\<lparr>sys := w\<lparr>host_ctrl := h\<rparr>\<rparr>)"
    using sys_host [of "c\<lparr>sys := w\<rparr>" h] by (auto intro: rtranclp.rtrancl_into_rtrancl)
qed

lemma drd_stepI: "core_step c c' \<Longrightarrow> drd_step\<^sup>*\<^sup>* c c'"
  by (blast intro: sys_core)

lemma arm_core [simp]: "sim_core (arm p d s) = sim_core s" "host_at (arm p d s) = host_at s"
  "tb_cc (arm p d s) = tb_cc s" "tb_vbus (arm p d s) = tb_vbus s" "now (arm p d s) = now s"
  "ready (arm p d s) = ready s"
  "timers (arm p d s) = (case d of None \<Rightarrow> timers s | Some t \<Rightarrow> (timers s)(p \<mapsto> now s + t))"
  by (simp_all add: arm_def split: option.split)

lemma turn_steps:
  assumes "proc_turn p s = Inr t"
    and "p = P_Monitor \<Longrightarrow> mon_at (sim_core s) = MON_Wait \<Longrightarrow> sig_role_changed (sigs (sim_world s))"
  shows "drd_step\<^sup>*\<^sup>* (sim_core s) (sim_core t)"
proof (cases p)
  case P_Role
  with assms show ?thesis
    by (auto simp: role_turn_def Let_def split: prod.splits intro!: drd_stepI sys_rm)
next
  case P_Monitor
  with assms show ?thesis
    by (auto simp: monitor_turn_def Let_def split: prod.splits intro!: drd_stepI sys_mon)
next
  case P_Collect
  with assms show ?thesis
    by (auto simp: collect_turn_def Let_def intro!: drd_stepI sys_collect)
next
  case P_Forward
  with assms show ?thesis
    by (auto simp: forward_turn_def Let_def intro!: drd_stepI sys_forward)
next
  case P_Loopback
  with assms show ?thesis
    by (auto simp: loopback_turn_def Let_def bindR_eq_Inr split: if_splits
        intro!: drd_stepI sys_loopback sys_loopback_end)
next
  case P_Host
  let ?c = "sim_core s"
  have "after_run (host_turn (tb_host_socket no_wait 2) (host_fuel (sys ?c)) (host_at s) (sys ?c))
      (\<lambda>r. drd_step\<^sup>*\<^sup>* ?c (?c\<lparr>sys := snd r\<rparr>))"
    by (rule host_steps.turn_closed) simp
  with P_Host assms show ?thesis
    by (auto simp: host_thread_turn_def Let_def bindR_eq_Inr)
qed

lemma delta_steps: "drd_step\<^sup>*\<^sup>* c (c\<lparr>sys := (clear_events (update_signals (sys c)))\<lparr>cc_state := cc, vbus := vb\<rparr>\<rparr>)"
proof -
  have "drd_step\<^sup>*\<^sup>* c (c\<lparr>sys := update_signals (sys c)\<rparr>)" for c
    by (rule drd_stepI [OF sys_update])
  moreover have "drd_step\<^sup>*\<^sup>* (c\<lparr>sys := u\<rparr>) (c\<lparr>sys := clear_events u\<rparr>)" for u
    using drd_stepI [OF sys_events, of "c\<lparr>sys := u\<rparr>"] by simp
  moreover have "drd_step\<^sup>*\<^sup>* (c\<lparr>sys := u\<rparr>) (c\<lparr>sys := u\<lparr>cc_state := cc, vbus := vb\<rparr>\<rparr>)" for u
    using drd_stepI [OF sys_inputs, of "c\<lparr>sys := u\<rparr>"] by simp
  ultimately show ?thesis
    by (meson rtranclp_trans)
qed

lemma env_steps: "env_step s t \<Longrightarrow> drd_step\<^sup>*\<^sup>* (sim_core s) (sim_core t)"
proof (induction rule: env_step.induct)
  case (e_cfg tr d s tr' d' w)
  then show ?case by (auto intro!: drd_stepI sys_cfg)
next
  case (e_bulk_out a ep bytes s h)
  then show ?case by (auto intro: sys_host)
next
  case (e_bulk_in a ep n s h)
  then show ?case by (auto intro: sys_host)
next
  case (e_upstream tr d s tr' d' w)
  then show ?case by (auto intro!: drd_stepI sys_upstream)
qed (simp_all add: advance_def)

section \<open>Timed waits\<close>

text \<open>How long the timed \<open>wait\<close> lasts in which a process is, if it is in one.\<close>

fun pause_of :: "sim \<Rightarrow> process \<Rightarrow> sc_time option" where
  "pause_of s P_Role = rm_pause (rm_at (sim_core s))"
| "pause_of s P_Monitor = mon_pause (mon_at (sim_core s))"
| "pause_of s P_Loopback = lb_pause (lb_pulse (sim_core s))"
| "pause_of s P_Host = host_pause (host_at s)"
| "pause_of s p = None"

lemma pause_pos: "pause_of s p = Some t \<Longrightarrow> 0 < t"
  by (cases p; cases "host_at s"; cases "mon_at (sim_core s)")
    (auto simp: rm_pause_def mon_pause_def lb_pause_def split: if_splits)

text \<open>A process in a timed \<open>wait\<close> either has a due time, which is yet to come, or is ready.\<close>

definition timer_inv :: "sim \<Rightarrow> bool" where
  "timer_inv s \<longleftrightarrow> (\<forall>p t. timers s p = Some t \<longrightarrow> now s < t \<and> p \<notin> set (ready s) \<and> pause_of s p \<noteq> None) \<and>
     (\<forall>p. pause_of s p \<noteq> None \<longrightarrow> p \<in> set (ready s) \<or> timers s p \<noteq> None)"

text \<open>What a turn does to the bookkeeping of the kernel.\<close>

definition turn_effect :: "process \<Rightarrow> sim \<Rightarrow> sim \<Rightarrow> bool" where
  "turn_effect p s t \<longleftrightarrow> ready t = ready s \<and> now t = now s \<and> tb_cc t = tb_cc s \<and> tb_vbus t = tb_vbus s \<and>
     timers t = (case pause_of t p of None \<Rightarrow> timers s | Some d \<Rightarrow> (timers s)(p \<mapsto> now s + d)) \<and>
     (\<forall>q. q \<noteq> p \<longrightarrow> pause_of t q = pause_of s q)"

lemma all_process: "(\<forall>q. f q) \<longleftrightarrow> f P_Role \<and> f P_Monitor \<and> f P_Collect \<and> f P_Forward \<and> f P_Loopback \<and> f P_Host"
proof
  assume "f P_Role \<and> f P_Monitor \<and> f P_Collect \<and> f P_Forward \<and> f P_Loopback \<and> f P_Host"
  then have "f q" for q by (cases q) simp_all
  then show "\<forall>q. f q" ..
qed simp

lemma proc_turn_effect:
  assumes "proc_turn p s = Inr t"
  shows "turn_effect p s t"
proof -
  note * = all_process
  show ?thesis
  proof (cases p)
    case P_Loopback
    with assms obtain w b where "t = arm P_Loopback (lb_pause b) (put_core ((sim_core s)\<lparr>lb_pulse := b, sys := w\<rparr>) s)"
      by (auto simp: loopback_turn_def Let_def bindR_eq_Inr)
    with P_Loopback show ?thesis unfolding turn_effect_def * by (simp cong: option.case_cong)
  next
    case P_Host
    with assms obtain w pc where "t = arm P_Host (host_pause pc) (put_core ((sim_core s)\<lparr>sys := w\<rparr>) s\<lparr>host_at := pc\<rparr>)"
      by (auto simp: host_thread_turn_def Let_def bindR_eq_Inr)
    with P_Host show ?thesis unfolding turn_effect_def * by (simp cong: option.case_cong)
  qed (use assms in \<open>unfold turn_effect_def *, auto simp: role_turn_def monitor_turn_def
      collect_turn_def forward_turn_def Let_def split_def cong: option.case_cong\<close>)
qed

lemma timer_turn:
  assumes inv: "timer_inv s" and p: "p \<in> set (ready s)"
    and t: "turn_effect p (s\<lparr>ready := removeAll p (ready s)\<rparr>) t"
  shows "timer_inv t"
proof -
  have pause: "pause_of (s\<lparr>ready := rs\<rparr>) q = pause_of s q" for q rs by (cases q) simp_all
  have tp: "timers s p = None" using inv p by (cases "timers s p") (auto simp: timer_inv_def)
  have tm: "timers t q = (if q = p then map_option (\<lambda>d. now s + d) (pause_of t p) else timers s q)" for q
    using t tp by (auto simp: turn_effect_def split: option.splits)
  show ?thesis
    using inv t pause_pos [of t p] unfolding timer_inv_def tm
    by (auto simp: turn_effect_def pause split: if_splits)
qed

lemma timer_delta: "timer_inv s \<Longrightarrow> ready s = [] \<Longrightarrow> timer_inv (delta_cycle s)"
proof -
  assume i: "timer_inv s" and r: "ready s = []"
  have pause: "pause_of (delta_cycle s) q = pause_of s q" for q
    by (cases q) (simp_all add: delta_cycle_def)
  have "\<not> wakes s b i p" if "timers s p = Some t" for p t b i
  proof -
    from i that have "pause_of s p \<noteq> None" by (auto simp: timer_inv_def)
    then show ?thesis
      by (cases p) (auto simp: rm_pause_def mon_pause_def lb_pause_def split: if_splits mon_pc.splits)
  qed
  with i r show ?thesis
    unfolding timer_inv_def pause by (auto simp: delta_cycle_def)
qed

lemma timer_advance:
  "timer_inv s \<Longrightarrow> ready s = [] \<Longrightarrow> (\<And>q u. timers s q = Some u \<Longrightarrow> t \<le> u) \<Longrightarrow> timer_inv (advance t s)"
proof -
  assume i: "timer_inv s" and r: "ready s = []" and m: "\<And>q u. timers s q = Some u \<Longrightarrow> t \<le> u"
  have pause: "pause_of (advance t s) q = pause_of s q" for q
    by (cases q) (simp_all add: advance_def)
  show ?thesis
    using i r m unfolding timer_inv_def pause
    by (auto simp: advance_def clear_due_def order_le_less split: option.splits if_splits)
qed

section \<open>What a turn leaves alone\<close>

lemma segment_rest:
  "rm_segment pc w = (pc', w') \<Longrightarrow> sigs w' = sigs w \<and> host_ctrl w' = host_ctrl w \<and> drd w' = drd w \<and>
     cc_state w' = cc_state w \<and> vbus w' = vbus w \<and> pc' \<noteq> RM_Start"
  "mon_segment mc w = (mc', w') \<Longrightarrow> sigs w' = sigs w \<and> host_ctrl w' = host_ctrl w \<and>
     role_mgr w' = role_mgr w \<and> cc_state w' = cc_state w \<and> vbus w' = vbus w \<and> mc' \<noteq> MON_Start"
  by (cases pc; auto simp: Let_def split: prod.splits if_splits)
    (cases mc; auto simp: Let_def split: prod.splits)

lemma loopback_turn_calls:
  assumes "loopback_turn s = Inr t"
  shows "drd_rest (sim_world t) = drd_rest (sim_world s)" and "host_view (sim_world t) = host_view (sim_world s)"
    and "rm_at (sim_core t) = rm_at (sim_core s)" and "mon_at (sim_core t) = mon_at (sim_core s)"
    and "host_at t = host_at s"
proof -
  have "drd_rest (loopback_end w) = drd_rest w" "host_view (loopback_end w) = host_view w" for w
    by (simp_all add: loopback_end_def drd_rest_def host_view_def)
  moreover have "drd_rest w' = drd_rest w" "host_view w' = host_view w"
    if "loopback_body (dev_to_protocol (tb_link no_wait 2)) w = Inr (w', p)" for w w' p
    using after_runD [OF rest_kept.loopback_keeps [OF rest_kept.dev_socket_keeps refl] that]
      after_runD [OF host_kept.loopback_keeps [OF host_kept.dev_socket_keeps refl] that] by simp_all
  ultimately show "drd_rest (sim_world t) = drd_rest (sim_world s)"
    "host_view (sim_world t) = host_view (sim_world s)"
    "rm_at (sim_core t) = rm_at (sim_core s)" "mon_at (sim_core t) = mon_at (sim_core s)"
    "host_at t = host_at s"
    using assms by (auto simp: loopback_turn_def Let_def bindR_eq_Inr split: if_splits)
qed

text \<open>The host thread's turn, when its invariant holds: \<open>turn_post\<close> of the state it ends in.\<close>

lemma host_turn_returns:
  assumes "host_inv (host_at s) (host_ctrl (sim_world s))"
  shows "\<exists>t. host_thread_turn s = Inr t \<and> turn_post (host_at s) (sim_world s) (host_at t, sim_world t) \<and>
    rm_at (sim_core t) = rm_at (sim_core s) \<and> mon_at (sim_core t) = mon_at (sim_core s) \<and>
    lb_pulse (sim_core t) = lb_pulse (sim_core s)"
proof -
  from host_turn_ok [OF assms] obtain pc w where
    "host_turn (tb_host_socket no_wait 2) (host_fuel (sim_world s)) (host_at s) (sim_world s) = Inr (pc, w)"
    "turn_post (host_at s) (sim_world s) (pc, w)" by (auto elim!: returnsE)
  then show ?thesis by (simp add: host_thread_turn_def)
qed

lemma turn_rest:
  assumes t: "proc_turn p s = Inr t" and h: "host_inv (host_at s) (host_ctrl (sim_world s))"
  shows "sigs (sim_world t) = sigs (sim_world s)" and "cc_state (sim_world t) = cc_state (sim_world s)"
    and "vbus (sim_world t) = vbus (sim_world s)"
    and "p \<noteq> P_Role \<Longrightarrow> role_mgr (sim_world t) = role_mgr (sim_world s) \<and> rm_at (sim_core t) = rm_at (sim_core s)"
    and "p \<notin> {P_Monitor, P_Collect, P_Forward} \<Longrightarrow> drd (sim_world t) = drd (sim_world s)"
    and "p \<noteq> P_Monitor \<Longrightarrow> mon_at (sim_core t) = mon_at (sim_core s)"
    and "p \<noteq> P_Host \<Longrightarrow> host_at t = host_at s \<and>
      (\<forall>pc. host_inv pc (host_ctrl (sim_world t)) = host_inv pc (host_ctrl (sim_world s))) \<and>
      ring_len (sim_world t) = ring_len (sim_world s) \<and>
      m_trb_complete_event (host_ctrl (sim_world t)) = m_trb_complete_event (host_ctrl (sim_world s))"
proof -
  have "sigs (sim_world t) = sigs (sim_world s) \<and> cc_state (sim_world t) = cc_state (sim_world s) \<and>
    vbus (sim_world t) = vbus (sim_world s) \<and>
    (p \<noteq> P_Role \<longrightarrow> role_mgr (sim_world t) = role_mgr (sim_world s) \<and> rm_at (sim_core t) = rm_at (sim_core s)) \<and>
    (p \<notin> {P_Monitor, P_Collect, P_Forward} \<longrightarrow> drd (sim_world t) = drd (sim_world s)) \<and>
    (p \<noteq> P_Monitor \<longrightarrow> mon_at (sim_core t) = mon_at (sim_core s)) \<and>
    (p \<noteq> P_Host \<longrightarrow> host_at t = host_at s \<and>
      (\<forall>pc. host_inv pc (host_ctrl (sim_world t)) = host_inv pc (host_ctrl (sim_world s))) \<and>
      ring_len (sim_world t) = ring_len (sim_world s) \<and>
      m_trb_complete_event (host_ctrl (sim_world t)) = m_trb_complete_event (host_ctrl (sim_world s)))"
  proof (cases p)
    case P_Loopback
    with t have l: "loopback_turn s = Inr t" by simp
    have "ring_len (sim_world t) = ring_len (sim_world s) \<and>
        m_trb_complete_event (host_ctrl (sim_world t)) = m_trb_complete_event (host_ctrl (sim_world s))"
      using loopback_turn_calls(2) [OF l] by (simp add: host_view_def ring_len_def)
    with loopback_turn_calls [OF l] host_inv_view [OF loopback_turn_calls(2) [OF l]] P_Loopback
    show ?thesis by (simp add: drd_rest_def)
  next
    case P_Host
    with host_turn_returns [OF h] t show ?thesis by (auto simp: turn_post_def drd_rest_def)
  next
    case P_Role
    with t show ?thesis
      by (cases "rm_segment (rm_at (sim_core s)) (sim_world s)")
        (auto simp: role_turn_def Let_def ring_len_def dest: segment_rest)
  next
    case P_Monitor
    with t show ?thesis
      by (cases "mon_segment (mon_at (sim_core s)) (sim_world s)")
        (auto simp: monitor_turn_def Let_def ring_len_def dest: segment_rest)
  qed (use t in \<open>auto simp: collect_turn_def forward_turn_def Let_def ring_len_def\<close>)
  then show "sigs (sim_world t) = sigs (sim_world s)" and "cc_state (sim_world t) = cc_state (sim_world s)"
    and "vbus (sim_world t) = vbus (sim_world s)"
    and "p \<noteq> P_Role \<Longrightarrow> role_mgr (sim_world t) = role_mgr (sim_world s) \<and> rm_at (sim_core t) = rm_at (sim_core s)"
    and "p \<notin> {P_Monitor, P_Collect, P_Forward} \<Longrightarrow> drd (sim_world t) = drd (sim_world s)"
    and "p \<noteq> P_Monitor \<Longrightarrow> mon_at (sim_core t) = mon_at (sim_core s)"
    and "p \<noteq> P_Host \<Longrightarrow> host_at t = host_at s \<and>
      (\<forall>pc. host_inv pc (host_ctrl (sim_world t)) = host_inv pc (host_ctrl (sim_world s))) \<and>
      ring_len (sim_world t) = ring_len (sim_world s) \<and>
      m_trb_complete_event (host_ctrl (sim_world t)) = m_trb_complete_event (host_ctrl (sim_world s))"
    by blast+
qed

section \<open>The invariant of the simulation\<close>

definition forwarded :: "tb_world \<Rightarrow> bool" where
  "forwarded w \<longleftrightarrow> cc_state_int (drd w) = cc_state w \<and> vbus_int (drd w) = vbus w"

text \<open>Where the host thread is, and why it is ready or asleep.\<close>

definition host_wait_inv :: "sim \<Rightarrow> bool" where
  "host_wait_inv s \<longleftrightarrow> host_inv (host_at s) (host_ctrl (sim_world s)) \<and>
     host_at s \<noteq> H_Top \<and> host_at s \<noteq> H_RingTop \<and>
     (host_at s = H_Start \<longrightarrow> P_Host \<in> set (ready s)) \<and>
     (host_at s = H_Disabled \<longrightarrow> (P_Host \<in> set (ready s) \<longleftrightarrow> sig_host_enable (sigs (sim_world s)))) \<and>
     (host_at s = H_RingEmpty \<longrightarrow> P_Host \<in> set (ready s) \<or> ring_len (sim_world s) = 0 \<or>
        m_trb_complete_event (host_ctrl (sim_world s)))"

text \<open>The same for the two threads of the role switch.\<close>

definition role_wait_inv :: "sim \<Rightarrow> bool" where
  "role_wait_inv s \<longleftrightarrow> (rm_at (sim_core s) = RM_Start \<longrightarrow> P_Role \<in> set (ready s)) \<and>
     (mon_at (sim_core s) = MON_Start \<longrightarrow> P_Monitor \<in> set (ready s)) \<and>
     (P_Monitor \<in> set (ready s) \<and> mon_at (sim_core s) = MON_Wait \<longrightarrow> sig_role_changed (sigs (sim_world s)))"

definition sim_inv :: "sim \<Rightarrow> bool" where
  "sim_inv s \<longleftrightarrow> timer_inv s \<and> drd_reachable (sim_core s) \<and> host_wait_inv s \<and> role_wait_inv s \<and>
     (P_Forward \<notin> set (ready s) \<longrightarrow> forwarded (sim_world s))"

lemma sim_invD:
  assumes "sim_inv s"
  shows "timer_inv s" and "drd_reachable (sim_core s)" and "host_wait_inv s" and "role_wait_inv s"
    and "host_inv (host_at s) (host_ctrl (sim_world s))" and "system_inv (sim_core s)"
    and "P_Forward \<notin> set (ready s) \<Longrightarrow> forwarded (sim_world s)"
  using assms by (simp_all add: sim_inv_def host_wait_inv_def drd_reachable_inv)

lemma drd_steps_reachable: "drd_step\<^sup>*\<^sup>* c d \<Longrightarrow> drd_reachable c \<Longrightarrow> drd_reachable d"
  by (induction rule: rtranclp_induct) (auto intro: drd_reach_step)

lemma sim_inv_new: "sim_inv sim_new"
proof -
  have "pause_of sim_new p = None" for p
    by (cases p) (simp_all add: sim_new_def drd_system_new_def rm_pause_def mon_pause_def lb_pause_def)
  then have "timer_inv sim_new" by (simp add: timer_inv_def sim_new_def)
  moreover have "drd_reachable (sim_core sim_new)" by (simp add: sim_new_def drd_reach_init)
  moreover have "host_inv H_Start (host_ctrl (sim_world sim_new))"
    by (simp add: sim_new_def drd_system_new_def tb_new_def drd_new_def world.extend_def
        host_inv_def host_controller_new_def default_device_info_def ring_ok_def ring_new_def)
  ultimately show ?thesis
    by (simp add: sim_inv_def host_wait_inv_def role_wait_inv_def)
      (simp add: sim_new_def drd_system_new_def)
qed

lemma turn_returns:
  assumes "sim_inv s"
  shows "\<exists>t. proc_turn p (s\<lparr>ready := rs\<rparr>) = Inr t"
proof (cases p)
  case P_Host
  have "host_inv (host_at s) (host_ctrl (sim_world s))" by (rule sim_invD [OF assms])
  with host_turn_returns [of "s\<lparr>ready := rs\<rparr>"] P_Host show ?thesis by auto
next
  case P_Loopback
  have "returns (loopback_body (dev_to_protocol (tb_link no_wait 2)) w) (\<lambda>(w', p). True)" for w
    using tb.dev.loopback_safe [of no_wait 0 w] by (simp add: numeral_2_eq_2)
  with P_Loopback show ?thesis
    by (auto simp: loopback_turn_def Let_def bindR_eq_Inr returns_iff_ex)
qed simp_all

section \<open>Every step keeps the invariant\<close>

lemma run_host_wait:
  assumes inv: "sim_inv s" and t: "proc_turn p (s\<lparr>ready := removeAll p (ready s)\<rparr>) = Inr t"
    and ready: "ready t = removeAll p (ready s)"
  shows "host_wait_inv t"
proof -
  let ?s = "s\<lparr>ready := removeAll p (ready s)\<rparr>"
  have h: "host_inv (host_at ?s) (host_ctrl (sim_world ?s))" using sim_invD(5) [OF inv] by simp
  show ?thesis
  proof (cases "p = P_Host")
    case True
    with t host_turn_returns [OF h] ready show ?thesis
      by (auto simp: host_wait_inv_def turn_post_def asleep_def at_wait_def)
  next
    case False
    note r = turn_rest [OF t h]
    from r(7) [OF False] r(1) have "host_at t = host_at s" "sigs (sim_world t) = sigs (sim_world s)"
      "ring_len (sim_world t) = ring_len (sim_world s)"
      "host_inv (host_at s) (host_ctrl (sim_world t)) = host_inv (host_at s) (host_ctrl (sim_world s))"
      "m_trb_complete_event (host_ctrl (sim_world t)) = m_trb_complete_event (host_ctrl (sim_world s))"
      by simp_all
    with sim_invD(3) [OF inv] ready False show ?thesis by (simp add: host_wait_inv_def)
  qed
qed

lemma run_role_wait:
  assumes inv: "sim_inv s" and t: "proc_turn p (s\<lparr>ready := removeAll p (ready s)\<rparr>) = Inr t"
    and ready: "ready t = removeAll p (ready s)"
  shows "role_wait_inv t"
proof -
  let ?s = "s\<lparr>ready := removeAll p (ready s)\<rparr>"
  have h: "host_inv (host_at ?s) (host_ctrl (sim_world ?s))" using sim_invD(5) [OF inv] by simp
  note r = turn_rest [OF t h]
  obtain pc w where rm: "rm_segment (rm_at (sim_core s)) (sim_world s) = (pc, w)" by fastforce
  obtain mc v where mon: "mon_segment (mon_at (sim_core s)) (sim_world s) = (mc, v)" by fastforce
  note i = sim_invD(4) [OF inv, unfolded role_wait_inv_def]
  have "rm_at (sim_core t) = RM_Start \<longrightarrow> P_Role \<in> set (ready t)"
    using r(4) i ready rm t by (cases "p = P_Role") (auto simp: role_turn_def dest: segment_rest)
  moreover have "(mon_at (sim_core t) = MON_Start \<longrightarrow> P_Monitor \<in> set (ready t)) \<and>
    (P_Monitor \<in> set (ready t) \<and> mon_at (sim_core t) = MON_Wait \<longrightarrow> sig_role_changed (sigs (sim_world t)))"
    using r(1,6) i ready mon t by (cases "p = P_Monitor") (auto simp: monitor_turn_def dest: segment_rest)
  ultimately show ?thesis by (simp add: role_wait_inv_def)
qed

lemma run_forwarded:
  assumes inv: "sim_inv s" and t: "proc_turn p (s\<lparr>ready := removeAll p (ready s)\<rparr>) = Inr t"
    and ready: "ready t = removeAll p (ready s)"
  shows "P_Forward \<notin> set (ready t) \<longrightarrow> forwarded (sim_world t)"
proof (cases "p = P_Forward")
  case True
  with t show ?thesis by (auto simp: forward_turn_def forward_inputs_def forwarded_def Let_def)
next
  case False
  have "forwarded (sim_world t) = forwarded (sim_world s)"
  proof (cases "p = P_Monitor \<or> p = P_Collect")
    case True
    with t show ?thesis
      by (cases "mon_at (sim_core s)") (auto simp: monitor_turn_def collect_turn_def Let_def forwarded_def
          role_switch_start_def role_switch_wake_def drd_part_inputs)
  next
    case m: False
    have "host_inv (host_at s) (host_ctrl (sim_world s))" by (rule sim_invD(5) [OF inv])
    with turn_rest(2,3,5) [OF t] m False show ?thesis by (simp add: forwarded_def)
  qed
  with sim_invD(7) [OF inv] ready False show ?thesis by simp
qed

lemma run_inv:
  assumes inv: "sim_inv s" and p: "p \<in> set (ready s)"
    and t: "proc_turn p (s\<lparr>ready := removeAll p (ready s)\<rparr>) = Inr t"
  shows "sim_inv t"
proof -
  note e = proc_turn_effect [OF t]
  have ready: "ready t = removeAll p (ready s)" using e by (simp add: turn_effect_def)
  have "timer_inv t" by (rule timer_turn [OF sim_invD(1) [OF inv] p e])
  moreover have "drd_reachable (sim_core t)"
  proof (rule drd_steps_reachable [OF turn_steps [OF t]])
    show "drd_reachable (sim_core (s\<lparr>ready := removeAll p (ready s)\<rparr>))"
      using sim_invD(2) [OF inv] by simp
  qed (use sim_invD(4) [OF inv] p in \<open>simp add: role_wait_inv_def\<close>)
  ultimately show ?thesis
    using run_host_wait [OF inv t ready] run_role_wait [OF inv t ready] run_forwarded [OF inv t ready]
    by (simp add: sim_inv_def)
qed

lemma delta_world_sel [simp]:
  "sigs (delta_world s) = bind_internal (sim_world s)"
  "cc_state (delta_world s) = tb_cc s" "vbus (delta_world s) = tb_vbus s"
  "drd (delta_world s) = drd (sim_world s)"
  "host_inv pc (host_ctrl (delta_world s)) = host_inv pc (host_ctrl (sim_world s))"
  "ring_len (delta_world s) = ring_len (sim_world s)"
  by (simp_all add: delta_world_def clear_events_def host_inv_def ring_len_def)

lemma delta_cycle_sel [simp]:
  "sim_core (delta_cycle s) = (sim_core s)\<lparr>sys := delta_world s\<rparr>" "host_at (delta_cycle s) = host_at s"
  "tb_cc (delta_cycle s) = tb_cc s" "tb_vbus (delta_cycle s) = tb_vbus s" "now (delta_cycle s) = now s"
  "timers (delta_cycle s) = timers s"
  "set (ready (delta_cycle s)) = {p. wakes s (bind_internal (sim_world s)) (inputs_pending s) p}"
  by (auto simp: delta_cycle_def)

lemma delta_inv:
  assumes inv: "sim_inv s" and r: "ready s = []"
  shows "sim_inv (delta_cycle s)"
proof -
  have "timer_inv (delta_cycle s)" by (rule timer_delta [OF sim_invD(1) [OF inv] r])
  moreover have "drd_reachable (sim_core (delta_cycle s))"
    using drd_steps_reachable [OF delta_steps sim_invD(2) [OF inv]] by (simp add: delta_world_def)
  moreover have "host_wait_inv (delta_cycle s)"
    using sim_invD(3) [OF inv] r by (auto simp: host_wait_inv_def posedge_def)
  moreover have "role_wait_inv (delta_cycle s)"
    using sim_invD(4) [OF inv] r by (auto simp: role_wait_inv_def posedge_def)
  moreover have "\<not> inputs_pending s \<longrightarrow> forwarded (delta_world s)"
    using sim_invD(7) [OF inv] r by (simp add: forwarded_def inputs_pending_def)
  ultimately show ?thesis by (simp add: sim_inv_def)
qed

lemma advance_sel [simp]:
  "sim_core (advance t s) = sim_core s" "host_at (advance t s) = host_at s"
  "tb_cc (advance t s) = tb_cc s" "tb_vbus (advance t s) = tb_vbus s" "now (advance t s) = t"
  "set (ready (advance t s)) = {p. timers s p = Some t}"
  by (auto simp: advance_def)

lemma advance_inv:
  assumes inv: "sim_inv s" and r: "ready s = []" and m: "\<And>q u. timers s q = Some u \<Longrightarrow> t \<le> u"
  shows "sim_inv (advance t s)"
proof -
  have "timer_inv (advance t s)" by (rule timer_advance [OF sim_invD(1) [OF inv] r m])
  moreover have "pause_of s p \<noteq> None" if "timers s p = Some t" for p
    using sim_invD(1) [OF inv] that by (simp add: timer_inv_def)
  from this [of P_Monitor] this [of P_Host]
  have "timers s P_Monitor = Some t \<Longrightarrow> mon_at (sim_core s) \<noteq> MON_Wait"
    "timers s P_Host = Some t \<Longrightarrow> host_at s \<noteq> H_Disabled"
    by (auto simp: mon_pause_def)
  then have "host_wait_inv (advance t s)" "role_wait_inv (advance t s)"
    using sim_invD(3,4) [OF inv] r by (auto simp: host_wait_inv_def role_wait_inv_def)
  ultimately show ?thesis
    using sim_invD(2,7) [OF inv] r by (simp add: sim_inv_def)
qed

lemma kernel_inv: "kernel_step s t \<Longrightarrow> sim_inv s \<Longrightarrow> sim_inv t"
  by (induction rule: kernel_step.induct) (auto intro: run_inv delta_inv advance_inv)

text \<open>Acting on the world from outside, with the bookkeeping of the kernel as it is.\<close>

lemma env_world:
  assumes inv: "sim_inv s" and c: "drd_reachable ((sim_core s)\<lparr>sys := w\<rparr>)"
    and s: "sigs w = sigs (sim_world s)" and h: "host_inv (host_at s) (host_ctrl w)"
    and r: "m_trb_complete_event (host_ctrl w) \<or>
      \<not> m_trb_complete_event (host_ctrl (sim_world s)) \<and> ring_len w = ring_len (sim_world s)"
    and f: "forwarded w = forwarded (sim_world s)"
  shows "sim_inv (put_core ((sim_core s)\<lparr>sys := w\<rparr>) s)"
proof -
  let ?t = "put_core ((sim_core s)\<lparr>sys := w\<rparr>) s"
  have "pause_of ?t p = pause_of s p" for p by (cases p) simp_all
  then have "timer_inv ?t = timer_inv s" by (simp add: timer_inv_def)
  moreover have "host_wait_inv ?t"
    using sim_invD(3) [OF inv] s h r by (auto simp: host_wait_inv_def)
  moreover have "role_wait_inv ?t" using sim_invD(4) [OF inv] s by (simp add: role_wait_inv_def)
  ultimately show ?thesis using sim_invD(1,7) [OF inv] c f by (simp add: sim_inv_def)
qed

lemma enqueue_inv:
  assumes "enqueue_bulk_trb a ep dr n bytes h = Inr h'" and "host_inv pc h"
  shows "host_inv pc h' \<and> m_trb_complete_event h'"
proof -
  from assms(1) obtain trb r where "ring_enqueue trb (m_transfer_ring h) = Inr r"
    and h: "h' = h\<lparr>m_transfer_ring := r, m_trb_complete_event := True\<rparr>"
    by (auto simp: enqueue_bulk_trb_def Let_def bindR_eq_Inr)
  then have "ring_ok r" by (auto simp: ring_enqueue_def ring_ok_def split: if_splits)
  with assms(2) show ?thesis by (simp add: h host_inv_def)
qed

lemma env_inv: "env_step s t \<Longrightarrow> sim_inv s \<Longrightarrow> sim_inv t"
proof -
  assume e: "env_step s t" and i: "sim_inv s"
  have r: "drd_reachable (sim_core t)"
    by (rule drd_steps_reachable [OF env_steps [OF e] sim_invD(2) [OF i]])
  from e i r show ?thesis
  proof (induction rule: env_step.induct)
    case (e_inputs s vb cc)
    have "pause_of (s\<lparr>tb_cc := cc, tb_vbus := vb\<rparr>) p = pause_of s p" for p by (cases p) simp_all
    with e_inputs show ?case
      by (simp add: sim_inv_def timer_inv_def host_wait_inv_def role_wait_inv_def)
  next
    case (e_cfg tr d s tr' d' w)
    from e_cfg.hyps have "sigs w = sigs (sim_world s) \<and> host_ctrl w = host_ctrl (sim_world s) \<and>
        forwarded w = forwarded (sim_world s)"
      by (rule cfg_result) (simp_all add: frame cfg_write_def Let_def forwarded_def)
    with e_cfg.prems sim_invD(5) [OF e_cfg.prems(1)] show ?case by (intro env_world) (auto simp: ring_len_def)
  next
    case (e_bulk_out a ep bytes s h)
    have "host_inv (host_at s) h \<and> m_trb_complete_event h"
      using e_bulk_out.hyps enqueue_inv [OF _ sim_invD(5) [OF e_bulk_out.prems(1)]] by (simp add: bulk_out_def)
    with e_bulk_out.prems show ?case by (intro env_world) (simp_all add: forwarded_def)
  next
    case (e_bulk_in a ep n s h)
    have "host_inv (host_at s) h \<and> m_trb_complete_event h"
      using e_bulk_in.hyps enqueue_inv [OF _ sim_invD(5) [OF e_bulk_in.prems(1)]] by (simp add: bulk_in_def)
    with e_bulk_in.prems show ?case by (intro env_world) (simp_all add: forwarded_def)
  next
    case (e_upstream tr d s tr' d' w)
    have "host_view w = host_view (sim_world s)" "drd_rest w = drd_rest (sim_world s)"
      using keeps_bt_Inr [OF host_kept.tb_upstream_keeps refl e_upstream.hyps]
        keeps_bt_Inr [OF rest_kept.tb_upstream_keeps refl e_upstream.hyps] by simp_all
    with e_upstream.prems show ?case
      using host_inv_view [of w "sim_world s" "host_at s"] sim_invD(5) [OF e_upstream.prems(1)]
      by (intro env_world) (auto simp: drd_rest_def host_view_def ring_len_def forwarded_def)
  next
    case (e_time s t)
    then show ?case by (intro advance_inv)
  qed
qed

lemma sim_reachable_inv: "sim_reachable s \<Longrightarrow> sim_inv s"
  by (induction rule: sim_reachable.induct) (auto intro: sim_inv_new kernel_inv env_inv)

end
