(* ===== verification/Sim_Liveness.thy ===== *)
theory Sim_Liveness imports Sim_Invariants begin

text \<open>
  Left alone, the simulation comes to rest: there is no endless chain of delta cycles and no
  endless exchange between the processes over time. The processes are ordered by who can wake
  whom (inputs, forwarding, role manager, monitor, host thread, loopback thread, collector), and
  every step of the kernel lowers the rank of one without raising an earlier one.
\<close>

section \<open>What waits for the next delta cycle\<close>

definition pend_role :: "'e world_scheme \<Rightarrow> bool" where
  "pend_role w \<longleftrightarrow> sig_cc_state_int (sigs w) \<noteq> cc_state_int (drd w) \<or>
     sig_vbus_int (sigs w) \<noteq> vbus_int (drd w) \<or> m_role_request_event (role_mgr w)"

definition pend_mon :: "'e world_scheme \<Rightarrow> bool" where
  "pend_mon w \<longleftrightarrow> sig_role (sigs w) \<noteq> current_role (role_mgr w) \<or>
     sig_role_changed (sigs w) \<noteq> role_changed (role_mgr w)"

definition pend_host :: "'e world_scheme \<Rightarrow> bool" where
  "pend_host w \<longleftrightarrow> sig_host_enable (sigs w) \<noteq> host_enable (drd w) \<or>
     sig_dev_enable (sigs w) \<noteq> dev_enable (drd w) \<or> m_trb_complete_event (host_ctrl w)"

definition pend_lb :: "'e world_scheme \<Rightarrow> bool" where
  "pend_lb w \<longleftrightarrow> sig_xfer_done (sigs w) \<noteq> transfer_done (host_ctrl w) \<or>
     sig_enum_done (sigs w) \<noteq> enumeration_done (host_ctrl w) \<or>
     sig_dev_addr (sigs w) \<noteq> dev_addr_out (host_ctrl w) \<or>
     sig_configured (sigs w) \<noteq> configured (dev_ctrl w) \<or> m_out_ep_event (dev_ctrl w)"

definition pend_irq :: "'e world_scheme \<Rightarrow> bool" where
  "pend_irq w \<longleftrightarrow> sig_bulk_irq (sigs w) \<noteq> bulk_irq (dev_ctrl w)"

lemmas pend_defs = pend_role_def pend_mon_def pend_host_def pend_lb_def pend_irq_def

lemma settled_pend:
  "settled s \<longleftrightarrow> \<not> inputs_pending s \<and> \<not> pend_role (sim_world s) \<and> \<not> pend_mon (sim_world s) \<and>
     \<not> pend_host (sim_world s) \<and> \<not> pend_lb (sim_world s) \<and> \<not> pend_irq (sim_world s)"
  by (cases "sigs (sim_world s)")
    (auto simp: settled_def pend_defs bind_internal_def events_pending_def)

lemma delta_pend:
  "\<not> inputs_pending (delta_cycle s)" "\<not> pend_role (delta_world s)" "\<not> pend_mon (delta_world s)"
  "\<not> pend_host (delta_world s)" "\<not> pend_lb (delta_world s)" "\<not> pend_irq (delta_world s)"
  by (simp_all add: inputs_pending_def pend_defs bind_internal_def delta_world_def clear_events_def)

section \<open>The measure\<close>

text \<open>
  A thread with one timed \<open>wait\<close> in its loop: 3 when it is about to run its loop, 2 in the timed
  \<open>wait\<close>, 1 when that is over, 0 when it waits for its event.
\<close>

definition thread_rank :: "bool \<Rightarrow> bool \<Rightarrow> nat" where
  "thread_rank paused is_ready = (if paused then (if is_ready then 1 else 2) else if is_ready then 3 else 0)"

definition role_rank :: "sim \<Rightarrow> nat" where
  "role_rank s = thread_rank (rm_at (sim_core s) = RM_Pulse) (P_Role \<in> set (ready s))"

definition mon_rank :: "sim \<Rightarrow> nat" where
  "mon_rank s = thread_rank (mon_pause (mon_at (sim_core s)) \<noteq> None) (P_Monitor \<in> set (ready s))"

definition lb_rank :: "sim \<Rightarrow> nat" where
  "lb_rank s = thread_rank (lb_pulse (sim_core s)) (P_Loopback \<in> set (ready s))"

definition host_rank :: "sim \<Rightarrow> nat" where
  "host_rank s = (let r = ring_len (sim_world s); pc = host_at s in
     if P_Host \<in> set (ready s) then 2 * woken_rank r pc
     else if pc_rank r pc = 0 then 0 else 2 * pc_rank r pc + 1)"

definition sim_measures :: "(sim \<Rightarrow> nat) list" where
  "sim_measures = [\<lambda>s. of_bool (inputs_pending s), \<lambda>s. of_bool (P_Forward \<in> set (ready s)),
     \<lambda>s. of_bool (pend_role (sim_world s)), role_rank, \<lambda>s. of_bool (pend_mon (sim_world s)), mon_rank,
     \<lambda>s. of_bool (pend_host (sim_world s)), host_rank, \<lambda>s. of_bool (pend_lb (sim_world s)), lb_rank,
     \<lambda>s. of_bool (pend_irq (sim_world s)), \<lambda>s. of_bool (P_Collect \<in> set (ready s))]"

lemma in_sim_measures:
  "(t, s) \<in> measures sim_measures \<longleftrightarrow> (t, s) \<in> measures
     [\<lambda>s. of_bool (inputs_pending s), \<lambda>s. of_bool (P_Forward \<in> set (ready s)),
     \<lambda>s. of_bool (pend_role (sim_world s)), role_rank, \<lambda>s. of_bool (pend_mon (sim_world s)), mon_rank,
     \<lambda>s. of_bool (pend_host (sim_world s)), host_rank, \<lambda>s. of_bool (pend_lb (sim_world s)), lb_rank,
     \<lambda>s. of_bool (pend_irq (sim_world s)), \<lambda>s. of_bool (P_Collect \<in> set (ready s))]"
  by (simp add: sim_measures_def)

section \<open>A turn lowers the measure\<close>

text \<open>What the turn of a process leaves alone for the processes before it.\<close>

lemma segment_pend:
  "rm_segment pc w = (pc', w') \<Longrightarrow> pend_role w' = pend_role w \<and>
     (pc' = RM_Pulse \<longrightarrow> pc = RM_Wait)"
  "mon_segment mc w = (mc', w') \<Longrightarrow> pend_role w' = pend_role w \<and> pend_mon w' = pend_mon w \<and>
     (mon_pause mc' \<noteq> None \<longrightarrow> mc = MON_Wait)"
  by (cases pc; auto simp: Let_def pend_role_def role_defs split: prod.splits if_splits)
    (cases mc; auto simp: Let_def pend_role_def pend_mon_def role_switch_start_def
      role_switch_wake_def drd_part_inputs mon_pause_def split: prod.splits)

text \<open>The packet of the loopback thread stays with the peer: nothing comes back.\<close>

lemma tb_erdy: "send_to_protocol (dev_to_protocol (tb_link no_wait 2)) TP_ERDY ep dr bs et w = Inr w"
  by (simp add: send_to_protocol_def dev_to_protocol_def tx_eq_route route_tx_def
      numeral_2_eq_2 tb_link_Suc peer_b_transport_def)

lemma loopback_turn_pend:
  assumes "loopback_turn s = Inr t"
  shows "pend_lb (sim_world t) = pend_lb (sim_world s)" and "lb_pulse (sim_core t) \<longrightarrow> \<not> lb_pulse (sim_core s)"
    and "host_ctrl (sim_world t) = host_ctrl (sim_world s)" and "peer (sim_world t) = peer (sim_world s)"
proof -
  have body: "pend_lb w' = pend_lb w \<and> host_ctrl w' = host_ctrl w \<and> peer w' = peer w"
    if "loopback_body (dev_to_protocol (tb_link no_wait 2)) w = Inr (w', p)" for w w' p
    using that by (auto simp: loopback_body_def tb_erdy pend_lb_def split: if_splits option.splits)
  have close: "pend_lb (loopback_end w) = pend_lb w \<and> host_ctrl (loopback_end w) = host_ctrl w \<and>
    peer (loopback_end w) = peer w" for w :: tb_world
    by (simp add: loopback_end_def pend_lb_def)
  from body close assms show "pend_lb (sim_world t) = pend_lb (sim_world s)"
    "lb_pulse (sim_core t) \<longrightarrow> \<not> lb_pulse (sim_core s)"
    "host_ctrl (sim_world t) = host_ctrl (sim_world s)" "peer (sim_world t) = peer (sim_world s)"
    by (auto simp: loopback_turn_def Let_def bindR_eq_Inr split: if_splits)
qed

text \<open>Every turn of a process lowers the measure.\<close>

lemma run_measure:
  assumes inv: "sim_inv s" and p: "p \<in> set (ready s)"
    and t: "proc_turn p (s\<lparr>ready := removeAll p (ready s)\<rparr>) = Inr t"
  shows "(t, s) \<in> measures sim_measures"
proof -
  let ?s = "s\<lparr>ready := removeAll p (ready s)\<rparr>"
  have h: "host_inv (host_at ?s) (host_ctrl (sim_world ?s))" using sim_invD(5) [OF inv] by simp
  note e = proc_turn_effect [OF t]
  note r = turn_rest [OF t h]
  have ready: "set (ready t) = set (ready s) - {p}" using e by (auto simp: turn_effect_def)
  have inputs: "inputs_pending t = inputs_pending s"
    using e r(2,3) by (simp add: turn_effect_def inputs_pending_def)
  show ?thesis
  proof (cases p)
    case P_Forward
    with p ready inputs show ?thesis by (simp add: in_sim_measures)
  next
    case P_Role
    obtain pc w where w: "rm_segment (rm_at (sim_core s)) (sim_world s) = (pc, w)" by fastforce
    with P_Role t have c: "rm_at (sim_core t) = pc" "sim_world t = w" by (auto simp: role_turn_def)
    have "rm_at (sim_core s) = RM_Pulse \<Longrightarrow> pc \<noteq> RM_Pulse" using segment_pend(1) [OF w] by auto
    then have "role_rank t < role_rank s"
      using P_Role p ready c by (auto simp: role_rank_def thread_rank_def)
    with P_Role segment_pend(1) [OF w] c ready inputs show ?thesis by (simp add: in_sim_measures)
  next
    case P_Monitor
    obtain pc w where w: "mon_segment (mon_at (sim_core s)) (sim_world s) = (pc, w)" by fastforce
    with P_Monitor t have c: "mon_at (sim_core t) = pc" "sim_world t = w" by (auto simp: monitor_turn_def)
    have "mon_pause (mon_at (sim_core s)) \<noteq> None \<Longrightarrow> mon_pause pc = None"
      using segment_pend(2) [OF w] by (auto simp: mon_pause_def)
    then have "mon_rank t < mon_rank s"
      using P_Monitor p ready c by (auto simp: mon_rank_def thread_rank_def)
    moreover have "role_rank t = role_rank s"
      using r(4) P_Monitor ready by (simp add: role_rank_def)
    ultimately show ?thesis
      using P_Monitor segment_pend(2) [OF w] c ready inputs by (simp add: in_sim_measures)
  next
    case P_Host
    from host_turn_returns [OF h] t P_Host
    have post: "turn_post (host_at s) (sim_world s) (host_at t, sim_world t)" by simp
    have pr: "pc_rank (ring_len (sim_world t)) (host_at t) < seg_rank (sig_host_enable (sigs (sim_world s)))
        (ring_len (sim_world s)) (host_at s)" using post by (simp add: turn_post_def)
    have "host_at s \<noteq> H_Top" using sim_invD(3) [OF inv] by (simp add: host_wait_inv_def)
    with pr have "host_rank t < host_rank s"
      using P_Host p ready by (simp add: host_rank_def Let_def seg_rank_def)
    moreover have "pend_role (sim_world t) = pend_role (sim_world s)" "pend_mon (sim_world t) = pend_mon (sim_world s)"
      "pend_host (sim_world t) = pend_host (sim_world s)"
      using post by (simp_all add: turn_post_def drd_rest_def pend_defs)
    moreover have "role_rank t = role_rank s" "mon_rank t = mon_rank s"
      using r(4,6) P_Host ready by (simp_all add: role_rank_def mon_rank_def)
    ultimately show ?thesis
      using P_Host ready inputs by (simp add: in_sim_measures)
  next
    case P_Loopback
    with t have l: "loopback_turn ?s = Inr t" by simp
    have "lb_rank t < lb_rank s"
      using loopback_turn_pend(2) [OF l] P_Loopback p ready by (auto simp: lb_rank_def thread_rank_def)
    moreover have "pend_role (sim_world t) = pend_role (sim_world s)" "pend_mon (sim_world t) = pend_mon (sim_world s)"
      "pend_host (sim_world t) = pend_host (sim_world s)" "ring_len (sim_world t) = ring_len (sim_world s)"
      using loopback_turn_calls(1,2) [OF l] by (simp_all add: drd_rest_def host_view_def pend_defs ring_len_def)
    moreover have "role_rank t = role_rank s" "mon_rank t = mon_rank s" "host_rank t = host_rank s"
      using loopback_turn_calls(3-5) [OF l] calculation(5) P_Loopback ready
      by (simp_all add: role_rank_def mon_rank_def host_rank_def)
    ultimately show ?thesis
      using P_Loopback ready inputs loopback_turn_pend(1) [OF l] by (simp add: in_sim_measures)
  next
    case P_Collect
    with t have c: "t = collect_turn ?s" by simp
    then have "pend_role (sim_world t) = pend_role (sim_world s)" "pend_mon (sim_world t) = pend_mon (sim_world s)"
      "pend_host (sim_world t) = pend_host (sim_world s)" "pend_lb (sim_world t) = pend_lb (sim_world s)"
      "pend_irq (sim_world t) = pend_irq (sim_world s)" "ring_len (sim_world t) = ring_len (sim_world s)"
      "rm_at (sim_core t) = rm_at (sim_core s)" "mon_at (sim_core t) = mon_at (sim_core s)"
      "lb_pulse (sim_core t) = lb_pulse (sim_core s)" "host_at t = host_at s"
      by (simp_all add: collect_turn_def Let_def pend_defs drd_part_inputs ring_len_def)
    with P_Collect p ready inputs show ?thesis
      by (simp add: in_sim_measures role_rank_def mon_rank_def lb_rank_def host_rank_def)
  qed
qed

section \<open>A delta cycle and a move of time lower the measure\<close>

text \<open>A delta cycle changes the rank of a process only if something before it was pending.\<close>

lemma delta_rank:
  assumes "ready s = []"
  shows "\<not> inputs_pending s \<Longrightarrow> P_Forward \<notin> set (ready (delta_cycle s))"
    and "\<not> pend_role (sim_world s) \<Longrightarrow> role_rank (delta_cycle s) = role_rank s"
    and "\<not> pend_mon (sim_world s) \<Longrightarrow> mon_rank (delta_cycle s) = mon_rank s"
    and "\<not> pend_host (sim_world s) \<Longrightarrow> host_rank (delta_cycle s) = host_rank s"
    and "\<not> pend_lb (sim_world s) \<Longrightarrow> lb_rank (delta_cycle s) = lb_rank s"
proof -
  show "\<not> inputs_pending s \<Longrightarrow> P_Forward \<notin> set (ready (delta_cycle s))" by simp
  show "\<not> pend_role (sim_world s) \<Longrightarrow> role_rank (delta_cycle s) = role_rank s"
    using assms by (simp add: role_rank_def pend_role_def bind_internal_def)
  show "\<not> pend_mon (sim_world s) \<Longrightarrow> mon_rank (delta_cycle s) = mon_rank s"
    using assms by (simp add: mon_rank_def pend_mon_def bind_internal_def posedge_def)
  show "\<not> pend_host (sim_world s) \<Longrightarrow> host_rank (delta_cycle s) = host_rank s"
    using assms by (simp add: host_rank_def pend_host_def bind_internal_def posedge_def)
  show "\<not> pend_lb (sim_world s) \<Longrightarrow> lb_rank (delta_cycle s) = lb_rank s"
    using assms by (simp add: lb_rank_def pend_lb_def)
qed

lemma delta_measure:
  assumes r: "ready s = []" and n: "\<not> settled s"
  shows "(delta_cycle s, s) \<in> measures sim_measures"
  using delta_rank [OF r] delta_pend [of s] n r
  by (auto simp: in_sim_measures settled_pend)

text \<open>The process due first lowers its rank, the others keep or lower theirs.\<close>

lemma advance_measure:
  assumes inv: "sim_inv s" and r: "ready s = []" and p: "timers s p = Some t"
  shows "(advance t s, s) \<in> measures sim_measures"
proof -
  have due: "pause_of s q \<noteq> None" if "timers s q = Some u" for q u
    using sim_invD(1) [OF inv] that by (simp add: timer_inv_def)
  have "timers s P_Forward \<noteq> Some u" "timers s P_Collect \<noteq> Some u" for u
    using due [of P_Forward] due [of P_Collect] by auto
  then have f: "P_Forward \<notin> set (ready (advance t s))" "P_Collect \<notin> set (ready (advance t s))"
    by auto
  have other: "p \<noteq> P_Forward" "p \<noteq> P_Collect" using due [OF p] by auto
  have paused: "timers s P_Role = Some t \<Longrightarrow> rm_at (sim_core s) = RM_Pulse"
    "timers s P_Monitor = Some t \<Longrightarrow> mon_pause (mon_at (sim_core s)) \<noteq> None"
    "timers s P_Loopback = Some t \<Longrightarrow> lb_pulse (sim_core s)"
    using due [of P_Role] due [of P_Monitor] due [of P_Loopback]
    by (auto simp: rm_pause_def lb_pause_def split: if_splits)
  have role: "role_rank (advance t s) \<le> role_rank s \<and> (p = P_Role \<longrightarrow> role_rank (advance t s) < role_rank s)"
    using paused(1) r p by (auto simp: role_rank_def thread_rank_def)
  have mon: "mon_rank (advance t s) \<le> mon_rank s \<and> (p = P_Monitor \<longrightarrow> mon_rank (advance t s) < mon_rank s)"
    using paused(2) r p by (auto simp: mon_rank_def thread_rank_def)
  have lb: "lb_rank (advance t s) \<le> lb_rank s \<and> (p = P_Loopback \<longrightarrow> lb_rank (advance t s) < lb_rank s)"
    using paused(3) r p by (auto simp: lb_rank_def thread_rank_def)
  have "host_rank (advance t s) < host_rank s" if "timers s P_Host = Some t"
    using due [OF that] that r sim_invD(3) [OF inv]
    by (cases "host_at s") (simp_all add: host_rank_def Let_def woken_rank_def host_wait_inv_def)
  moreover have "host_rank (advance t s) = host_rank s" if "timers s P_Host \<noteq> Some t"
    using that r by (simp add: host_rank_def)
  ultimately have host: "host_rank (advance t s) \<le> host_rank s \<and> (p = P_Host \<longrightarrow> host_rank (advance t s) < host_rank s)"
    using p by (cases "timers s P_Host = Some t") auto
  have same: "inputs_pending (advance t s) = inputs_pending s"
    by (simp add: inputs_pending_def)
  show ?thesis
    using role mon lb host f r same other
    by (cases p) (auto simp: in_sim_measures order_le_less)
qed

section \<open>Left alone, the simulation comes to rest\<close>

lemma kernel_measure: "kernel_step s t \<Longrightarrow> sim_inv s \<Longrightarrow> (t, s) \<in> measures sim_measures"
  by (induction rule: kernel_step.induct) (blast intro: run_measure delta_measure advance_measure)+

lemma kernel_wf: "wf {(t, s). sim_inv s \<and> kernel_step s t}"
  by (rule wf_subset [OF wf_measures [of sim_measures]]) (auto dest: kernel_measure)

text \<open>At rest: nothing to run, nothing to update, nobody waiting for time.\<close>

definition at_rest :: "sim \<Rightarrow> bool" where
  "at_rest s \<longleftrightarrow> ready s = [] \<and> settled s \<and> (\<forall>p. timers s p = None)"

lemma min_timer:
  assumes "timers s p = Some t"
  shows "\<exists>q u. timers s q = Some u \<and> (\<forall>p t. timers s p = Some t \<longrightarrow> u \<le> t)"
proof -
  let ?T = "{t. \<exists>p. timers s p = Some t}"
  have "\<exists>p. timers s p = Some (LEAST t. t \<in> ?T)"
    using LeastI [of "\<lambda>t. t \<in> ?T" t] assms by auto
  then show ?thesis by (metis (mono_tags, lifting) Least_le mem_Collect_eq)
qed

lemma stuck_at_rest:
  assumes "sim_inv s" and "\<And>t. \<not> kernel_step s t"
  shows "at_rest s"
proof -
  have "ready s = []"
  proof (rule ccontr)
    assume "ready s \<noteq> []"
    then obtain p where "p \<in> set (ready s)" by (cases "ready s") auto
    with turn_returns [OF assms(1)] k_run assms(2) show False by metis
  qed
  moreover have "settled s" using k_delta assms(2) calculation by blast
  moreover have "timers s p = None" for p
  proof (rule ccontr)
    assume "timers s p \<noteq> None"
    then obtain q u where "timers s q = Some u" "\<And>p t. timers s p = Some t \<Longrightarrow> u \<le> t"
      using min_timer by fastforce
    with k_time calculation assms(2) show False by metis
  qed
  ultimately show ?thesis by (simp add: at_rest_def)
qed

lemma rest_stuck: "at_rest s \<Longrightarrow> \<not> kernel_step s t"
  by (auto simp: at_rest_def elim!: kernel_step.cases)

lemma comes_to_rest:
  assumes "sim_inv s"
  shows "\<exists>t. kernel_step\<^sup>*\<^sup>* s t \<and> at_rest t"
  using kernel_wf assms
proof (induction s rule: wf_induct_rule)
  case (less s)
  show ?case
  proof (cases "\<exists>t. kernel_step s t")
    case True
    then obtain t where t: "kernel_step s t" by blast
    with less kernel_inv obtain u where "kernel_step\<^sup>*\<^sup>* t u" "at_rest u" by blast
    with t show ?thesis by (meson converse_rtranclp_into_rtranclp)
  next
    case False
    with less.prems stuck_at_rest show ?thesis by blast
  qed
qed

text \<open>At rest every thread is at its event \<open>wait\<close>, and the host has nothing left to transfer.\<close>

lemma rest_state:
  assumes "sim_inv s" and "at_rest s"
  shows "rm_at (sim_core s) = RM_Wait" and "mon_at (sim_core s) = MON_Wait" and "\<not> lb_pulse (sim_core s)"
    and "host_at s = (if sig_host_enable (sigs (sim_world s)) then H_RingEmpty else host_at s)"
    and "host_at s = H_RingEmpty \<or> host_at s = H_Disabled"
    and "sig_host_enable (sigs (sim_world s)) \<Longrightarrow> ring_queue (m_transfer_ring (host_ctrl (sim_world s))) = []"
proof -
  have pause: "pause_of s p = None" for p
  proof (rule ccontr)
    assume "pause_of s p \<noteq> None"
    with assms(2) sim_invD(1) [OF assms(1)] show False by (auto simp: timer_inv_def at_rest_def)
  qed
  have r: "ready s = []" "settled s" using assms(2) by (simp_all add: at_rest_def)
  show rm: "rm_at (sim_core s) = RM_Wait"
    using pause [of P_Role] sim_invD(4) [OF assms(1)] r
    by (cases "rm_at (sim_core s)") (simp_all add: rm_pause_def role_wait_inv_def)
  show "mon_at (sim_core s) = MON_Wait"
    using pause [of P_Monitor] sim_invD(4) [OF assms(1)] r
    by (cases "mon_at (sim_core s)") (simp_all add: mon_pause_def role_wait_inv_def)
  show "\<not> lb_pulse (sim_core s)"
    using pause [of P_Loopback] by (simp add: lb_pause_def split: if_splits)
  show h: "host_at s = H_RingEmpty \<or> host_at s = H_Disabled"
    using pause [of P_Host] sim_invD(3) [OF assms(1)] r
    by (cases "host_at s") (simp_all add: host_wait_inv_def)
  show e: "host_at s = (if sig_host_enable (sigs (sim_world s)) then H_RingEmpty else host_at s)"
    using h sim_invD(3) [OF assms(1)] r by (auto simp: host_wait_inv_def)
  show "sig_host_enable (sigs (sim_world s)) \<Longrightarrow> ring_queue (m_transfer_ring (host_ctrl (sim_world s))) = []"
    using e sim_invD(3) [OF assms(1)] r
    by (auto simp: host_wait_inv_def ring_len_def settled_def events_pending_def)
qed

end
