(* ===== verification/Role_Liveness.thy ===== *)
theory Role_Liveness imports Sim_Liveness Role_Switch begin

text \<open>
  A lone change of CC and VBUS is answered: when the inputs change while the simulation is at rest
  and nothing else happens, every run of the kernel ends with the role they ask for, the right
  controller enabled and the interrupt pending, whatever order the processes run in.
\<close>

section \<open>The stages of the answer\<close>

type_synonym inputs = "usb_c_cc_state \<times> bool"

definition port_inputs :: "tb_world \<Rightarrow> inputs" where
  "port_inputs w = (cc_state w, vbus w)"

definition forwarded_inputs :: "tb_world \<Rightarrow> inputs" where
  "forwarded_inputs w = (cc_state_int (drd w), vbus_int (drd w))"

definition seen_inputs :: "tb_world \<Rightarrow> inputs" where
  "seen_inputs w = (sig_cc_state_int (sigs w), sig_vbus_int (sigs w))"

definition no_request :: "role_manager \<Rightarrow> bool" where
  "no_request rm \<longleftrightarrow> \<not> m_host_requested rm \<and> \<not> m_device_requested rm \<and> \<not> m_role_request_event rm"

abbreviation wanted :: "inputs \<Rightarrow> usb3_role" where
  "wanted n \<equiv> role_desired (fst n) (snd n)"

text \<open>
  The role manager before it sees the change, woken by it, inside its pulse, and done; the monitor
  before it sees the pulse, woken by it, inside its \<open>wait\<close>, and done.
\<close>

datatype stage = Before | Woken | Inside | Done

fun role_stage :: "stage \<Rightarrow> inputs \<Rightarrow> sim \<Rightarrow> bool" where
  "role_stage Before n s \<longleftrightarrow> rm_at (sim_core s) = RM_Wait \<and> P_Role \<notin> set (ready s) \<and>
     seen_inputs (sim_world s) \<noteq> n \<and> port_inputs (sim_world s) \<in> {seen_inputs (sim_world s), n} \<and>
     forwarded_inputs (sim_world s) \<in> {seen_inputs (sim_world s), n} \<and>
     m_role (role_mgr (sim_world s)) \<noteq> wanted n"
| "role_stage Woken n s \<longleftrightarrow> rm_at (sim_core s) = RM_Wait \<and> P_Role \<in> set (ready s) \<and>
     m_role (role_mgr (sim_world s)) \<noteq> wanted n \<and> seen_inputs (sim_world s) = n \<and>
     port_inputs (sim_world s) = n \<and> forwarded_inputs (sim_world s) = n"
| "role_stage Inside n s \<longleftrightarrow> rm_at (sim_core s) = RM_Pulse \<and>
     m_role (role_mgr (sim_world s)) = wanted n \<and> seen_inputs (sim_world s) = n \<and>
     port_inputs (sim_world s) = n \<and> forwarded_inputs (sim_world s) = n"
| "role_stage Done n s \<longleftrightarrow> rm_at (sim_core s) = RM_Wait \<and> P_Role \<notin> set (ready s) \<and>
     m_role (role_mgr (sim_world s)) = wanted n \<and> seen_inputs (sim_world s) = n \<and>
     port_inputs (sim_world s) = n \<and> forwarded_inputs (sim_world s) = n"

fun mon_stage :: "stage \<Rightarrow> usb3_role \<Rightarrow> sim \<Rightarrow> bool" where
  "mon_stage Before r s \<longleftrightarrow> mon_at (sim_core s) = MON_Wait \<and> P_Monitor \<notin> set (ready s) \<and>
     \<not> sig_role_changed (sigs (sim_world s))"
| "mon_stage Woken r s \<longleftrightarrow> mon_at (sim_core s) = MON_Wait \<and> P_Monitor \<in> set (ready s) \<and>
     sig_role_changed (sigs (sim_world s)) \<and> sig_role (sigs (sim_world s)) = r"
| "mon_stage Inside r s \<longleftrightarrow> mon_at (sim_core s) = MON_Settle r \<and>
     \<not> host_enable (drd (sim_world s)) \<and> \<not> dev_enable (drd (sim_world s))"
| "mon_stage Done r s \<longleftrightarrow> mon_at (sim_core s) = MON_Wait \<and> P_Monitor \<notin> set (ready s) \<and>
     host_enable (drd (sim_world s)) = (r = HOST) \<and> dev_enable (drd (sim_world s)) = (r = DEVICE) \<and>
     bit (m_intr_status (drd (sim_world s))) 0"

definition switching :: "inputs \<Rightarrow> sim \<Rightarrow> bool" where
  "switching n s \<longleftrightarrow>
     (role_stage Before n s \<or> role_stage Woken n s) \<and> mon_stage Before (wanted n) s \<or>
     role_stage Inside n s \<and> P_Role \<notin> set (ready s) \<and>
       (mon_stage Before (wanted n) s \<or> mon_stage Woken (wanted n) s) \<or>
     (role_stage Inside n s \<and> sig_role_changed (sigs (sim_world s)) \<or> role_stage Done n s) \<and>
       (mon_stage Inside (wanted n) s \<or> mon_stage Done (wanted n) s)"

definition lone_inv :: "inputs \<Rightarrow> sim \<Rightarrow> bool" where
  "lone_inv n s \<longleftrightarrow> (tb_cc s, tb_vbus s) = n \<and> no_request (role_mgr (sim_world s)) \<and> switching n s"

section \<open>Every step keeps the stages in order\<close>

text \<open>
  A step that touches neither of the two threads, and no input but by forwarding the ports.
\<close>

lemma stages_frame:
  assumes "role_mgr (sim_world t) = role_mgr (sim_world s)" "sigs (sim_world t) = sigs (sim_world s)"
    and "rm_at (sim_core t) = rm_at (sim_core s)" "mon_at (sim_core t) = mon_at (sim_core s)"
    and "port_inputs (sim_world t) = port_inputs (sim_world s)"
    and "forwarded_inputs (sim_world t) = forwarded_inputs (sim_world s) \<or>
      forwarded_inputs (sim_world t) = port_inputs (sim_world s)"
    and "host_enable (drd (sim_world t)) = host_enable (drd (sim_world s))"
    and "dev_enable (drd (sim_world t)) = dev_enable (drd (sim_world s))"
    and "bit (m_intr_status (drd (sim_world s))) 0 \<Longrightarrow> bit (m_intr_status (drd (sim_world t))) 0"
    and "P_Role \<in> set (ready t) \<longleftrightarrow> P_Role \<in> set (ready s)"
    and "P_Monitor \<in> set (ready t) \<longleftrightarrow> P_Monitor \<in> set (ready s)"
  shows "role_stage x n s \<Longrightarrow> role_stage x n t" and "mon_stage x r s \<Longrightarrow> mon_stage x r t"
    and "switching n s \<Longrightarrow> switching n t"
proof -
  have r: "role_stage x n s \<Longrightarrow> role_stage x n t" for x
    using assms by (cases x) (auto simp: seen_inputs_def)
  have m: "mon_stage x r s \<Longrightarrow> mon_stage x r t" for x r
    using assms by (cases x) auto
  show "role_stage x n s \<Longrightarrow> role_stage x n t" and "mon_stage x r s \<Longrightarrow> mon_stage x r t" by (fact r m)+
  show "switching n s \<Longrightarrow> switching n t"
    using r m assms(2,10) unfolding switching_def by metis
qed

lemma collector_keeps_change: "bit (m_intr_status d) 0 \<Longrightarrow> bit (m_intr_status (interrupt_collector s d)) 0"
  by (simp add: interrupt_collector_def Let_def bit_simps)

text \<open>The stretch the role manager runs when it is woken without a request: it pulses for the wanted role.\<close>

lemma woken_segment:
  assumes "no_request (role_mgr w)" and "seen_inputs w = n" and "m_role (role_mgr w) \<noteq> wanted n"
  shows "\<exists>rm. rm_segment RM_Wait w = (RM_Pulse, w\<lparr>role_mgr := rm\<rparr>) \<and> m_role rm = wanted n \<and> no_request rm"
  using assms
  by (auto simp: role_detection_body_def apply_role_def no_request_def seen_inputs_def Let_def)

text \<open>What the turn of any other process leaves as it is.\<close>

lemma run_others_frame:
  assumes inv: "sim_inv s" and p: "p \<noteq> P_Role" "p \<noteq> P_Monitor"
    and t: "proc_turn p (s\<lparr>ready := removeAll p (ready s)\<rparr>) = Inr t"
  shows "role_mgr (sim_world t) = role_mgr (sim_world s)" and "sigs (sim_world t) = sigs (sim_world s)"
    and "rm_at (sim_core t) = rm_at (sim_core s)" and "mon_at (sim_core t) = mon_at (sim_core s)"
    and "port_inputs (sim_world t) = port_inputs (sim_world s)"
    and "forwarded_inputs (sim_world t) = forwarded_inputs (sim_world s) \<or>
      forwarded_inputs (sim_world t) = port_inputs (sim_world s)"
    and "host_enable (drd (sim_world t)) = host_enable (drd (sim_world s))"
    and "dev_enable (drd (sim_world t)) = dev_enable (drd (sim_world s))"
    and "bit (m_intr_status (drd (sim_world s))) 0 \<Longrightarrow> bit (m_intr_status (drd (sim_world t))) 0"
    and "P_Role \<in> set (ready t) \<longleftrightarrow> P_Role \<in> set (ready s)"
    and "P_Monitor \<in> set (ready t) \<longleftrightarrow> P_Monitor \<in> set (ready s)"
proof -
  let ?s = "s\<lparr>ready := removeAll p (ready s)\<rparr>"
  have h: "host_inv (host_at ?s) (host_ctrl (sim_world ?s))" using sim_invD(5) [OF inv] by simp
  note r = turn_rest [OF t h]
  have ready: "ready t = removeAll p (ready s)" using proc_turn_effect [OF t] by (simp add: turn_effect_def)
  have "(forwarded_inputs (sim_world t) = forwarded_inputs (sim_world s) \<or>
      forwarded_inputs (sim_world t) = port_inputs (sim_world s)) \<and>
    host_enable (drd (sim_world t)) = host_enable (drd (sim_world s)) \<and>
    dev_enable (drd (sim_world t)) = dev_enable (drd (sim_world s)) \<and>
    (bit (m_intr_status (drd (sim_world s))) 0 \<longrightarrow> bit (m_intr_status (drd (sim_world t))) 0)"
  proof (cases p)
    case P_Collect
    with t have "sim_world t = (sim_world s)\<lparr>drd := interrupt_collector (sigs (sim_world s)) (drd (sim_world s))\<rparr>"
      by (auto simp: collect_turn_def Let_def)
    then show ?thesis by (simp add: forwarded_inputs_def drd_part_inputs collector_keeps_change)
  next
    case P_Forward
    with t have "sim_world t = (sim_world s)\<lparr>drd :=
        forward_inputs (cc_state (sim_world s)) (vbus (sim_world s)) (drd (sim_world s))\<rparr>"
      by (auto simp: forward_turn_def Let_def)
    then show ?thesis by (simp add: forwarded_inputs_def port_inputs_def forward_inputs_def)
  qed (use r(5) p in \<open>simp_all add: forwarded_inputs_def\<close>)
  then show "forwarded_inputs (sim_world t) = forwarded_inputs (sim_world s) \<or>
      forwarded_inputs (sim_world t) = port_inputs (sim_world s)"
    and "host_enable (drd (sim_world t)) = host_enable (drd (sim_world s))"
    and "dev_enable (drd (sim_world t)) = dev_enable (drd (sim_world s))"
    and "bit (m_intr_status (drd (sim_world s))) 0 \<Longrightarrow> bit (m_intr_status (drd (sim_world t))) 0" by blast+
  show "role_mgr (sim_world t) = role_mgr (sim_world s)" "sigs (sim_world t) = sigs (sim_world s)"
    "rm_at (sim_core t) = rm_at (sim_core s)" "mon_at (sim_core t) = mon_at (sim_core s)"
    "port_inputs (sim_world t) = port_inputs (sim_world s)"
    using r(1-4,6) p by (simp_all add: port_inputs_def)
  show "P_Role \<in> set (ready t) \<longleftrightarrow> P_Role \<in> set (ready s)"
    and "P_Monitor \<in> set (ready t) \<longleftrightarrow> P_Monitor \<in> set (ready s)" using p ready by simp_all
qed

lemma run_others:
  assumes "sim_inv s" and "p \<noteq> P_Role" and "p \<noteq> P_Monitor"
    and "proc_turn p (s\<lparr>ready := removeAll p (ready s)\<rparr>) = Inr t"
  shows "switching n s \<Longrightarrow> switching n t"
  by (rule stages_frame(3) [OF run_others_frame [OF assms]])

lemma run_role:
  assumes inv: "sim_inv s" and p: "P_Role \<in> set (ready s)" and lone: "lone_inv n s"
    and t: "proc_turn P_Role (s\<lparr>ready := removeAll P_Role (ready s)\<rparr>) = Inr t"
  shows "no_request (role_mgr (sim_world t)) \<and> switching n t"
proof -
  obtain pc w where w: "rm_segment (rm_at (sim_core s)) (sim_world s) = (pc, w)" by fastforce
  with t have c: "rm_at (sim_core t) = pc" "sim_world t = w" "mon_at (sim_core t) = mon_at (sim_core s)"
    "ready t = removeAll P_Role (ready s)" by (auto simp: role_turn_def)
  have nr: "no_request (role_mgr (sim_world s))" using lone by (simp add: lone_inv_def)
  from lone p consider "role_stage Woken n s" "mon_stage Before (wanted n) s"
    | "role_stage Inside n s" "sig_role_changed (sigs (sim_world s))"
      "mon_stage Inside (wanted n) s \<or> mon_stage Done (wanted n) s"
    by (auto simp: lone_inv_def switching_def)
  then show ?thesis
  proof cases
    case 1
    with woken_segment [OF nr, of n] w obtain rm where "pc = RM_Pulse"
      "w = (sim_world s)\<lparr>role_mgr := rm\<rparr>" "m_role rm = wanted n" "no_request rm"
      by auto
    with 1 c show ?thesis
      by (simp add: switching_def seen_inputs_def port_inputs_def forwarded_inputs_def)
  next
    case 2
    with w have "pc = RM_Wait" "w = (sim_world s)\<lparr>role_mgr := apply_role_end (role_mgr (sim_world s))\<rparr>"
      by auto
    with 2 c nr show ?thesis
      by (auto simp: switching_def seen_inputs_def port_inputs_def forwarded_inputs_def apply_role_end_def
          no_request_def)
  qed
qed

lemma run_monitor:
  assumes p: "P_Monitor \<in> set (ready s)" and lone: "lone_inv n s"
    and t: "proc_turn P_Monitor (s\<lparr>ready := removeAll P_Monitor (ready s)\<rparr>) = Inr t"
  shows "role_mgr (sim_world t) = role_mgr (sim_world s) \<and> switching n t"
proof -
  obtain pc w where w: "mon_segment (mon_at (sim_core s)) (sim_world s) = (pc, w)" by fastforce
  with t have c: "mon_at (sim_core t) = pc" "sim_world t = w" "rm_at (sim_core t) = rm_at (sim_core s)"
    "ready t = removeAll P_Monitor (ready s)" by (auto simp: monitor_turn_def)
  from lone p consider "role_stage Inside n s" "mon_stage Woken (wanted n) s"
    | "role_stage Inside n s \<and> sig_role_changed (sigs (sim_world s)) \<or> role_stage Done n s"
      "mon_stage Inside (wanted n) s"
    by (auto simp: lone_inv_def switching_def)
  then show ?thesis
  proof cases
    case 1
    with w have "pc = MON_Settle (wanted n)"
      "w = (sim_world s)\<lparr>drd := (drd (sim_world s))\<lparr>host_enable := False, dev_enable := False\<rparr>\<rparr>"
      by (simp_all add: role_switch_wake_def)
    with 1 c show ?thesis
      by (simp add: switching_def seen_inputs_def port_inputs_def forwarded_inputs_def)
  next
    case 2
    with w have "pc = MON_Wait" "w = (sim_world s)\<lparr>drd := role_switch_settle (wanted n) (drd (sim_world s))\<rparr>"
      by simp_all
    with 2 c show ?thesis
      by (auto simp: switching_def seen_inputs_def port_inputs_def forwarded_inputs_def drd_part_inputs settle_sel)
  qed
qed

text \<open>In a delta cycle the role manager sees what was forwarded, the monitor the pulse.\<close>

lemma delta_role_stage:
  assumes r: "ready s = []" and nr: "no_request (role_mgr (sim_world s))" and tb: "(tb_cc s, tb_vbus s) = n"
  shows "role_stage Before n s \<Longrightarrow> role_stage Before n (delta_cycle s) \<or> role_stage Woken n (delta_cycle s)"
    and "role_stage Inside n s \<Longrightarrow> role_stage Inside n (delta_cycle s)"
    and "role_stage Done n s \<Longrightarrow> role_stage Done n (delta_cycle s)"
proof -
  have rm: "role_mgr (delta_world s) = role_mgr (sim_world s)"
    using nr by (simp add: delta_world_def clear_events_def no_request_def)
  have seen: "seen_inputs (delta_world s) = forwarded_inputs (sim_world s)"
    and port: "port_inputs (delta_world s) = n" and fwd: "forwarded_inputs (delta_world s) = forwarded_inputs (sim_world s)"
    using tb by (auto simp: seen_inputs_def port_inputs_def forwarded_inputs_def bind_internal_def)
  have wake: "P_Role \<in> set (ready (delta_cycle s)) \<longleftrightarrow> rm_at (sim_core s) = RM_Wait \<and>
      seen_inputs (sim_world s) \<noteq> forwarded_inputs (sim_world s)"
    using nr by (auto simp: Let_def seen_inputs_def forwarded_inputs_def bind_internal_def no_request_def)
  show "role_stage Before n s \<Longrightarrow> role_stage Before n (delta_cycle s) \<or> role_stage Woken n (delta_cycle s)"
    unfolding role_stage.simps wake by (simp add: rm seen port fwd) metis
  show "role_stage Inside n s \<Longrightarrow> role_stage Inside n (delta_cycle s)"
    by (simp add: rm seen port fwd)
  show "role_stage Done n s \<Longrightarrow> role_stage Done n (delta_cycle s)"
    unfolding role_stage.simps wake by (simp add: rm seen port fwd)
qed

lemma delta_mon_stage:
  assumes inv: "system_inv (sim_core s)" and r: "ready s = []"
  shows "rm_at (sim_core s) \<noteq> RM_Pulse \<Longrightarrow> mon_stage Before q s \<Longrightarrow> mon_stage Before q (delta_cycle s)"
    and "rm_at (sim_core s) = RM_Pulse \<Longrightarrow> m_role (role_mgr (sim_world s)) = q \<Longrightarrow> mon_stage Before q s \<Longrightarrow>
      mon_stage Woken q (delta_cycle s)"
    and "mon_stage Inside q s \<Longrightarrow> mon_stage Inside q (delta_cycle s)"
    and "rm_at (sim_core s) = RM_Pulse \<Longrightarrow> sig_role_changed (sigs (delta_world s))"
    and "rm_at (sim_core s) \<noteq> RM_Pulse \<or> sig_role_changed (sigs (sim_world s)) \<Longrightarrow>
      mon_stage Done q s \<Longrightarrow> mon_stage Done q (delta_cycle s)"
proof -
  have role: "role_changed (role_mgr (sim_world s)) \<longleftrightarrow> rm_at (sim_core s) = RM_Pulse"
    "current_role (role_mgr (sim_world s)) = m_role (role_mgr (sim_world s))"
    using inv by (simp_all add: system_inv_def)
  show "rm_at (sim_core s) \<noteq> RM_Pulse \<Longrightarrow> mon_stage Before q s \<Longrightarrow> mon_stage Before q (delta_cycle s)"
    by (simp add: role bind_internal_def posedge_def)
  show "rm_at (sim_core s) = RM_Pulse \<Longrightarrow> m_role (role_mgr (sim_world s)) = q \<Longrightarrow> mon_stage Before q s \<Longrightarrow>
      mon_stage Woken q (delta_cycle s)"
    by (simp add: role bind_internal_def posedge_def)
  show "mon_stage Inside q s \<Longrightarrow> mon_stage Inside q (delta_cycle s)" by simp
  show "rm_at (sim_core s) = RM_Pulse \<Longrightarrow> sig_role_changed (sigs (delta_world s))"
    by (simp add: role bind_internal_def)
  show "rm_at (sim_core s) \<noteq> RM_Pulse \<or> sig_role_changed (sigs (sim_world s)) \<Longrightarrow>
      mon_stage Done q s \<Longrightarrow> mon_stage Done q (delta_cycle s)"
    by (auto simp: role bind_internal_def posedge_def)
qed

lemma delta_lone:
  assumes inv: "sim_inv s" and r: "ready s = []" and lone: "lone_inv n s"
  shows "lone_inv n (delta_cycle s)"
proof -
  have tb: "(tb_cc s, tb_vbus s) = n" and nr: "no_request (role_mgr (sim_world s))"
    using lone by (simp_all add: lone_inv_def)
  note rs = delta_role_stage [OF r nr tb] and ms = delta_mon_stage [OF sim_invD(6) [OF inv] r]
  from lone r consider "role_stage Before n s" "mon_stage Before (wanted n) s"
    | "role_stage Inside n s" "mon_stage Before (wanted n) s"
    | "role_stage Inside n s" "sig_role_changed (sigs (sim_world s))"
      "mon_stage Inside (wanted n) s \<or> mon_stage Done (wanted n) s"
    | "role_stage Done n s" "mon_stage Inside (wanted n) s \<or> mon_stage Done (wanted n) s"
    by (auto simp: lone_inv_def switching_def)
  then have "switching n (delta_cycle s)"
  proof cases
    case 1
    then have "rm_at (sim_core s) \<noteq> RM_Pulse" by simp
    with ms(1) rs(1) 1 show ?thesis by (simp only: switching_def) blast
  next
    case 2
    then have pulse: "rm_at (sim_core s) = RM_Pulse" "m_role (role_mgr (sim_world s)) = wanted n" by simp_all
    then have "P_Role \<notin> set (ready (delta_cycle s))" by simp
    with ms(2) [OF pulse] rs(2) 2 show ?thesis by (simp only: switching_def) blast
  next
    case 3
    then have "rm_at (sim_core s) = RM_Pulse" by simp
    with ms(4) have "sig_role_changed (sigs (sim_world (delta_cycle s)))" by simp
    with ms(3,5) rs(2) 3 show ?thesis by (simp only: switching_def) blast
  next
    case 4
    then have "rm_at (sim_core s) \<noteq> RM_Pulse" by simp
    with ms(3,5) rs(3) 4 show ?thesis by (simp only: switching_def) blast
  qed
  moreover have "no_request (role_mgr (delta_world s))"
    using nr by (simp add: delta_world_def clear_events_def no_request_def)
  ultimately show ?thesis using tb by (simp add: lone_inv_def)
qed

lemma advance_lone:
  assumes inv: "sim_inv s" and r: "ready s = []" "settled s" and lone: "lone_inv n s"
  shows "lone_inv n (advance t s)"
proof -
  have due: "pause_of s q \<noteq> None" if "timers s q = Some u" for q u
    using sim_invD(1) [OF inv] that by (simp add: timer_inv_def)
  have role: "role_stage x n (advance t s)" if "role_stage x n s" for x
    using that due [of P_Role] r by (cases x) (auto simp: rm_pause_def)
  have mon: "mon_stage x q (advance t s)" if "mon_stage x q s" for x q
    using that due [of P_Monitor] r by (cases x) (auto simp: mon_pause_def)
  have "\<not> (role_stage Inside n s \<and> P_Role \<notin> set (ready s) \<and>
      (mon_stage Before (wanted n) s \<or> mon_stage Woken (wanted n) s))"
    using r sim_invD(6) [OF inv] by (auto simp: settled_def bind_internal_def system_inv_def)
  with lone role mon have "switching n (advance t s)"
    unfolding lone_inv_def switching_def advance_sel by blast
  with lone show ?thesis by (simp add: lone_inv_def)
qed

lemma kernel_lone: "kernel_step s t \<Longrightarrow> sim_inv s \<Longrightarrow> lone_inv n s \<Longrightarrow> lone_inv n t"
proof (induction rule: kernel_step.induct)
  case (k_run p s t)
  have e: "tb_cc t = tb_cc s" "tb_vbus t = tb_vbus s"
    using proc_turn_effect [OF k_run.hyps(2)] by (simp_all add: turn_effect_def)
  have h: "host_inv (host_at (s\<lparr>ready := removeAll p (ready s)\<rparr>))
      (host_ctrl (sim_world (s\<lparr>ready := removeAll p (ready s)\<rparr>)))"
    using sim_invD(5) [OF k_run.prems(1)] by simp
  have "no_request (role_mgr (sim_world t)) \<and> switching n t"
  proof (cases "p = P_Role")
    case True
    with k_run show ?thesis by (intro run_role [where s = s]) simp_all
  next
    case False
    then have rm: "role_mgr (sim_world t) = role_mgr (sim_world s)"
      using turn_rest(4) [OF k_run.hyps(2) h] by simp
    have "switching n t"
    proof (cases "p = P_Monitor")
      case True
      with run_monitor [of s n t] k_run show ?thesis by simp
    next
      case m: False
      from run_others [OF k_run.prems(1) False m k_run.hyps(2)] k_run.prems(2)
      show ?thesis by (simp add: lone_inv_def)
    qed
    with rm k_run.prems(2) show ?thesis by (simp add: lone_inv_def)
  qed
  with e k_run.prems(2) show ?case by (simp add: lone_inv_def)
next
  case (k_delta s)
  then show ?case by (intro delta_lone)
next
  case (k_time s p t)
  then show ?case by (intro advance_lone)
qed

lemma kernel_steps_lone:
  "kernel_step\<^sup>*\<^sup>* s t \<Longrightarrow> sim_inv s \<Longrightarrow> lone_inv n s \<Longrightarrow> sim_inv t \<and> lone_inv n t"
  by (induction rule: rtranclp_induct) (auto intro: kernel_inv kernel_lone)

section \<open>The beginning and the end\<close>

lemma lone_start:
  assumes inv: "sim_inv s" and rest: "at_rest s" and nr: "no_request (role_mgr (sim_world s))"
    and new: "(cc, vb) \<noteq> (tb_cc s, tb_vbus s)" and other: "role_desired cc vb \<noteq> m_role (role_mgr (sim_world s))"
  shows "lone_inv (cc, vb) (s\<lparr>tb_cc := cc, tb_vbus := vb\<rparr>)"
proof -
  have s: "ready s = []" "settled s" using rest by (simp_all add: at_rest_def)
  have f: "forwarded (sim_world s)" using sim_invD(7) [OF inv] s(1) by simp
  have "seen_inputs (sim_world s) = (tb_cc s, tb_vbus s)" "port_inputs (sim_world s) = (tb_cc s, tb_vbus s)"
    "forwarded_inputs (sim_world s) = (tb_cc s, tb_vbus s)"
    using s(2) f by (auto simp: settled_def inputs_pending_def seen_inputs_def port_inputs_def
        forwarded_inputs_def forwarded_def bind_internal_def)
  moreover have "\<not> sig_role_changed (sigs (sim_world s))"
    using s(2) sim_invD(6) [OF inv] rest_state(1) [OF inv rest]
    by (simp add: settled_def bind_internal_def system_inv_def)
  ultimately show ?thesis
    using rest_state(1,2) [OF inv rest] s(1) nr new other
    by (auto simp: lone_inv_def switching_def)
qed

lemma lone_end:
  assumes inv: "sim_inv s" and rest: "at_rest s" and lone: "lone_inv n s"
  shows "role_stage Done n s \<and> mon_stage Done (wanted n) s"
proof -
  have s: "ready s = []" "settled s" using rest by (simp_all add: at_rest_def)
  have f: "forwarded (sim_world s)" using sim_invD(7) [OF inv] s(1) by simp
  have "seen_inputs (sim_world s) = (tb_cc s, tb_vbus s)"
    using s(2) f by (auto simp: settled_def inputs_pending_def seen_inputs_def forwarded_def bind_internal_def)
  then show ?thesis
    using lone rest_state(1,2) [OF inv rest] s(1) by (auto simp: lone_inv_def switching_def)
qed

lemma rest_signals:
  assumes "sim_inv s" and "at_rest s"
  shows "sig_role (sigs (sim_world s)) = m_role (role_mgr (sim_world s))"
    and "sig_host_enable (sigs (sim_world s)) = host_enable (drd (sim_world s))"
    and "sig_dev_enable (sigs (sim_world s)) = dev_enable (drd (sim_world s))"
  using assms(2) sim_invD(6) [OF assms(1)]
  by (auto simp: at_rest_def settled_pend pend_defs system_inv_def)

end
