(* ===== verification/Served_Role.thy ===== *)
theory Served_Role imports Role_Liveness begin

text \<open>
  The system at peace in a role: the inputs are seen everywhere, nothing is requested and the
  controller of the role is enabled. As long as nobody acts from outside, it stays so in every
  order of the processes, whatever the host thread and the loopback thread do meanwhile.
\<close>

definition served :: "inputs \<Rightarrow> usb3_role \<Rightarrow> sim \<Rightarrow> bool" where
  "served n r s \<longleftrightarrow> (tb_cc s, tb_vbus s) = n \<and> port_inputs (sim_world s) = n \<and>
     forwarded_inputs (sim_world s) = n \<and> seen_inputs (sim_world s) = n \<and>
     no_request (role_mgr (sim_world s)) \<and> m_role (role_mgr (sim_world s)) = r \<and>
     sig_role (sigs (sim_world s)) = r \<and>
     (rm_at (sim_core s) = RM_Pulse \<and> sig_role_changed (sigs (sim_world s)) \<or>
      rm_at (sim_core s) = RM_Wait \<and> P_Role \<notin> set (ready s)) \<and>
     mon_at (sim_core s) = MON_Wait \<and> P_Monitor \<notin> set (ready s) \<and>
     host_enable (drd (sim_world s)) = (r = HOST) \<and> dev_enable (drd (sim_world s)) = (r = DEVICE)"

lemma servedD:
  assumes "served n r s"
  shows "(tb_cc s, tb_vbus s) = n" and "port_inputs (sim_world s) = n" and "forwarded_inputs (sim_world s) = n"
    and "seen_inputs (sim_world s) = n" and "no_request (role_mgr (sim_world s))"
    and "m_role (role_mgr (sim_world s)) = r" and "sig_role (sigs (sim_world s)) = r"
    and "rm_at (sim_core s) = RM_Pulse \<and> sig_role_changed (sigs (sim_world s)) \<or>
      rm_at (sim_core s) = RM_Wait \<and> P_Role \<notin> set (ready s)"
    and "mon_at (sim_core s) = MON_Wait" and "P_Monitor \<notin> set (ready s)"
    and "host_enable (drd (sim_world s)) = (r = HOST)" and "dev_enable (drd (sim_world s)) = (r = DEVICE)"
  using assms by (simp_all add: served_def)

lemma run_served:
  assumes inv: "sim_inv s" and p: "p \<in> set (ready s)" and sv: "served n r s"
    and t: "proc_turn p (s\<lparr>ready := removeAll p (ready s)\<rparr>) = Inr t"
  shows "served n r t"
proof -
  note d = servedD [OF sv]
  have e: "tb_cc t = tb_cc s" "tb_vbus t = tb_vbus s"
    using proc_turn_effect [OF t] by (simp_all add: turn_effect_def)
  have m: "p \<noteq> P_Monitor" using p d(10) by auto
  show ?thesis
  proof (cases "p = P_Role")
    case True
    with p d(8) have rm: "rm_at (sim_core s) = RM_Pulse" by auto
    with True t have "rm_at (sim_core t) = RM_Wait" "ready t = removeAll P_Role (ready s)"
      "sim_world t = (sim_world s)\<lparr>role_mgr := apply_role_end (role_mgr (sim_world s))\<rparr>"
      "mon_at (sim_core t) = mon_at (sim_core s)"
      by (auto simp: role_turn_def Let_def)
    with d e show ?thesis
      by (simp add: served_def port_inputs_def forwarded_inputs_def seen_inputs_def no_request_def
          apply_role_end_def)
  next
    case False
    note f = run_others_frame [OF inv False m t]
    have "forwarded_inputs (sim_world t) = n" using f(6) d(2,3) by auto
    moreover have "seen_inputs (sim_world t) = n" using d(4) f(2) by (simp add: seen_inputs_def)
    ultimately show ?thesis using d by (simp add: served_def f(1-5,7,8,10,11) e)
  qed
qed

lemma delta_served:
  assumes inv: "sim_inv s" and sv: "served n r s"
  shows "served n r (delta_cycle s)"
proof -
  note d = servedD [OF sv]
  have "role_changed (role_mgr (sim_world s)) \<longleftrightarrow> rm_at (sim_core s) = RM_Pulse"
    "current_role (role_mgr (sim_world s)) = m_role (role_mgr (sim_world s))"
    using sim_invD(6) [OF inv] by (simp_all add: system_inv_def)
  moreover have "role_mgr (delta_world s) = role_mgr (sim_world s)"
    using d(5) by (simp add: delta_world_def clear_events_def no_request_def)
  ultimately show ?thesis
    using d by (auto simp: served_def port_inputs_def forwarded_inputs_def seen_inputs_def no_request_def
        bind_internal_def posedge_def)
qed

lemma advance_served:
  assumes inv: "sim_inv s" and sv: "served n r s"
  shows "served n r (advance t s)"
proof -
  have due: "pause_of s q \<noteq> None" if "timers s q = Some u" for q u
    using sim_invD(1) [OF inv] that by (simp add: timer_inv_def)
  show ?thesis
    using servedD [OF sv] due [of P_Role] due [of P_Monitor]
    by (auto simp: served_def rm_pause_def mon_pause_def)
qed

lemma kernel_served: "kernel_step s t \<Longrightarrow> sim_inv s \<Longrightarrow> served n r s \<Longrightarrow> served n r t"
  by (induction rule: kernel_step.induct) (auto intro: run_served delta_served advance_served)

text \<open>An idle system in a role is served; the answer to a lone change ends in one.\<close>

lemma rest_served:
  assumes inv: "sim_inv s" and rest: "at_rest s" and nr: "no_request (role_mgr (sim_world s))"
    and "sig_host_enable (sigs (sim_world s)) = (sig_role (sigs (sim_world s)) = HOST)"
    and "sig_dev_enable (sigs (sim_world s)) = (sig_role (sigs (sim_world s)) = DEVICE)"
  shows "served (tb_cc s, tb_vbus s) (sig_role (sigs (sim_world s))) s"
proof -
  have s: "ready s = []" "settled s" using rest by (simp_all add: at_rest_def)
  have f: "forwarded (sim_world s)" using sim_invD(7) [OF inv] s(1) by simp
  have "current_role (role_mgr (sim_world s)) = m_role (role_mgr (sim_world s))"
    using sim_invD(6) [OF inv] by (simp add: system_inv_def)
  with s(2) have "m_role (role_mgr (sim_world s)) = sig_role (sigs (sim_world s))"
    "host_enable (drd (sim_world s)) = sig_host_enable (sigs (sim_world s))"
    "dev_enable (drd (sim_world s)) = sig_dev_enable (sigs (sim_world s))"
    "seen_inputs (sim_world s) = forwarded_inputs (sim_world s)"
    by (simp_all add: settled_pend pend_defs seen_inputs_def forwarded_inputs_def)
  moreover have "port_inputs (sim_world s) = (tb_cc s, tb_vbus s)" "forwarded_inputs (sim_world s) = (tb_cc s, tb_vbus s)"
    using s(2) f by (auto simp: settled_def inputs_pending_def port_inputs_def forwarded_inputs_def forwarded_def)
  ultimately show ?thesis
    using rest_state(1,2) [OF inv rest] s(1) nr assms(4,5) by (auto simp: served_def)
qed

lemma served_rest:
  assumes "served n r s" and "at_rest s"
  shows "sig_host_enable (sigs (sim_world s)) \<longleftrightarrow> r = HOST" and "sig_dev_enable (sigs (sim_world s)) \<longleftrightarrow> r = DEVICE"
proof -
  have "sigs (sim_world s) = bind_internal (sim_world s)" using assms(2) by (simp add: at_rest_def settled_def)
  then show "sig_host_enable (sigs (sim_world s)) \<longleftrightarrow> r = HOST" "sig_dev_enable (sigs (sim_world s)) \<longleftrightarrow> r = DEVICE"
    using servedD(11,12) [OF assms(1)] by (simp_all add: bind_internal_def)
qed

end
