(* ===== verification/Pulses.thy ===== *)
theory Pulses imports Role_Liveness begin

text \<open>
  The pulses of the controllers' ports and the interrupt collector: a pulse raised while its signal
  is low is seen by the collector before the thread that raised it may lower it again, so its
  interrupt is recorded in every order of the processes.
\<close>

section \<open>A pulse and its collection\<close>

lemma pause_not_woken: "pause_of s p \<noteq> None \<Longrightarrow> \<not> wakes s b i p"
  by (cases p) (auto simp: rm_pause_def mon_pause_def lb_pause_def split: if_splits mon_pc.splits)

text \<open>
  \<open>port\<close> is the pulse, raised by the process \<open>owner\<close>, \<open>sgn\<close> the signals that show it, \<open>quiet\<close> those it
  rises from, \<open>calm\<close> those with which the collector leaves the record \<open>noted\<close> alone.
\<close>

locale collected_pulse =
  fixes owner :: process and port :: "tb_world \<Rightarrow> bool" and sgn quiet calm :: "drd_signals \<Rightarrow> bool"
    and noted :: "drd_controller \<Rightarrow> bool"
  assumes shown: "port w \<Longrightarrow> sgn (bind_internal w)"
    and apart: "quiet s \<Longrightarrow> \<not> sgn s"
    and edge: "quiet (sigs (sim_world u)) \<Longrightarrow> port (sim_world u) \<Longrightarrow>
      wakes u (bind_internal (sim_world u)) i P_Collect"
    and port_others: "proc_turn p u = Inr v \<Longrightarrow> p \<noteq> owner \<Longrightarrow> port (sim_world v) = port (sim_world u)"
    and port_delta: "port (delta_world u) = port (sim_world u)"
    and port_pause: "sim_inv u \<Longrightarrow> port (sim_world u) \<Longrightarrow> pause_of u owner \<noteq> None"
    and collected: "sgn s \<Longrightarrow> length (m_regs d) = 8 \<Longrightarrow> noted (interrupt_collector s d)"
    and kept: "noted d \<Longrightarrow> calm s \<Longrightarrow> noted (interrupt_collector s d)"
    and settle_kept: "noted d \<Longrightarrow> noted (role_switch_settle r d)"
    and frame_kept: "noted (d\<lparr>host_enable := x, dev_enable := y\<rparr>) = noted d"
      "noted (forward_inputs cc vb d) = noted d"
begin

definition recorded :: "sim \<Rightarrow> bool" where
  "recorded s \<longleftrightarrow> noted (drd (sim_world s))"

definition underway :: "sim \<Rightarrow> bool" where
  "underway s \<longleftrightarrow> port (sim_world s) \<and> owner \<notin> set (ready s) \<and>
     (quiet (sigs (sim_world s)) \<or> sgn (sigs (sim_world s)) \<and> P_Collect \<in> set (ready s))"

lemma run_recorded:
  assumes inv: "sim_inv s" and t: "proc_turn p (s\<lparr>ready := rs\<rparr>) = Inr t" and "recorded s"
    and "calm (sigs (sim_world s))"
  shows "recorded t"
proof -
  have h: "host_inv (host_at (s\<lparr>ready := rs\<rparr>)) (host_ctrl (sim_world (s\<lparr>ready := rs\<rparr>)))"
    using sim_invD(5) [OF inv] by simp
  show ?thesis
  proof (cases p)
    case P_Monitor
    with t assms(3) show ?thesis
      by (cases "mon_at (sim_core s)")
        (auto simp: monitor_turn_def Let_def recorded_def role_switch_start_def role_switch_wake_def
          frame_kept settle_kept)
  next
    case P_Collect
    with t assms(3,4) show ?thesis by (auto simp: collect_turn_def Let_def recorded_def kept)
  next
    case P_Forward
    with t assms(3) show ?thesis by (auto simp: forward_turn_def Let_def recorded_def frame_kept)
  qed (use turn_rest(5) [OF t h] assms(3) in \<open>simp_all add: recorded_def\<close>)
qed

lemma recorded_step:
  "kernel_step s t \<Longrightarrow> sim_inv s \<Longrightarrow> calm (sigs (sim_world s)) \<Longrightarrow> recorded s \<Longrightarrow> recorded t"
proof (induction rule: kernel_step.induct)
  case (k_run p s t)
  then show ?case by (intro run_recorded [OF k_run.prems(1) k_run.hyps(2)])
qed (simp_all add: recorded_def)

lemma run_underway:
  assumes inv: "sim_inv s" and p: "p \<in> set (ready s)" and u: "underway s"
    and t: "proc_turn p (s\<lparr>ready := removeAll p (ready s)\<rparr>) = Inr t"
  shows "underway t \<or> recorded t"
proof -
  have p': "p \<noteq> owner" using p u by (auto simp: underway_def)
  have h: "host_inv (host_at (s\<lparr>ready := removeAll p (ready s)\<rparr>))
      (host_ctrl (sim_world (s\<lparr>ready := removeAll p (ready s)\<rparr>)))"
    using sim_invD(5) [OF inv] by simp
  have o: "port (sim_world t) = port (sim_world s)" "sigs (sim_world t) = sigs (sim_world s)"
    using port_others [OF t p'] turn_rest(1) [OF t h] by simp_all
  have r: "ready t = removeAll p (ready s)" using proc_turn_effect [OF t] by (simp add: turn_effect_def)
  show ?thesis
  proof (cases "p = P_Collect \<and> sgn (sigs (sim_world s))")
    case True
    have "length (m_regs (drd (sim_world s))) = 8"
      using sim_invD(6) [OF inv] by (simp add: system_inv_def intr_inv_def)
    with True t collected show ?thesis by (auto simp: collect_turn_def Let_def recorded_def)
  next
    case False
    with u o r show ?thesis by (auto simp: underway_def)
  qed
qed

lemma delta_underway:
  assumes inv: "sim_inv s" and r: "ready s = []" and u: "underway s"
  shows "underway (delta_cycle s)"
proof -
  have "pause_of s owner \<noteq> None" using port_pause [OF inv] u by (simp add: underway_def)
  then have "\<not> wakes s (bind_internal (sim_world s)) (inputs_pending s) owner" by (rule pause_not_woken)
  then have "owner \<notin> set (ready (delta_cycle s))" by simp
  moreover have "P_Collect \<in> set (ready (delta_cycle s))"
    using u r edge [of s "inputs_pending s"] by (auto simp: underway_def)
  ultimately show ?thesis
    using u shown [of "sim_world s"] port_delta [of s] by (simp add: underway_def)
qed

lemma settled_underway: "ready s = [] \<Longrightarrow> settled s \<Longrightarrow> \<not> underway s"
  using shown [of "sim_world s"] apart by (auto simp: underway_def settled_def)

lemma underway_step: "kernel_step s t \<Longrightarrow> sim_inv s \<Longrightarrow> underway s \<Longrightarrow> underway t \<or> recorded t"
proof (induction rule: kernel_step.induct)
  case (k_run p s t)
  then show ?case using run_underway by blast
next
  case (k_delta s)
  then show ?case using delta_underway by blast
next
  case (k_time s p t)
  then show ?case using settled_underway by blast
qed

lemma rest_underway: "at_rest s \<Longrightarrow> \<not> underway s"
  using settled_underway by (simp add: at_rest_def)

end

section \<open>The three pulses of the program\<close>

text \<open>The other processes leave the host controller and the peer alone.\<close>

lemma others_host:
  assumes "proc_turn p s = Inr t" and "p \<noteq> P_Host"
  shows "host_at t = host_at s \<and> host_ctrl (sim_world t) = host_ctrl (sim_world s) \<and>
    peer (sim_world t) = peer (sim_world s) \<and> sigs (sim_world t) = sigs (sim_world s)"
proof (cases p)
  case P_Loopback
  with assms have l: "loopback_turn s = Inr t" by simp
  show ?thesis
    using loopback_turn_calls(1,5) [OF l] loopback_turn_pend(3,4) [OF l] by (simp add: drd_rest_def)
next
  case P_Role
  with assms show ?thesis
    by (cases "rm_at (sim_core s)") (auto simp: role_turn_def Let_def split_def)
next
  case P_Monitor
  with assms show ?thesis
    by (cases "mon_at (sim_core s)") (auto simp: monitor_turn_def Let_def split: prod.splits)
qed (use assms in \<open>auto simp: collect_turn_def forward_turn_def Let_def\<close>)

lemma collector_bits:
  "sig_xfer_done s \<Longrightarrow> bit (m_intr_status (interrupt_collector s d)) 4"
  "sig_enum_done s \<Longrightarrow> bit (m_intr_status (interrupt_collector s d)) 3"
  "sig_bulk_irq s \<Longrightarrow> bit (m_intr_status (interrupt_collector s d)) 5"
  "bit (m_intr_status d) n \<Longrightarrow> bit (m_intr_status (interrupt_collector s d)) n"
  "bit (m_intr_status d) n \<Longrightarrow> bit (m_intr_status (role_switch_settle r d)) n"
  by (simp_all add: interrupt_collector_def role_switch_settle_def Let_def bit_simps intr_defs)

text \<open>The register of the device address is written by the collector only, with the address shown.\<close>

lemma raise_irq_addr: "m_regs (raise_irq b d) ! 5 = m_regs d ! 5"
  by (simp add: raise_irq_def Let_def REG_INTR_STATUS_def)

lemma collector_addr:
  "length (m_regs d) = 8 \<Longrightarrow> m_regs (interrupt_collector s d) ! 5 =
    (if sig_enum_done s then ucast (sig_dev_addr s) else m_regs d ! 5)"
  by (simp add: interrupt_collector_def Let_def raise_irq_addr REG_DEV_ADDR_def)

lemma delta_ports:
  "transfer_done (host_ctrl (delta_world s)) = transfer_done (host_ctrl (sim_world s))"
  "enumeration_done (host_ctrl (delta_world s)) = enumeration_done (host_ctrl (sim_world s))"
  "dev_addr_out (host_ctrl (delta_world s)) = dev_addr_out (host_ctrl (sim_world s))"
  "bulk_irq (dev_ctrl (delta_world s)) = bulk_irq (dev_ctrl (sim_world s))"
  by (simp_all add: delta_world_def clear_events_def update_signals_def)

interpretation xfer: collected_pulse P_Host "\<lambda>w. transfer_done (host_ctrl w)" sig_xfer_done
    "\<lambda>s. \<not> sig_xfer_done s" "\<lambda>s. True" "\<lambda>d. bit (m_intr_status d) 4"
proof
  fix u
  assume "sim_inv u" "transfer_done (host_ctrl (sim_world u))"
  then show "pause_of u P_Host \<noteq> None" using sim_invD(5) [of u] by (auto simp: host_inv_def)
qed (simp_all add: bind_internal_def collector_bits forward_inputs_def Let_def others_host delta_ports)

text \<open>The end of an enumeration, with the address in its register.\<close>

definition enum_noted :: "u8 \<Rightarrow> drd_controller \<Rightarrow> bool" where
  "enum_noted a d \<longleftrightarrow> bit (m_intr_status d) 3 \<and> length (m_regs d) = 8 \<and> m_regs d ! 5 = ucast a"

interpretation enum_end: collected_pulse P_Host
    "\<lambda>w. enumeration_done (host_ctrl w) \<and> dev_addr_out (host_ctrl w) = a"
    "\<lambda>s. sig_enum_done s \<and> sig_dev_addr s = a" "\<lambda>s. \<not> sig_enum_done s"
    "\<lambda>s. sig_enum_done s \<longrightarrow> sig_dev_addr s = a" "enum_noted a" for a
proof
  fix u
  assume "sim_inv u" "enumeration_done (host_ctrl (sim_world u)) \<and> dev_addr_out (host_ctrl (sim_world u)) = a"
  then show "pause_of u P_Host \<noteq> None" using sim_invD(5) [of u] by (auto simp: host_inv_def)
qed (auto simp: bind_internal_def collector_bits forward_inputs_def Let_def enum_noted_def collector_addr
  role_switch_settle_def raise_irq_addr bit_simps intr_defs others_host delta_ports)

text \<open>The loopback thread's interrupt: no other process touches it, the host thread's calls included.\<close>

interpretation host_irq: host_closed "\<lambda>w. bulk_irq (dev_ctrl w) = c" "tb_host_socket no_wait 2" for c
  by unfold_locales (simp_all add: irq_kept.host_socket_keeps)

lemma others_irq:
  assumes "proc_turn p s = Inr t" and "p \<noteq> P_Loopback"
  shows "bulk_irq (dev_ctrl (sim_world t)) = bulk_irq (dev_ctrl (sim_world s))"
proof (cases p)
  case P_Host
  with assms(1) obtain pc w where "host_turn (tb_host_socket no_wait 2) (host_fuel (sim_world s)) (host_at s) (sim_world s)
      = Inr (pc, w)" "sim_world t = w" by (auto simp: host_thread_turn_def bindR_eq_Inr Let_def)
  with after_runD [OF host_irq.turn_closed [OF refl] this(1)] show ?thesis by simp
next
  case P_Role
  with assms show ?thesis
    by (cases "rm_at (sim_core s)") (auto simp: role_turn_def Let_def split_def)
next
  case P_Monitor
  with assms show ?thesis
    by (cases "mon_at (sim_core s)") (auto simp: monitor_turn_def Let_def split: prod.splits)
qed (use assms in \<open>auto simp: collect_turn_def forward_turn_def Let_def\<close>)

interpretation bulk: collected_pulse P_Loopback "\<lambda>w. bulk_irq (dev_ctrl w)" sig_bulk_irq
    "\<lambda>s. \<not> sig_bulk_irq s" "\<lambda>s. True" "\<lambda>d. bit (m_intr_status d) 5"
proof
  fix u
  assume "sim_inv u" "bulk_irq (dev_ctrl (sim_world u))"
  then show "pause_of u P_Loopback \<noteq> None"
    using irq_follows_pulse [OF sim_invD(2)] by (simp add: lb_pause_def)
qed (simp_all add: bind_internal_def collector_bits forward_inputs_def Let_def others_irq delta_ports posedge_def)

end
