(* ===== verification/Enumeration.thy ===== *)
theory Enumeration imports Peer_Link begin

text \<open>
  Enumeration, proved once against a contract of the control pipe below the host controller
  (\<open>control_pipe\<close>) and instantiated with the peer of the testbench behind the DRD's protocol
  layer in host role.
\<close>

section \<open>What a wait leaves alone\<close>

text \<open>
  While the host thread waits, other processes may enqueue transfers; they do not touch the rest
  of the controller's members.
\<close>

definition host_same :: "host_controller \<Rightarrow> host_controller \<Rightarrow> bool" where
  "host_same h h' \<longleftrightarrow> m_next_addr h' = m_next_addr h \<and> m_dev h' = m_dev h \<and>
     m_rx_buf h' = m_rx_buf h \<and> m_resp_data h' = m_resp_data h \<and>
     m_resp_valid h' = m_resp_valid h \<and> transfer_done h' = transfer_done h \<and>
     enumeration_done h' = enumeration_done h \<and> dev_addr_out h' = dev_addr_out h"

lemma host_same_refl [simp]: "host_same h h"
  by (simp add: host_same_def)

lemma host_same_trans: "host_same h h' \<Longrightarrow> host_same h' h'' \<Longrightarrow> host_same h h''"
  by (simp add: host_same_def)

text \<open>
  A wait that disturbs neither the host thread, nor the pipe (\<open>up\<close>), nor what the device
  remembers of its address and configuration (\<open>view\<close>).
\<close>

definition quiet_wait :: "('e world_scheme \<Rightarrow> bool) \<Rightarrow> ('e world_scheme \<Rightarrow> 'v) \<Rightarrow>
    ('e world_scheme) waiting \<Rightarrow> bool" where
  "quiet_wait up view wt \<longleftrightarrow>
     (\<forall>t w. up w \<longrightarrow> up (wt t w) \<and> host_same (host_ctrl w) (host_ctrl (wt t w)) \<and>
        view (wt t w) = view w)"

lemma quiet_waitD:
  "quiet_wait up view wt \<Longrightarrow> up w \<Longrightarrow>
   up (wt t w) \<and> host_same (host_ctrl w) (host_ctrl (wt t w)) \<and> view (wt t w) = view w"
  by (simp add: quiet_wait_def)

section \<open>The control pipe\<close>

text \<open>The address and the configured flag of the device at the other end.\<close>

type_synonym dev_view = "u8 \<times> bool"

locale control_pipe =
  fixes to_protocol :: "('e world_scheme) b_transport"
    and up :: "'e world_scheme \<Rightarrow> bool"
    and view :: "'e world_scheme \<Rightarrow> dev_view"
    and desc :: "usb3_setup_pkt \<Rightarrow> u8 list"
  assumes up_host: "up w \<Longrightarrow> up (w\<lparr>host_ctrl := h\<rparr>)"
    and view_host: "view (w\<lparr>host_ctrl := h\<rparr>) = view w"
    and get_reply: "up w \<Longrightarrow> bRequest s = USB_REQ_GET_DESCRIPTOR \<Longrightarrow> desc s \<noteq> [] \<Longrightarrow>
      returns (to_protocol (setup_payload a s) 0 w) (\<lambda>(tr', d', w').
        up w' \<and> view w' = view w \<and>
        host_ctrl w' = (host_ctrl w)\<lparr>m_resp_data := desc s, m_resp_valid := True\<rparr>)"
    and address_reply: "up w \<Longrightarrow> bRequest s = USB_REQ_SET_ADDRESS \<Longrightarrow>
      returns (to_protocol (setup_payload a s) 0 w) (\<lambda>(tr', d', w').
        up w' \<and> view w' = (ucast (wValue s AND 0x7F), snd (view w)) \<and>
        host_ctrl w' = host_ctrl w)"
    and configuration_reply: "up w \<Longrightarrow> bRequest s = USB_REQ_SET_CONFIGURATION \<Longrightarrow>
      returns (to_protocol (setup_payload a s) 0 w) (\<lambda>(tr', d', w').
        up w' \<and> view w' = (fst (view w), True) \<and> host_ctrl w' = host_ctrl w)"
    and status_reply: "up w \<Longrightarrow>
      returns (to_protocol (status_payload a b) 0 w) (\<lambda>(tr', d', w').
        response_status tr' = TLM_OK_RESPONSE \<and> up w' \<and> view w' = view w \<and>
        host_ctrl w' = host_ctrl w)"
begin

text \<open>A read: the reply arrives in the buffer and the response slot is free again.\<close>

lemma get_descriptor_ok:
  assumes q: "quiet_wait up view wt" and up: "up w"
    and d: "desc (get_descriptor_setup t i) \<noteq> []"
  shows "returns (get_descriptor to_protocol wt a t i buf w) (\<lambda>(ok, buf', w').
    ok \<and> buf' = desc (get_descriptor_setup t i) \<and> up w' \<and> view w' = view w \<and>
    host_same ((host_ctrl w)\<lparr>m_resp_data := [], m_resp_valid := False\<rparr>) (host_ctrl w'))"
proof -
  let ?s = "get_descriptor_setup t i"
  have len: "unat (wLength ?s) > 0"
    by (simp add: get_descriptor_setup_def)
  obtain tr1 d1 w1 where r1: "to_protocol (setup_payload a ?s) 0 w = Inr (tr1, d1, w1)"
    and w1: "up w1" "view w1 = view w"
      "host_ctrl w1 = (host_ctrl w)\<lparr>m_resp_data := desc ?s, m_resp_valid := True\<rparr>"
    using get_reply [OF up _ d, of a] by (auto simp: returns_iff_ex)
  let ?w2 = "wt 5000 w1"
  let ?w3 = "?w2\<lparr>host_ctrl := (host_ctrl ?w2)\<lparr>m_resp_data := [], m_resp_valid := False\<rparr>\<rparr>"
  from quiet_waitD [OF q w1(1), of 5000] w1 have w2: "up ?w2" "view ?w2 = view w"
    "host_same (host_ctrl w1) (host_ctrl ?w2)" by auto
  then have st: "ctrl_data_stage to_protocol wt a ?s buf False ?w2 = Inr (desc ?s, ?w3)"
    using w1 len by (simp add: ctrl_data_stage_def host_same_def)
  have w3: "up ?w3" "view ?w3 = view w" using w2 by (simp_all add: up_host view_host)
  obtain tr4 d4 w4 where r4: "to_protocol (status_payload a False) 0 ?w3 = Inr (tr4, d4, w4)"
    and w4: "response_status tr4 = TLM_OK_RESPONSE" "up w4" "view w4 = view ?w3"
      "host_ctrl w4 = host_ctrl ?w3"
    using status_reply [OF w3(1), of a False] by (auto simp: returns_iff_ex)
  show ?thesis
    using quiet_waitD [OF q w4(2), of 2000] w4 w3 w2 w1
    by (simp add: get_descriptor_def ctrl_transfer_def Let_def r1 st r4 host_same_def)
qed

text \<open>A request without a data stage that the device answers by changing to the view \<open>v\<close>.\<close>

lemma no_data_ok:
  assumes q: "quiet_wait up view wt"
    and reply: "returns (to_protocol (setup_payload a s) 0 w) (\<lambda>(tr', d', w').
      up w' \<and> view w' = v \<and> host_ctrl w' = host_ctrl w)"
    and len: "wLength s = 0"
  shows "returns (ctrl_transfer to_protocol wt a s buf dr w) (\<lambda>(ok, buf', w').
    ok \<and> up w' \<and> view w' = v \<and> host_same (host_ctrl w) (host_ctrl w'))"
proof -
  obtain tr1 d1 w1 where r1: "to_protocol (setup_payload a s) 0 w = Inr (tr1, d1, w1)"
    and w1: "up w1" "view w1 = v" "host_ctrl w1 = host_ctrl w"
    using reply by (auto simp: returns_iff_ex)
  let ?w2 = "wt 5000 w1"
  from quiet_waitD [OF q w1(1), of 5000] w1 have w2: "up ?w2" "view ?w2 = v"
    "host_same (host_ctrl w) (host_ctrl ?w2)" by auto
  have st: "ctrl_data_stage to_protocol wt a s buf dr ?w2 = Inr (buf, ?w2)"
    using len by (simp add: ctrl_data_stage_def)
  obtain tr4 d4 w4 where r4: "to_protocol (status_payload a dr) 0 ?w2 = Inr (tr4, d4, w4)"
    and w4: "response_status tr4 = TLM_OK_RESPONSE" "up w4" "view w4 = v"
      "host_ctrl w4 = host_ctrl ?w2"
    using status_reply [OF w2(1), of a dr] w2 by (auto simp: returns_iff_ex)
  show ?thesis
    using quiet_waitD [OF q w4(2), of 2000] w4 w2
    by (auto simp: ctrl_transfer_def Let_def r1 st r4 intro: host_same_trans)
qed

lemma set_address_ok:
  assumes "quiet_wait up view wt" and "up w"
  shows "returns (set_address to_protocol wt a n w) (\<lambda>(ok, w').
    ok \<and> up w' \<and> view w' = (n AND 0x7F, snd (view w)) \<and> host_same (host_ctrl w) (host_ctrl w'))"
proof -
  have "ucast ((ucast n :: u16) AND 0x7F) = n AND 0x7F"
    by (rule bit_word_eqI) (auto simp: bit_simps)
  then show ?thesis
    unfolding set_address_def
    by (intro returns_bind [OF no_data_ok [OF assms(1) address_reply [OF assms(2)]]]) auto
qed

lemma set_configuration_ok:
  assumes "quiet_wait up view wt" and "up w"
  shows "returns (set_configuration to_protocol wt a c w) (\<lambda>(ok, w').
    ok \<and> up w' \<and> view w' = (fst (view w), True) \<and> host_same (host_ctrl w) (host_ctrl w'))"
  unfolding set_configuration_def
  by (intro returns_bind [OF no_data_ok [OF assms(1) configuration_reply [OF assms(2)]]]) auto

text \<open>
  The second part, for a device the host knows at \<open>di_addr\<close>: it ends configured and enumerated, the
  response slot is free and the done pulse over; nothing else of the host's record changes.
\<close>

lemma configure_ok:
  assumes q: "quiet_wait up view wt" and up: "up w"
    and cd: "desc (get_descriptor_setup USB_DESC_CONFIGURATION 0) \<noteq> []"
    and bos: "desc (get_descriptor_setup USB_DESC_BOS 0) \<noteq> []"
  shows "returns (enumerate_configure to_protocol wt buf w) (\<lambda>w'. up w' \<and>
    view w' = (fst (view w), True) \<and>
    m_dev (host_ctrl w') = (m_dev (host_ctrl w))\<lparr>active_config := 1, enumerated := True\<rparr> \<and>
    m_next_addr (host_ctrl w') = m_next_addr (host_ctrl w) \<and>
    dev_addr_out (host_ctrl w') = dev_addr_out (host_ctrl w) \<and>
    \<not> m_resp_valid (host_ctrl w') \<and> \<not> enumeration_done (host_ctrl w'))"
proof -
  let ?a = "di_addr (m_dev (host_ctrl w))"
  obtain cfg w8 where r8: "get_descriptor to_protocol wt ?a USB_DESC_CONFIGURATION 0 buf w =
        Inr (True, cfg, w8)"
    and w8: "up w8" "view w8 = view w"
      "host_same ((host_ctrl w)\<lparr>m_resp_data := [], m_resp_valid := False\<rparr>) (host_ctrl w8)"
    using get_descriptor_ok [OF q up cd, of ?a buf] by (auto simp: returns_iff_ex)
  let ?w9 = "put_dev (parse_cfg_desc cfg) w8"
  have u9: "up ?w9" "view ?w9 = view w" using w8 by (simp_all add: put_dev_def up_host view_host)
  have d9: "di_addr (m_dev (host_ctrl ?w9)) = ?a"
    using w8(3) by (simp add: host_same_def put_dev_def parse_cfg_desc_def)
  obtain bb w10 where r10: "get_descriptor to_protocol wt ?a USB_DESC_BOS 0 [] ?w9 = Inr (True, bb, w10)"
    and w10: "up w10" "view w10 = view w"
      "host_same ((host_ctrl ?w9)\<lparr>m_resp_data := [], m_resp_valid := False\<rparr>) (host_ctrl w10)"
    using get_descriptor_ok [OF q u9(1) bos, of ?a "[]"] u9(2) by (auto simp: returns_iff_ex)
  have d10: "di_addr (m_dev (host_ctrl w10)) = ?a" using w10(3) d9 by (simp add: host_same_def)
  obtain w11 where r11: "set_configuration to_protocol wt ?a 1 w10 = Inr (True, w11)"
    and w11: "up w11" "view w11 = (fst (view w), True)" "host_same (host_ctrl w10) (host_ctrl w11)"
    using set_configuration_ok [OF q w10(1), of ?a 1] w10(2) by (auto simp: returns_iff_ex)
  let ?w12 = "put_dev (\<lambda>d. d\<lparr>active_config := 1, enumerated := True\<rparr>) w11"
  let ?w13 = "?w12\<lparr>host_ctrl := (host_ctrl ?w12)\<lparr>enumeration_done := True\<rparr>\<rparr>"
  have u13: "up ?w13" "view ?w13 = view w11" using w11 by (simp_all add: put_dev_def up_host view_host)
  show ?thesis
    using quiet_waitD [OF q u13(1), of 10] u13(2) w8(3) w10(3) w11
    by (simp add: enumerate_configure_def Let_def r8 d9 r10 d10 r11 up_host view_host)
      (simp add: host_same_def put_dev_def parse_cfg_desc_def)
qed

text \<open>
  The whole enumeration: the descriptor's fields and the new address end up in \<open>m_dev\<close>, the
  address counter moves on, the device holds the low seven bits of the address and is configured,
  and the done pulse is over.
\<close>

lemma enumerate_ok:
  assumes q: "quiet_wait up view wt" and up: "up w"
    and dd: "desc (get_descriptor_setup USB_DESC_DEVICE 0) = dd" "dd \<noteq> []"
    and cd: "desc (get_descriptor_setup USB_DESC_CONFIGURATION 0) \<noteq> []"
    and bos: "desc (get_descriptor_setup USB_DESC_BOS 0) \<noteq> []"
  shows "returns (enumerate_device to_protocol wt w) (\<lambda>w'. up w' \<and>
    view w' = (m_next_addr (host_ctrl w) AND 0x7F, True) \<and>
    m_dev (host_ctrl w') = (parse_dev_desc dd (m_dev (host_ctrl w)))
      \<lparr>di_addr := m_next_addr (host_ctrl w), active_config := 1, enumerated := True\<rparr> \<and>
    m_next_addr (host_ctrl w') = m_next_addr (host_ctrl w) + 1 \<and>
    dev_addr_out (host_ctrl w') = m_next_addr (host_ctrl w) \<and>
    \<not> m_resp_valid (host_ctrl w') \<and> \<not> enumeration_done (host_ctrl w'))"
proof -
  let ?a = "m_next_addr (host_ctrl w)"
  have dd0: "desc (get_descriptor_setup USB_DESC_DEVICE 0) \<noteq> []" using dd by simp
  obtain w1 where r1: "get_descriptor to_protocol wt 0 USB_DESC_DEVICE 0 [] w = Inr (True, dd, w1)"
    and w1: "up w1" "host_same ((host_ctrl w)\<lparr>m_resp_data := [], m_resp_valid := False\<rparr>) (host_ctrl w1)"
    using get_descriptor_ok [OF q up dd0, of 0 "[]"] dd(1) by (auto simp: returns_iff_ex)
  let ?w2 = "put_dev (parse_dev_desc dd) w1"
  let ?w3 = "?w2\<lparr>host_ctrl := (host_ctrl ?w2)\<lparr>m_next_addr := ?a + 1\<rparr>\<rparr>"
  have a2: "m_next_addr (host_ctrl ?w2) = ?a" using w1(2) by (simp add: put_dev_def host_same_def)
  have u3: "up ?w3" using w1(1) by (simp add: put_dev_def up_host)
  obtain w4 where r4: "set_address to_protocol wt 0 ?a ?w3 = Inr (True, w4)"
    and w4: "up w4" "fst (view w4) = ?a AND 0x7F" "host_same (host_ctrl ?w3) (host_ctrl w4)"
    using set_address_ok [OF q u3, of 0 ?a] by (auto simp: returns_iff_ex)
  let ?w5 = "put_dev (\<lambda>d. d\<lparr>di_addr := ?a\<rparr>) w4"
  let ?w6 = "?w5\<lparr>host_ctrl := (host_ctrl ?w5)\<lparr>dev_addr_out := ?a\<rparr>\<rparr>"
  let ?w7 = "wt 2000000 ?w6"
  have u6: "up ?w6" "view ?w6 = view w4" using w4(1) by (simp_all add: put_dev_def up_host view_host)
  from quiet_waitD [OF q u6(1), of 2000000] u6(2) w4 have w7: "up ?w7" "fst (view ?w7) = ?a AND 0x7F"
    "host_same (host_ctrl ?w6) (host_ctrl ?w7)" by auto
  have "enumerate_device to_protocol wt w = enumerate_configure to_protocol wt dd ?w7"
    by (simp add: enumerate_device_def Let_def r1 a2 r4)
  with configure_ok [OF q w7(1) cd bos, of dd] show ?thesis
    using w1(2) w4(3) w7 by (auto elim!: returns_mono simp: host_same_def put_dev_def)
qed

end

end
