(* ===== verification/Host_Peer.thy ===== *)
theory Host_Peer imports Enumeration begin

text \<open>
  The testbench's peer behind the protocol layer, in host role, meets the control-pipe contract;
  and bulk data sent to it comes back.
\<close>

section \<open>The peer as the far end of the control pipe\<close>

definition host_up :: "tb_world \<Rightarrow> bool" where
  "host_up w \<longleftrightarrow> sig_role (sigs w) = HOST"

definition peer_view :: "tb_world \<Rightarrow> dev_view" where
  "peer_view w = (peer_assigned_addr (peer w), peer_configured (peer w))"

text \<open>In host role, what the peer sends up lands in the host controller.\<close>

lemma upstream_host:
  assumes "host_up w" and "extension tr = Some e" and "\<not> absorbed (pkt_type e)"
  shows "upstream_b_transport L wt tr d w = from_protocol_b_transport (mark_stall tr) d w"
  using assms handle_rx_host [of w tr e]
  by (simp add: host_up_def upstream_b_transport_def link_b_transport_def)

lemma send_ctrl_data_host:
  assumes "host_up w" and "bs \<noteq> []"
  shows "send_ctrl_data (upstream_b_transport L wt) bs w =
    Inr (w\<lparr>host_ctrl := (host_ctrl w)\<lparr>m_resp_data := bs, m_resp_valid := True\<rparr>\<rparr>)"
  using assms
  by (simp add: send_ctrl_data_def upstream_host absorbed_def mark_stall_def
      from_protocol_b_transport_def vec_data_def)

lemma peer_send_bulk_in_host:
  assumes "host_up w" and "bs \<noteq> []"
  shows "peer_send_bulk_in (upstream_b_transport L wt) bs ep w =
    Inr (w\<lparr>host_ctrl := (host_ctrl w)\<lparr>m_resp_data := bs, m_resp_valid := True\<rparr>\<rparr>)"
  using assms
  by (simp add: peer_send_bulk_in_def upstream_host absorbed_def mark_stall_def
      from_protocol_b_transport_def vec_data_def)

text \<open>The world after a numbered packet has passed the protocol layer.\<close>

definition bump_seq :: "'e world_scheme \<Rightarrow> 'e world_scheme" where
  "bump_seq w = w\<lparr>protocol := (protocol w)\<lparr>m_seq_num := m_seq_num (protocol w) + 1\<rparr>\<rparr>"

lemma bump_seq_frame [frame, simp]:
  "host_ctrl (bump_seq w) = host_ctrl w"
  "dev_ctrl (bump_seq w) = dev_ctrl w"
  "sigs (bump_seq w) = sigs w"
  "role_mgr (bump_seq w) = role_mgr w"
  "drd (bump_seq w) = drd w"
  by (simp_all add: bump_seq_def)

lemma bump_seq_peer [frame, simp]:
  "peer (bump_seq w) = peer w"
  "host_up (bump_seq w) = host_up w"
  "peer_view (bump_seq w) = peer_view w"
  by (simp_all add: bump_seq_def host_up_def peer_view_def)

lemma host_socket_setup:
  "host_to_protocol L (setup_payload a s) d w =
     L ((setup_payload a s)\<lparr>extension := Some ((make_usb3_ext SETUP a 0 HOST_TO_DEVICE CONTROL)
          \<lparr>setup_pkt := s, seq_num := m_seq_num (protocol w)\<rparr>)\<rparr>) d (bump_seq w)"
  by (simp add: host_to_protocol_def tx_eq_route route_tx_ext bump_seq_def)

lemma tb_setup:
  "tb_host_socket wt (Suc n) (setup_payload a s) d w =
     bindR (peer_handle_setup (tb_upstream wt n) s
       ((setup_payload a s)\<lparr>extension := Some ((make_usb3_ext SETUP a 0 HOST_TO_DEVICE CONTROL)
          \<lparr>setup_pkt := s, seq_num := m_seq_num (protocol w)\<rparr>)\<rparr>) (bump_seq w))
     (\<lambda>(tr, w). Inr (tr, d, w))"
  by (simp add: host_socket_setup tb_link_Suc peer_b_transport_def)

lemma tb_status:
  "tb_host_socket wt (Suc n) (status_payload a b) d w =
     Inr ((status_payload a b)\<lparr>response_status := TLM_OK_RESPONSE\<rparr>, d, w)"
  by (simp add: host_to_protocol_def tx_eq_route route_tx_ext tb_link_Suc peer_b_transport_def
      status_payload_def make_payload_def)

interpretation tb_pipe: control_pipe "tb_host_socket wt (Suc n)" host_up peer_view peer_descriptor
  for wt n
proof unfold_locales
  fix w :: tb_world and h
  show "host_up w \<Longrightarrow> host_up (w\<lparr>host_ctrl := h\<rparr>)" and "peer_view (w\<lparr>host_ctrl := h\<rparr>) = peer_view w"
    by (simp_all add: host_up_def peer_view_def)
next
  fix w :: tb_world and s :: usb3_setup_pkt and a
  assume "host_up w" "bRequest s = USB_REQ_GET_DESCRIPTOR" "peer_descriptor s \<noteq> []"
  then show "returns (tb_host_socket wt (Suc n) (setup_payload a s) 0 w) (\<lambda>(tr', d', w').
      host_up w' \<and> peer_view w' = peer_view w \<and>
      host_ctrl w' = (host_ctrl w)\<lparr>m_resp_data := peer_descriptor s, m_resp_valid := True\<rparr>)"
    using send_ctrl_data_host [of "bump_seq w" "peer_descriptor s"]
    by (simp add: tb_setup peer_handle_setup_def) (simp add: host_up_def peer_view_def)
next
  fix w :: tb_world and s :: usb3_setup_pkt and a
  assume "host_up w" "bRequest s = USB_REQ_SET_ADDRESS"
  then show "returns (tb_host_socket wt (Suc n) (setup_payload a s) 0 w) (\<lambda>(tr', d', w').
      host_up w' \<and> peer_view w' = (ucast (wValue s AND 0x7F), snd (peer_view w)) \<and>
      host_ctrl w' = host_ctrl w)"
    by (simp add: tb_setup peer_handle_setup_def usb_req_defs) (simp add: host_up_def peer_view_def)
next
  fix w :: tb_world and s :: usb3_setup_pkt and a
  assume "host_up w" "bRequest s = USB_REQ_SET_CONFIGURATION"
  then show "returns (tb_host_socket wt (Suc n) (setup_payload a s) 0 w) (\<lambda>(tr', d', w').
      host_up w' \<and> peer_view w' = (fst (peer_view w), True) \<and> host_ctrl w' = host_ctrl w)"
    by (simp add: tb_setup peer_handle_setup_def usb_req_defs) (simp add: host_up_def peer_view_def)
next
  fix w :: tb_world and a b
  assume "host_up w"
  then show "returns (tb_host_socket wt (Suc n) (status_payload a b) 0 w) (\<lambda>(tr', d', w').
      response_status tr' = TLM_OK_RESPONSE \<and> host_up w' \<and> peer_view w' = peer_view w \<and>
      host_ctrl w' = host_ctrl w)"
    by (simp add: tb_status)
qed

lemma peer_descriptor_values:
  "peer_descriptor (get_descriptor_setup USB_DESC_DEVICE 0) = make_dev_desc"
  "peer_descriptor (get_descriptor_setup USB_DESC_CONFIGURATION 0) = make_cfg_desc"
  "peer_descriptor (get_descriptor_setup USB_DESC_BOS 0) = peer_bos"
  by (simp_all add: peer_descriptor_def cap_length_take make_dev_desc_def)
    (simp_all add: get_descriptor_setup_def usb_desc_defs make_cfg_desc_def peer_bos_def)

lemma peer_descriptor_nonempty:
  "make_dev_desc \<noteq> []" "make_cfg_desc \<noteq> []" "peer_bos \<noteq> []"
  by (simp_all add: make_dev_desc_def dev_desc_bytes_value make_cfg_desc_def peer_bos_def)

lemma parse_peer_dev_desc:
  "parse_dev_desc make_dev_desc d = d\<lparr>vendor_id := 0xAB12, product_id := 0xCD34, num_configs := 1\<rparr>"
  by (simp add: parse_dev_desc_def make_dev_desc_def dev_desc_bytes_value le16_def)

section \<open>Bulk transfers to the peer\<close>

text \<open>
  A wait that leaves the host controller, the signals it depends on and the peer alone.
\<close>

definition still_wait :: "tb_world waiting \<Rightarrow> bool" where
  "still_wait wt \<longleftrightarrow> (\<forall>t w. host_ctrl (wt t w) = host_ctrl w \<and> sig_role (sigs (wt t w)) = sig_role (sigs w) \<and>
     sig_host_enable (sigs (wt t w)) = sig_host_enable (sigs w) \<and> peer (wt t w) = peer w)"

lemma still_waitD:
  assumes "still_wait wt"
  shows "host_ctrl (wt t w) = host_ctrl w" "sig_role (sigs (wt t w)) = sig_role (sigs w)"
    "sig_host_enable (sigs (wt t w)) = sig_host_enable (sigs w)" "peer (wt t w) = peer w"
  using assms by (simp_all add: still_wait_def)

lemma still_wait_quiet: "still_wait wt \<Longrightarrow> quiet_wait host_up peer_view wt"
  by (simp add: still_wait_def quiet_wait_def host_up_def peer_view_def)

lemma tb_bulk_out:
  assumes "trb_direction t = HOST_TO_DEVICE"
  shows "\<exists>tr'. tb_host_socket wt (Suc n) (trb_to_payload t) d w =
    Inr (tr', d, (bump_seq w)\<lparr>peer := (peer w)\<lparr>m_loopback_buf := trb_payload t\<rparr>\<rparr>)"
  using assms
  by (simp add: host_to_protocol_def tx_eq_route route_tx_ext trb_to_payload_def Let_def
      tb_link_Suc peer_b_transport_def bump_seq_def)

lemma tb_bulk_in:
  assumes "trb_direction t = DEVICE_TO_HOST" and "host_up w" and "m_loopback_buf (peer w) = bs"
    and "bs \<noteq> []"
  shows "\<exists>tr'. tb_host_socket wt (Suc n) (trb_to_payload t) d w =
    Inr (tr', d, (bump_seq w)\<lparr>host_ctrl := (host_ctrl w)\<lparr>m_resp_data := bs, m_resp_valid := True\<rparr>,
      peer := (peer w)\<lparr>m_loopback_buf := []\<rparr>\<rparr>)"
  using assms peer_send_bulk_in_host [of "bump_seq w" bs]
  by (simp add: host_to_protocol_def tx_eq_route route_tx_ext trb_to_payload_def Let_def
      tb_link_Suc peer_b_transport_def)
    (simp add: bump_seq_def peer_send_bulk_in_def)

text \<open>
  The bulk part of \<open>run_scenarios\<close>: queue an OUT transfer to endpoint 2 and let the host thread
  run, queue an IN transfer from endpoint 1 and let it run again, then compare what came back.
\<close>

definition tb_bulk_round :: "tb_world waiting \<Rightarrow> (host_controller \<Rightarrow> host_controller run) \<Rightarrow>
    tb_world \<Rightarrow> tb_world run" where
  "tb_bulk_round wt queue w =
     bindR (queue (host_ctrl w)) (\<lambda>h.
     bindR (process_transfer_ring (tb_host_socket wt 2) wt 1 (w\<lparr>host_ctrl := h\<rparr>))
       (\<lambda>(out, w). Inr w))"

definition tb_bulk_loopback :: "tb_world waiting \<Rightarrow> u8 list \<Rightarrow> nat \<Rightarrow> tb_world \<Rightarrow> tb_world run" where
  "tb_bulk_loopback wt tx_data len w =
     bindR (tb_bulk_round wt (bulk_out (di_addr (m_dev (host_ctrl w))) 2 tx_data) w) (\<lambda>w.
       tb_bulk_round wt (bulk_in (di_addr (m_dev (host_ctrl w))) 1 len) w)"

definition loopback_ok :: "u8 list \<Rightarrow> u8 list \<Rightarrow> bool" where
  "loopback_ok rx tx_data \<longleftrightarrow> length rx = 64 \<and> (\<forall>i < length rx. rx ! i = tx_data ! i)"

definition tx_pattern :: "u8 list" where
  "tx_pattern = map of_nat [0..<64]"

text \<open>One queued TRB on an otherwise empty ring is run and leaves the ring empty.\<close>

lemma process_one:
  assumes "sig_host_enable (sigs w)" and "ring_queue (m_transfer_ring (host_ctrl w)) = [t]"
  shows "process_transfer_ring tp wt (Suc 0) w =
    bindR (run_trb tp wt t (w\<lparr>host_ctrl := (host_ctrl w)
             \<lparr>m_transfer_ring := (m_transfer_ring (host_ctrl w))\<lparr>ring_queue := []\<rparr>\<rparr>\<rparr>))
      (process_transfer_ring tp wt 0)"
  using assms by (simp add: process_transfer_ring.simps [of tp wt "Suc 0"] ring_empty_def ring_dequeue_def)

lemma process_idle:
  "sig_host_enable (sigs w) \<Longrightarrow> ring_queue (m_transfer_ring (host_ctrl w)) = [] \<Longrightarrow>
   process_transfer_ring tp wt n w = Inr (RingBlocked, w)"
  by (simp add: process_transfer_ring.simps ring_empty_def)

lemma bulk_enqueued:
  assumes "ring_queue (m_transfer_ring h) = []"
  shows "enqueue_bulk_trb a ep dir len bs h = Inr (h\<lparr>m_transfer_ring := (m_transfer_ring h)
    \<lparr>ring_queue := [default_trb\<lparr>trb_dev_addr := a, trb_endpoint := ep, trb_direction := dir,
        trb_ep_type := BULK, trb_payload := bs, trb_length := of_nat len, trb_ioc := True\<rparr>]\<rparr>,
      m_trb_complete_event := True\<rparr>)"
  using assms by (simp add: enqueue_bulk_trb_def ring_enqueue_def RING_DEPTH_def)

text \<open>
  A round on an empty ring runs the one TRB it queues; what holds after \<open>run_trb\<close> holds at the end.
\<close>

lemma bulk_round:
  assumes "ring_queue (m_transfer_ring (host_ctrl w)) = []" and "sig_host_enable (sigs w)"
    and "\<And>t w1. t = default_trb\<lparr>trb_dev_addr := a, trb_endpoint := ep, trb_direction := dir,
          trb_ep_type := BULK, trb_payload := bs, trb_length := of_nat len, trb_ioc := True\<rparr> \<Longrightarrow>
        sigs w1 = sigs w \<Longrightarrow> tb_world.peer w1 = peer w \<Longrightarrow>
        ring_queue (m_transfer_ring (host_ctrl w1)) = [] \<Longrightarrow>
        returns (run_trb (tb_host_socket wt 2) wt t w1) (\<lambda>w'. sig_host_enable (sigs w') \<and>
          ring_queue (m_transfer_ring (host_ctrl w')) = [] \<and> P w')"
  shows "returns (tb_bulk_round wt (enqueue_bulk_trb a ep dir len bs) w) (\<lambda>w'.
    sig_host_enable (sigs w') \<and> ring_queue (m_transfer_ring (host_ctrl w')) = [] \<and> P w')"
proof -
  let ?t = "default_trb\<lparr>trb_dev_addr := a, trb_endpoint := ep, trb_direction := dir,
    trb_ep_type := BULK, trb_payload := bs, trb_length := of_nat len, trb_ioc := True\<rparr>"
  let ?h = "(host_ctrl w)\<lparr>m_transfer_ring := (m_transfer_ring (host_ctrl w))\<lparr>ring_queue := [?t]\<rparr>,
    m_trb_complete_event := True\<rparr>"
  let ?w0 = "w\<lparr>host_ctrl := ?h\<rparr>"
  let ?w1 = "?w0\<lparr>host_ctrl := (host_ctrl ?w0)
    \<lparr>m_transfer_ring := (m_transfer_ring (host_ctrl ?w0))\<lparr>ring_queue := []\<rparr>\<rparr>\<rparr>"
  obtain w' where r: "run_trb (tb_host_socket wt 2) wt ?t ?w1 = Inr w'" "sig_host_enable (sigs w')"
    "ring_queue (m_transfer_ring (host_ctrl w')) = []" "P w'"
    using assms(3) [OF refl, of ?w1] by (auto simp: returns_iff_ex)
  have "process_transfer_ring (tb_host_socket wt 2) wt (Suc 0) ?w0 =
      bindR (run_trb (tb_host_socket wt 2) wt ?t ?w1) (process_transfer_ring (tb_host_socket wt 2) wt 0)"
    by (rule process_one) (use assms(2) in simp_all)
  also have "\<dots> = Inr (RingBlocked, w')"
    unfolding r(1) bindR.simps by (rule process_idle [OF r(2,3)])
  finally show ?thesis
    using r(2-4) bulk_enqueued [OF assms(1)] by (simp add: tb_bulk_round_def)
qed

lemma bulk_out_round:
  assumes q: "still_wait wt" and "host_up w" and "sig_host_enable (sigs w)"
    and "ring_queue (m_transfer_ring (host_ctrl w)) = []"
  shows "returns (tb_bulk_round wt (bulk_out a ep bs) w) (\<lambda>w'. sig_host_enable (sigs w') \<and>
    ring_queue (m_transfer_ring (host_ctrl w')) = [] \<and> (host_up w' \<and> m_loopback_buf (peer w') = bs))"
  unfolding bulk_out_def
proof (rule bulk_round [OF assms(4,3)])
  fix t and w1 :: tb_world
  assume t: "t = default_trb\<lparr>trb_dev_addr := a, trb_endpoint := ep, trb_direction := HOST_TO_DEVICE,
      trb_ep_type := BULK, trb_payload := bs, trb_length := of_nat (length bs), trb_ioc := True\<rparr>"
    and w1: "sigs w1 = sigs w" "ring_queue (m_transfer_ring (host_ctrl w1)) = []"
  then obtain tr' where "tb_host_socket wt (Suc 1) (trb_to_payload t) 0 w1 =
      Inr (tr', 0, (bump_seq w1)\<lparr>peer := (peer w1)\<lparr>m_loopback_buf := bs\<rparr>\<rparr>)"
    using tb_bulk_out [of t wt 1 0 w1] by auto
  then show "returns (run_trb (tb_host_socket wt 2) wt t w1) (\<lambda>w'. sig_host_enable (sigs w') \<and>
      ring_queue (m_transfer_ring (host_ctrl w')) = [] \<and> (host_up w' \<and> m_loopback_buf (peer w') = bs))"
    using t w1 assms(2,3) by (simp add: run_trb_def Let_def numeral_2_eq_2 still_waitD [OF q] host_up_def)
qed

lemma bulk_in_round:
  assumes q: "still_wait wt" and "host_up w" and "sig_host_enable (sigs w)"
    and "ring_queue (m_transfer_ring (host_ctrl w)) = []"
    and bs: "m_loopback_buf (peer w) = bs" "bs \<noteq> []"
  shows "returns (tb_bulk_round wt (bulk_in a ep len) w) (\<lambda>w'. sig_host_enable (sigs w') \<and>
    ring_queue (m_transfer_ring (host_ctrl w')) = [] \<and>
    (host_up w' \<and> m_rx_buf (host_ctrl w') = bs \<and> m_loopback_buf (peer w') = []))"
  unfolding bulk_in_def
proof (rule bulk_round [OF assms(4,3)])
  fix t and w1 :: tb_world
  assume t: "t = default_trb\<lparr>trb_dev_addr := a, trb_endpoint := ep, trb_direction := DEVICE_TO_HOST,
      trb_ep_type := BULK, trb_payload := [], trb_length := of_nat len, trb_ioc := True\<rparr>"
    and w1: "sigs w1 = sigs w" "peer w1 = peer w" "ring_queue (m_transfer_ring (host_ctrl w1)) = []"
  have up: "host_up w1" using w1 assms(2) by (simp add: host_up_def)
  obtain tr' where "tb_host_socket wt (Suc 1) (trb_to_payload t) 0 w1 =
      Inr (tr', 0, (bump_seq w1)\<lparr>host_ctrl := (host_ctrl w1)\<lparr>m_resp_data := bs, m_resp_valid := True\<rparr>,
        peer := (peer w1)\<lparr>m_loopback_buf := []\<rparr>\<rparr>)"
    using tb_bulk_in [of t w1 bs wt 1 0] up bs t w1(2) by auto
  then show "returns (run_trb (tb_host_socket wt 2) wt t w1) (\<lambda>w'. sig_host_enable (sigs w') \<and>
      ring_queue (m_transfer_ring (host_ctrl w')) = [] \<and>
      (host_up w' \<and> m_rx_buf (host_ctrl w') = bs \<and> m_loopback_buf (peer w') = []))"
    using t w1 assms(2,3) by (simp add: run_trb_def Let_def numeral_2_eq_2 still_waitD [OF q] host_up_def)
qed

text \<open>
  The testbench in host role: the state of a new simulation with the role and the host's enable
  visible.
\<close>

definition tb_host_world :: tb_world where
  "tb_host_world = tb_new\<lparr>sigs := drd_signals_new\<lparr>sig_role := HOST, sig_host_enable := True\<rparr>\<rparr>"

lemma tb_host_world_sel [simp]:
  "host_up tb_host_world" "sig_host_enable (sigs tb_host_world)"
  "host_ctrl tb_host_world = host_controller_new" "peer tb_host_world = peer_device_new"
  by (simp_all add: tb_host_world_def host_up_def tb_new_def world.extend_def drd_new_def)

lemma still_wait_id [simp]: "still_wait (\<lambda>t w. w)"
  by (simp add: still_wait_def)

text \<open>What the testbench's bulk test does comes out as it expects: data queued as an OUT transfer
to the peer and fetched with an IN transfer ends up unchanged in the receive buffer, the ring is
empty again, and a 64-byte pattern passes the testbench's comparison.\<close>

theorem bulk_loopback_succeeds:
  assumes "still_wait wt" and "host_up w" and "sig_host_enable (sigs w)"
    and "ring_queue (m_transfer_ring (host_ctrl w)) = []" and "tx \<noteq> []"
  shows "returns (tb_bulk_loopback wt tx len w) (\<lambda>w'. m_rx_buf (host_ctrl w') = tx \<and>
    ring_empty (m_transfer_ring (host_ctrl w')) \<and>
    loopback_ok (m_rx_buf (host_ctrl w')) tx = (length tx = 64))"
  unfolding tb_bulk_loopback_def
  using assms
  by (intro returns_bind [OF bulk_out_round [OF assms(1-4)]] returns_mono [OF bulk_in_round])
    (auto simp: ring_empty_def loopback_ok_def)

lemma bulk_loopback_succeeds_witness:
  "returns (tb_bulk_loopback (\<lambda>t w. w) tx_pattern 64 tb_host_world)
     (\<lambda>w'. loopback_ok (m_rx_buf (host_ctrl w')) tx_pattern)"
  by (rule returns_mono [OF bulk_loopback_succeeds])
    (auto simp: host_controller_new_def ring_new_def tx_pattern_def)

end
