(* ===== verification/Host_Turns.thy ===== *)
theory Host_Turns imports Sim_Kernel Host_Peer begin

text \<open>
  The stretches of the host thread over the testbench's link in host role, as equations: what each
  control transfer and each TRB leaves in the host controller and in the peer.
\<close>

abbreviation tb_tp :: "tb_world b_transport" where
  "tb_tp \<equiv> tb_host_socket no_wait 2"

definition put_resp :: "u8 list \<Rightarrow> tb_world \<Rightarrow> tb_world" where
  "put_resp bs w = w\<lparr>host_ctrl := (host_ctrl w)\<lparr>m_resp_data := bs, m_resp_valid := True\<rparr>\<rparr>"

definition take_resp :: "tb_world \<Rightarrow> tb_world" where
  "take_resp w = w\<lparr>host_ctrl := (host_ctrl w)\<lparr>m_resp_data := [], m_resp_valid := False\<rparr>\<rparr>"

section \<open>Control transfers\<close>

lemmas tb_setup_two = tb_setup [where n = "Suc 0", folded numeral_2_eq_2]
lemmas tb_status_two = tb_status [where n = "Suc 0", folded numeral_2_eq_2]

lemma begin_get_tb:
  assumes "host_up w" and "peer_descriptor (get_descriptor_setup t 0) \<noteq> []"
  shows "ctrl_begin tb_tp st (get_descriptor_frame a t buf) w =
    Inr (H_Setup st (get_descriptor_frame a t buf),
      put_resp (peer_descriptor (get_descriptor_setup t 0)) (bump_seq w))"
  using assms send_ctrl_data_host [of "bump_seq w" "peer_descriptor (get_descriptor_setup t 0)"]
  by (simp add: ctrl_begin_def tb_setup_two peer_handle_setup_def put_resp_def)

lemma begin_address_tb:
  "ctrl_begin tb_tp st (set_address_frame a n) w =
    Inr (H_Setup st (set_address_frame a n),
      (bump_seq w)\<lparr>peer := (peer w)\<lparr>peer_assigned_addr := n AND 0x7F\<rparr>\<rparr>)"
proof -
  have "ucast ((ucast n :: u16) AND 0x7F) = n AND 0x7F"
    by (rule bit_word_eqI) (auto simp: bit_simps dest: bit_imp_le_length)
  then show ?thesis
    by (simp add: ctrl_begin_def tb_setup_two peer_handle_setup_def usb_req_defs bump_seq_def)
qed

lemma begin_configuration_tb:
  "ctrl_begin tb_tp st (set_configuration_frame a n) w =
    Inr (H_Setup st (set_configuration_frame a n),
      (bump_seq w)\<lparr>peer := (peer w)\<lparr>peer_configured := True\<rparr>\<rparr>)"
  by (simp add: ctrl_begin_def tb_setup_two peer_handle_setup_def usb_req_defs bump_seq_def)

lemma status_tb: "ctrl_status tb_tp st f w = Inr (H_Status st f True, w)"
  by (simp add: ctrl_status_def tb_status_two)

lemma data_get_tb:
  assumes "m_resp_valid (host_ctrl w)" and "wLength (get_descriptor_setup t 0) \<noteq> 0"
  shows "ctrl_data tp (get_descriptor_frame a t buf) w =
    Inr (get_descriptor_frame a t (m_resp_data (host_ctrl w)), False, take_resp w)"
  using assms by (simp add: ctrl_data_def take_resp_def unat_gt_0 get_descriptor_frame_def)

lemma data_set_tb:
  "ctrl_data tp (set_address_frame a n) w = Inr (set_address_frame a n, False, w)"
  "ctrl_data tp (set_configuration_frame a n) w = Inr (set_configuration_frame a n, False, w)"
  by (simp_all add: ctrl_data_def)

lemma get_descriptor_length: "wLength (get_descriptor_setup t 0) \<noteq> 0"
  by (simp add: get_descriptor_setup_def)

section \<open>Bulk transfers\<close>

definition bulk_trb :: "u8 \<Rightarrow> u8 \<Rightarrow> usb3_dir \<Rightarrow> nat \<Rightarrow> u8 list \<Rightarrow> usb3_trb" where
  "bulk_trb a ep dir n bs = default_trb\<lparr>trb_dev_addr := a, trb_endpoint := ep, trb_direction := dir,
     trb_ep_type := BULK, trb_payload := bs, trb_length := of_nat n, trb_ioc := True\<rparr>"

lemma bulk_trb_sel [simp]:
  "trb_direction (bulk_trb a ep dir n bs) = dir" "trb_payload (bulk_trb a ep dir n bs) = bs"
  "trb_ioc (bulk_trb a ep dir n bs)"
  by (simp_all add: bulk_trb_def)

definition put_ring :: "usb3_trb list \<Rightarrow> tb_world \<Rightarrow> tb_world" where
  "put_ring ts w = w\<lparr>host_ctrl := (host_ctrl w)\<lparr>m_transfer_ring :=
     (m_transfer_ring (host_ctrl w))\<lparr>ring_queue := ts\<rparr>\<rparr>\<rparr>"

definition set_xfer :: "bool \<Rightarrow> tb_world \<Rightarrow> tb_world" where
  "set_xfer b w = w\<lparr>host_ctrl := (host_ctrl w)\<lparr>transfer_done := b\<rparr>\<rparr>"

lemma trb_out_tb:
  assumes "ring_queue (m_transfer_ring (host_ctrl w)) = t # ts" and "trb_direction t = HOST_TO_DEVICE"
    and "trb_ioc t"
  shows "trb_segment tb_tp w = Inr (H_XferDone, set_xfer True
    ((bump_seq (put_ring ts w))\<lparr>peer := (peer w)\<lparr>m_loopback_buf := trb_payload t\<rparr>\<rparr>))"
proof -
  obtain tr' where "tb_tp (trb_to_payload t) 0 (put_ring ts w) = Inr (tr', 0,
      (bump_seq (put_ring ts w))\<lparr>peer := (peer (put_ring ts w))\<lparr>m_loopback_buf := trb_payload t\<rparr>\<rparr>)"
    using tb_bulk_out [OF assms(2), of no_wait "Suc 0" 0 "put_ring ts w", folded numeral_2_eq_2] by blast
  with assms show ?thesis
    by (simp add: trb_segment_def ring_dequeue_def put_ring_def set_xfer_def)
qed

lemma trb_in_tb:
  assumes "ring_queue (m_transfer_ring (host_ctrl w)) = t # ts" and "trb_direction t = DEVICE_TO_HOST"
    and "trb_ioc t" and "host_up w" and "m_loopback_buf (peer w) \<noteq> []"
  shows "trb_segment tb_tp w = Inr (H_XferDone, set_xfer True
    ((bump_seq (put_ring ts w))\<lparr>host_ctrl := (host_ctrl (put_ring ts w))\<lparr>
        m_rx_buf := m_loopback_buf (peer w), m_resp_data := [], m_resp_valid := False\<rparr>,
      peer := (peer w)\<lparr>m_loopback_buf := []\<rparr>\<rparr>))"
proof -
  have up: "host_up (put_ring ts w)" using assms(4) by (simp add: host_up_def put_ring_def)
  have "m_loopback_buf (peer (put_ring ts w)) = m_loopback_buf (peer w)" by (simp add: put_ring_def)
  from tb_bulk_in [OF assms(2) up this assms(5), of no_wait "Suc 0" 0, folded numeral_2_eq_2]
  obtain tr' where "tb_tp (trb_to_payload t) 0 (put_ring ts w) = Inr (tr', 0,
      (bump_seq (put_ring ts w))\<lparr>host_ctrl := (host_ctrl (put_ring ts w))
        \<lparr>m_resp_data := m_loopback_buf (peer w), m_resp_valid := True\<rparr>,
      peer := (peer (put_ring ts w))\<lparr>m_loopback_buf := []\<rparr>\<rparr>)" by blast
  with assms show ?thesis
    by (simp add: trb_segment_def ring_dequeue_def put_ring_def set_xfer_def)
qed

end
