(* ===== verification/Host_Places.thy ===== *)
theory Host_Places imports Served_Role Pulses Host_Turns begin

text \<open>
  What the host thread does while the role HOST is served, whatever the other processes do
  meanwhile: a predicate on the thread's place, the host controller and the peer that every stretch
  of the thread keeps is kept by every step of the kernel.
\<close>

section \<open>The side of the host thread\<close>

text \<open>The parts of the host controller the thread works on, and the peer.\<close>

definition host_side :: "tb_world \<Rightarrow> _" where
  "host_side w = (m_dev (host_ctrl w), m_next_addr (host_ctrl w), dev_addr_out (host_ctrl w),
     m_resp_valid (host_ctrl w), m_resp_data (host_ctrl w), m_rx_buf (host_ctrl w),
     ring_queue (m_transfer_ring (host_ctrl w)), peer w)"

lemma delta_host_side: "host_side (delta_world s) = host_side (sim_world s)"
  by (simp add: host_side_def delta_world_def clear_events_def update_signals_def)

text \<open>A turn keeps the signals, so the host stays up.\<close>

interpretation sigs_kept: host_closed "\<lambda>w. sigs w = c" tb_tp for c
proof
  show "keeps_bt (\<lambda>w. sigs w = c) tb_tp"
    unfolding keeps_bt_def
  proof (intro allI impI)
    fix tr d and w :: tb_world
    assume "sigs w = c"
    moreover have "after_run (tb_tp tr d w) (\<lambda>r. drd_rest (snd (snd r)) = drd_rest w)"
      by (rule keeps_btD [OF rest_kept.host_socket_keeps refl])
    ultimately show "after_run (tb_tp tr d w) (\<lambda>r. sigs (snd (snd r)) = c)"
      by (auto simp: after_run_def drd_rest_def split: sum.splits)
  qed
qed simp

section \<open>Predicates the thread keeps\<close>

text \<open>
  \<open>Q\<close> looks at the host side only, and a stretch of the thread keeps it while the controller is
  enabled in host role.
\<close>

locale host_places =
  fixes Q :: "host_pc \<Rightarrow> tb_world \<Rightarrow> bool"
  assumes Q_side: "host_side w' = host_side w \<Longrightarrow> Q pc w' = Q pc w"
    and Q_segment: "host_up w \<Longrightarrow> sig_host_enable (sigs w) \<Longrightarrow> Q pc w \<Longrightarrow>
      host_segment tb_tp pc w = Inr (pc', w') \<Longrightarrow> Q pc' w'"
begin

lemma turn_keeps:
  "host_up w \<Longrightarrow> sig_host_enable (sigs w) \<Longrightarrow> Q pc w \<Longrightarrow>
   host_turn tb_tp n pc w = Inr (pc', w') \<Longrightarrow> Q pc' w'"
proof (induction n arbitrary: pc w)
  case 0
  then show ?case by simp
next
  case (Suc n)
  then obtain pc1 w1 where s: "host_segment tb_tp pc w = Inr (pc1, w1)"
    and k: "(if at_wait pc1 then Inr (pc1, w1) else host_turn tb_tp n pc1 w1) = Inr (pc', w')"
    by (auto simp: host_turn.simps(2) bindR_eq_Inr)
  have "sigs w1 = sigs w" using after_runD [OF sigs_kept.segment_closed [OF refl] s] by simp
  with Suc.prems have up: "host_up w1" "sig_host_enable (sigs w1)" by (simp_all add: host_up_def)
  show ?case
    using k Suc.IH [OF up Q_segment [OF Suc.prems(1-3) s]] Q_segment [OF Suc.prems(1-3) s]
    by (auto split: if_splits)
qed

definition placed :: "sim \<Rightarrow> bool" where
  "placed s \<longleftrightarrow> (host_at s = H_Disabled \<or> sig_host_enable (sigs (sim_world s))) \<and> Q (host_at s) (sim_world s)"

lemma others_placed:
  assumes "proc_turn p (s\<lparr>ready := rs\<rparr>) = Inr t" and "p \<noteq> P_Host" and "placed s"
  shows "placed t"
proof -
  from others_host [OF assms(1,2)] have "host_side (sim_world t) = host_side (sim_world s)"
    "host_at t = host_at s" "sigs (sim_world t) = sigs (sim_world s)" by (simp_all add: host_side_def)
  with assms(3) Q_side [OF this(1)] show ?thesis by (simp add: placed_def)
qed

lemma run_placed:
  assumes inv: "sim_inv s" and p: "p \<in> set (ready s)" and sv: "served n HOST s" and pl: "placed s"
    and t: "proc_turn p (s\<lparr>ready := removeAll p (ready s)\<rparr>) = Inr t"
  shows "placed t"
proof (cases "p = P_Host")
  case False
  from others_placed [OF t False pl] show ?thesis .
next
  case True
  let ?w = "sim_world s"
  have en: "sig_host_enable (sigs ?w)"
    using pl sim_invD(3) [OF inv] p True by (auto simp: placed_def host_wait_inv_def)
  have up: "host_up ?w" using servedD(7) [OF sv] by (simp add: host_up_def)
  from t True obtain pc w where r: "host_turn tb_tp (host_fuel ?w) (host_at s) ?w = Inr (pc, w)"
    and w: "host_at t = pc" "sim_world t = w" by (auto simp: host_thread_turn_def bindR_eq_Inr Let_def)
  have "Q pc w" using turn_keeps [OF up en _ r] pl by (simp add: placed_def)
  moreover have "sigs w = sigs ?w" using after_runD [OF sigs_kept.turn_closed [OF refl] r] by simp
  ultimately show ?thesis using en w by (simp add: placed_def)
qed

lemma delta_placed:
  assumes "placed s" and "host_at s = H_Disabled \<or> host_enable (drd (sim_world s))"
  shows "placed (delta_cycle s)"
  using assms Q_side [OF delta_host_side] by (auto simp: placed_def bind_internal_def)

lemma advance_placed: "placed (advance t s) = placed s"
  by (simp add: placed_def)

lemma kernel_placed: "kernel_step s t \<Longrightarrow> sim_inv s \<Longrightarrow> served n HOST s \<Longrightarrow> placed s \<Longrightarrow> placed t"
proof (induction rule: kernel_step.induct)
  case (k_run p s t)
  then show ?case using run_placed by blast
next
  case (k_delta s)
  then show ?case using delta_placed servedD(11) by blast
next
  case (k_time s p t)
  then show ?case by (simp add: advance_placed)
qed

lemma placed_rest:
  assumes "sim_inv s" and "at_rest s" and "served n HOST s" and "placed s"
  shows "host_at s = H_RingEmpty" and "Q H_RingEmpty (sim_world s)"
    and "ring_queue (m_transfer_ring (host_ctrl (sim_world s))) = []"
proof -
  have e: "sig_host_enable (sigs (sim_world s))" using served_rest(1) [OF assms(3,2)] by simp
  with rest_state(4) [OF assms(1,2)] show h: "host_at s = H_RingEmpty" by simp
  with assms(4) show "Q H_RingEmpty (sim_world s)" by (simp add: placed_def)
  show "ring_queue (m_transfer_ring (host_ctrl (sim_world s))) = []"
    by (rule rest_state(6) [OF assms(1,2) e])
qed

end

section \<open>One TRB against the peer\<close>

definition told :: "tb_world \<Rightarrow> u8 \<times> usb3_device_info \<times> u8 \<times> dev_view" where
  "told w = (m_next_addr (host_ctrl w), m_dev (host_ctrl w), dev_addr_out (host_ctrl w), peer_view w)"

text \<open>The peer's loopback buffer and what the host received last, and what a TRB does to them.\<close>

definition bulk_data :: "tb_world \<Rightarrow> u8 list \<times> u8 list" where
  "bulk_data w = (m_loopback_buf (peer w), m_rx_buf (host_ctrl w))"

definition trb_effect :: "usb3_trb \<Rightarrow> u8 list \<times> u8 list \<Rightarrow> u8 list \<times> u8 list" where
  "trb_effect t d = (if trb_direction t = HOST_TO_DEVICE then (trb_payload t, snd d)
     else if fst d = [] then d else ([], fst d))"

lemma tb_bulk_none:
  assumes "trb_direction t = DEVICE_TO_HOST" and "m_loopback_buf (peer w) = []"
  shows "\<exists>tr'. tb_host_socket wt (Suc n) (trb_to_payload t) d w = Inr (tr', d, bump_seq w)"
  using assms
  by (simp add: host_to_protocol_def tx_eq_route route_tx_ext trb_to_payload_def Let_def
      tb_link_Suc peer_b_transport_def bump_seq_def)

lemmas tb_bulk_two = tb_bulk_out [where n = "Suc 0", folded numeral_2_eq_2]
  tb_bulk_in [where n = "Suc 0", folded numeral_2_eq_2] tb_bulk_none [where n = "Suc 0", folded numeral_2_eq_2]

text \<open>One TRB: it leaves the ring, its data moves, and nothing else is told or remembered.\<close>

lemma trb_segment_tb:
  assumes q: "ring_queue (m_transfer_ring (host_ctrl w)) = t # ts" and up: "host_up w"
    and v: "\<not> m_resp_valid (host_ctrl w)"
  shows "\<exists>w'. trb_segment tb_tp w = Inr (if trb_ioc t then H_XferDone else H_RingTop, w') \<and>
    ring_queue (m_transfer_ring (host_ctrl w')) = ts \<and> told w' = told w \<and>
    \<not> m_resp_valid (host_ctrl w') \<and> bulk_data w' = trb_effect t (bulk_data w)"
proof -
  let ?v = "put_ring ts w"
  have v': "\<not> m_resp_valid (host_ctrl ?v)" "peer ?v = peer w" "host_up ?v"
    using up v by (simp_all add: put_ring_def host_up_def)
  have seg: "trb_segment tb_tp w =
      bindR (tb_tp (trb_to_payload t) 0 ?v) (\<lambda>(tr, delay, w).
        let w = (if trb_direction t = DEVICE_TO_HOST \<and> m_resp_valid (host_ctrl w)
              then w\<lparr>host_ctrl := (host_ctrl w)\<lparr>m_rx_buf := m_resp_data (host_ctrl w),
                       m_resp_data := [], m_resp_valid := False\<rparr>\<rparr>
              else w) in
        if trb_ioc t then Inr (H_XferDone, set_xfer True w) else Inr (H_RingTop, w))"
    using q by (simp add: trb_segment_def ring_dequeue_def put_ring_def set_xfer_def Let_def cong: if_cong)
  consider (out) "trb_direction t = HOST_TO_DEVICE"
    | (none) "trb_direction t = DEVICE_TO_HOST" "m_loopback_buf (peer ?v) = []"
    | (data) "trb_direction t = DEVICE_TO_HOST" "m_loopback_buf (peer ?v) \<noteq> []"
    by (cases "trb_direction t") auto
  then show ?thesis
  proof cases
    case out
    with v' tb_bulk_two(1) [OF out, of no_wait 0 ?v] show ?thesis
      by (auto simp: seg told_def bulk_data_def trb_effect_def set_xfer_def put_ring_def peer_view_def)
  next
    case none
    with v' tb_bulk_two(3) [OF none, of no_wait 0] show ?thesis
      by (auto simp: seg told_def bulk_data_def trb_effect_def set_xfer_def put_ring_def peer_view_def)
  next
    case data
    with v' tb_bulk_two(2) [OF data(1) v'(3) refl data(2), of no_wait 0] show ?thesis
      by (auto simp: seg told_def bulk_data_def trb_effect_def set_xfer_def put_ring_def peer_view_def)
  qed
qed

end
