(* ===== verification/Host_Attach.thy ===== *)
theory Host_Attach imports Host_Places begin

text \<open>
  Enumeration as the kernel runs it: an invariant of the host thread's places says which
  descriptor or request is on its way, what is known of the device and what the peer has been
  told; a stretch of the thread leads from one place to the next, and nobody else interferes.
\<close>

section \<open>The places of an enumeration\<close>

definition enum_dev :: "u8 \<Rightarrow> u8 \<Rightarrow> bool \<Rightarrow> usb3_device_info" where
  "enum_dev a c e = \<lparr> di_addr = a, vendor_id = 0xAB12, product_id = 0xCD34, num_configs = 1,
     active_config = c, enumerated = e, di_speed = SUPER_SPEED \<rparr>"

definition addressed :: "u8 \<Rightarrow> tb_world \<Rightarrow> bool" where
  "addressed a w \<longleftrightarrow> m_next_addr (host_ctrl w) = a + 1 \<and> dev_addr_out (host_ctrl w) = a \<and>
     peer_assigned_addr (peer w) = a AND 0x7F"

definition has_resp :: "u8 list \<Rightarrow> tb_world \<Rightarrow> bool" where
  "has_resp bs w \<longleftrightarrow> m_resp_valid (host_ctrl w) \<and> m_resp_data (host_ctrl w) = bs"

text \<open>What is known of the device while a stage of the enumeration is on its way.\<close>

fun stage_place :: "u8 \<Rightarrow> enum_stage \<Rightarrow> tb_world \<Rightarrow> bool" where
  "stage_place a E_Device w \<longleftrightarrow> m_dev (host_ctrl w) = default_device_info \<and> m_next_addr (host_ctrl w) = a"
| "stage_place a (E_Address n b) w \<longleftrightarrow> n = a \<and> m_dev (host_ctrl w) = enum_dev 0 0 False \<and>
     m_next_addr (host_ctrl w) = a + 1 \<and> peer_assigned_addr (peer w) = a AND 0x7F"
| "stage_place a E_Config w \<longleftrightarrow> m_dev (host_ctrl w) = enum_dev a 0 False \<and> addressed a w"
| "stage_place a E_Bos w \<longleftrightarrow> m_dev (host_ctrl w) = enum_dev a 1 False \<and> addressed a w"
| "stage_place a E_Configure w \<longleftrightarrow> m_dev (host_ctrl w) = enum_dev a 1 False \<and> addressed a w \<and>
     peer_configured (peer w)"

text \<open>The request of a stage, with the answer that is there once it has been sent.\<close>

fun stage_sent :: "u8 \<Rightarrow> enum_stage \<Rightarrow> ctrl_frame \<Rightarrow> tb_world \<Rightarrow> bool" where
  "stage_sent a E_Device f w \<longleftrightarrow> f = get_descriptor_frame 0 USB_DESC_DEVICE [] \<and> has_resp make_dev_desc w"
| "stage_sent a (E_Address n b) f w \<longleftrightarrow> f = set_address_frame 0 a \<and> \<not> m_resp_valid (host_ctrl w)"
| "stage_sent a E_Config f w \<longleftrightarrow>
     f = get_descriptor_frame a USB_DESC_CONFIGURATION (cf_buf f) \<and> has_resp make_cfg_desc w"
| "stage_sent a E_Bos f w \<longleftrightarrow> f = get_descriptor_frame a USB_DESC_BOS [] \<and> has_resp peer_bos w"
| "stage_sent a E_Configure f w \<longleftrightarrow> f = set_configuration_frame a 1 \<and> \<not> m_resp_valid (host_ctrl w)"

fun stage_buf :: "enum_stage \<Rightarrow> u8 list \<Rightarrow> bool" where
  "stage_buf E_Device bs \<longleftrightarrow> bs = make_dev_desc"
| "stage_buf E_Config bs \<longleftrightarrow> bs = make_cfg_desc"
| "stage_buf st bs \<longleftrightarrow> True"

definition attached :: "u8 \<Rightarrow> tb_world \<Rightarrow> bool" where
  "attached a w \<longleftrightarrow> m_dev (host_ctrl w) = enum_dev a 1 True \<and> addressed a w \<and> peer_configured (peer w) \<and>
     \<not> m_resp_valid (host_ctrl w)"

fun enum_place :: "u8 \<Rightarrow> host_pc \<Rightarrow> tb_world \<Rightarrow> bool" where
  "enum_place a (H_Setup st f) w \<longleftrightarrow> stage_place a st w \<and> stage_sent a st f w"
| "enum_place a (H_Status st f ok) w \<longleftrightarrow> ok \<and> stage_place a st w \<and> stage_buf st (cf_buf f) \<and>
     \<not> m_resp_valid (host_ctrl w)"
| "enum_place a (H_AddrSettle b) w \<longleftrightarrow> m_dev (host_ctrl w) = enum_dev a 0 False \<and> addressed a w \<and>
     \<not> m_resp_valid (host_ctrl w)"
| "enum_place a H_Disabled w \<longleftrightarrow> m_next_addr (host_ctrl w) = a"
| "enum_place a H_EnumDone w \<longleftrightarrow> attached a w"
| "enum_place a H_RingTop w \<longleftrightarrow> attached a w"
| "enum_place a H_RingEmpty w \<longleftrightarrow> attached a w"
| "enum_place a H_XferDone w \<longleftrightarrow> attached a w"
| "enum_place a pc w \<longleftrightarrow> False"

lemma enum_place_side:
  assumes "host_side w' = host_side w"
  shows "enum_place a pc w' = enum_place a pc w"
proof -
  have "m_dev (host_ctrl w') = m_dev (host_ctrl w)" "m_next_addr (host_ctrl w') = m_next_addr (host_ctrl w)"
    "dev_addr_out (host_ctrl w') = dev_addr_out (host_ctrl w)" "m_resp_valid (host_ctrl w') = m_resp_valid (host_ctrl w)"
    "m_resp_data (host_ctrl w') = m_resp_data (host_ctrl w)" "peer w' = peer w"
    using assms by (simp_all add: host_side_def)
  note f = this
  then have "addressed a w' = addressed a w" "has_resp bs w' = has_resp bs w" "attached a w' = attached a w" for bs
    by (simp_all add: addressed_def has_resp_def attached_def)
  moreover from this f have "stage_place a st w' = stage_place a st w" for st
    by (cases st) simp_all
  moreover have "stage_sent a st f w' = stage_sent a st f w" for st f
    using calculation f(4) by (cases st) simp_all
  ultimately show ?thesis using f by (cases pc) simp_all
qed

section \<open>One stretch leads from place to place\<close>

lemma enumerate_place:
  assumes "host_up w" and "m_next_addr (host_ctrl w) = a"
  shows "\<exists>w'. host_enumerate tb_tp w = Inr (H_Setup E_Device (get_descriptor_frame 0 USB_DESC_DEVICE []), w') \<and>
    enum_place a (H_Setup E_Device (get_descriptor_frame 0 USB_DESC_DEVICE [])) w'"
proof -
  let ?w = "w\<lparr>host_ctrl := (host_ctrl w)\<lparr>m_dev := default_device_info\<rparr>\<rparr>"
  have "host_up ?w" using assms(1) by (simp add: host_up_def)
  from begin_get_tb [OF this, of USB_DESC_DEVICE] show ?thesis
    using assms(2) by (simp add: host_enumerate_def peer_descriptor_values peer_descriptor_nonempty
        put_resp_def has_resp_def)
qed

text \<open>The request has been sent: data stage and status stage.\<close>

lemma sent_place:
  assumes "enum_place a (H_Setup st f) w"
  shows "\<exists>f' w'. host_segment tb_tp (H_Setup st f) w = Inr (H_Status st f' True, w') \<and>
    enum_place a (H_Status st f' True) w'"
proof -
  have get: "host_segment tb_tp (H_Setup st (get_descriptor_frame b t buf)) w =
      Inr (H_Status st (get_descriptor_frame b t bs) True, take_resp w)" if "has_resp bs w" for b t buf bs st
    using that data_get_tb [of w t] get_descriptor_length by (simp add: status_tb has_resp_def)
  have take: "host_ctrl (take_resp w) = (host_ctrl w)\<lparr>m_resp_data := [], m_resp_valid := False\<rparr>"
    "peer (take_resp w) = peer w" "addressed a (take_resp w) = addressed a w"
    by (simp_all add: take_resp_def addressed_def)
  have place: "stage_place a st (take_resp w) = stage_place a st w" for st
    by (cases st) (simp_all add: take)
  from assms show ?thesis
  proof (cases st)
    case E_Config
    with assms obtain b where "f = get_descriptor_frame a USB_DESC_CONFIGURATION b" by auto
    with assms E_Config show ?thesis by (auto simp: get [simplified] take)
  qed (auto simp: get [simplified] take data_set_tb status_tb)
qed

lemma make_cfg_config: "parse_cfg_desc make_cfg_desc d = d\<lparr>active_config := 1\<rparr>"
  by (simp add: parse_cfg_desc_def make_cfg_desc_def)

text \<open>The status stage is over: the next request.\<close>

lemma next_place:
  assumes "enum_place a (H_Status st f ok) w" and "host_up w"
  shows "\<exists>pc' w'. host_segment tb_tp (H_Status st f ok) w = Inr (pc', w') \<and> enum_place a pc' w'"
proof (cases st)
  case E_Device
  with assms show ?thesis
    by (auto simp: Let_def begin_address_tb put_dev_def parse_peer_dev_desc default_device_info_def
        enum_dev_def)
next
  case (E_Address n b)
  with assms show ?thesis
    by (auto simp: Let_def put_dev_def enum_dev_def addressed_def)
next
  case E_Config
  let ?w = "put_dev (parse_cfg_desc make_cfg_desc) w"
  have "host_up ?w" using assms(2) by (simp add: host_up_def put_dev_def)
  from begin_get_tb [OF this, of USB_DESC_BOS] E_Config assms show ?thesis
    by (auto simp: Let_def peer_descriptor_values peer_descriptor_nonempty put_resp_def has_resp_def
        put_dev_def make_cfg_config enum_dev_def addressed_def)
next
  case E_Bos
  with assms show ?thesis
    by (auto simp: begin_configuration_tb enum_dev_def addressed_def)
next
  case E_Configure
  with assms show ?thesis
    by (auto simp: Let_def put_dev_def enum_dev_def addressed_def attached_def)
qed

lemma attached_told:
  "told w' = told w \<Longrightarrow> m_resp_valid (host_ctrl w') = m_resp_valid (host_ctrl w) \<Longrightarrow> attached a w' = attached a w"
  by (auto simp: attached_def addressed_def told_def peer_view_def)

lemma attached_ring:
  assumes "attached a w" and "host_up w" and "ring_queue (m_transfer_ring (host_ctrl w)) = t # ts"
    and "trb_segment tb_tp w = Inr (pc', w')"
  shows "enum_place a pc' w'"
  using assms trb_segment_tb [OF assms(3,2)] attached_told [of w' w a]
  by (auto simp: attached_def split: if_splits)

lemma segment_place:
  assumes up: "host_up w" and en: "sig_host_enable (sigs w)" and p: "enum_place a pc w"
    and r: "host_segment tb_tp pc w = Inr (pc', w')"
  shows "enum_place a pc' w'"
proof (cases pc)
  case H_Disabled
  with enumerate_place [OF up, of a] p r show ?thesis by auto
next
  case (H_Setup st f)
  with sent_place [of a st f w] p r show ?thesis by auto
next
  case (H_Status st f ok)
  with next_place [of a st f ok w] p r up show ?thesis by auto
next
  case (H_AddrSettle b)
  from begin_get_tb [OF up, of USB_DESC_CONFIGURATION] H_AddrSettle p r show ?thesis
    by (auto simp: peer_descriptor_values peer_descriptor_nonempty put_resp_def has_resp_def enum_dev_def
        addressed_def)
next
  case H_RingTop
  show ?thesis
  proof (cases "ring_queue (m_transfer_ring (host_ctrl w))")
    case Nil
    with H_RingTop p r en show ?thesis by (simp add: ring_empty_def)
  next
    case (Cons t ts)
    with H_RingTop p r en attached_ring [OF _ up Cons] show ?thesis by (simp add: ring_empty_def)
  qed
qed (use p r in \<open>auto simp: attached_def addressed_def\<close>)

interpretation enum: host_places "enum_place a" for a
  by unfold_locales (rule enum_place_side segment_place; assumption)+

section \<open>The attachment under the kernel\<close>

text \<open>Until the monitor enables the controller, the host thread sleeps; from then on the role is served.\<close>

definition before_enable :: "inputs \<Rightarrow> sim \<Rightarrow> bool" where
  "before_enable n s \<longleftrightarrow> lone_inv n s \<and> \<not> host_enable (drd (sim_world s)) \<and>
     \<not> sig_host_enable (sigs (sim_world s)) \<and>
     (mon_at (sim_core s) = MON_Settle HOST \<longrightarrow> sig_role (sigs (sim_world s)) = HOST) \<and>
     host_at s = H_Disabled \<and> P_Host \<notin> set (ready s)"

definition attach_inv :: "inputs \<Rightarrow> u8 \<Rightarrow> sim \<Rightarrow> bool" where
  "attach_inv n a s \<longleftrightarrow> (before_enable n s \<or> served n HOST s) \<and> enum.placed a s"

text \<open>The turn in which the monitor enables the host controller.\<close>

lemma run_before_monitor:
  assumes "sim_inv s" and p: "P_Monitor \<in> set (ready s)" and b: "before_enable n s" and n: "wanted n = HOST"
    and t: "proc_turn P_Monitor (s\<lparr>ready := removeAll P_Monitor (ready s)\<rparr>) = Inr t"
  shows "before_enable n t \<or> served n HOST t"
proof -
  have lone: "lone_inv n s" using b by (simp add: before_enable_def)
  obtain pc w where w: "mon_segment (mon_at (sim_core s)) (sim_world s) = (pc, w)" by fastforce
  with t have c: "mon_at (sim_core t) = pc" "sim_world t = w" "rm_at (sim_core t) = rm_at (sim_core s)"
    "ready t = removeAll P_Monitor (ready s)" "tb_cc t = tb_cc s" "tb_vbus t = tb_vbus s" "host_at t = host_at s"
    by (auto simp: monitor_turn_def)
  from lone p n consider "role_stage Inside n s" "mon_stage Woken HOST s"
    | "role_stage Inside n s \<and> sig_role_changed (sigs (sim_world s)) \<or> role_stage Done n s"
      "mon_stage Inside HOST s"
    by (auto simp: lone_inv_def switching_def)
  then show ?thesis
  proof cases
    case 1
    have "lone_inv n t" using run_monitor [OF p lone t] lone c(5,6) by (simp add: lone_inv_def)
    moreover have "pc = MON_Settle HOST"
      "w = (sim_world s)\<lparr>drd := (drd (sim_world s))\<lparr>host_enable := False, dev_enable := False\<rparr>\<rparr>"
      using 1 w by (simp_all add: role_switch_wake_def)
    ultimately have "before_enable n t" using b c 1 by (simp add: before_enable_def)
    then show ?thesis ..
  next
    case 2
    then have w': "pc = MON_Wait" "w = (sim_world s)\<lparr>drd := role_switch_settle HOST (drd (sim_world s))\<rparr>"
      using w by simp_all
    have "served n HOST t"
      using 2 c w' b lone n
      by (auto simp: served_def before_enable_def lone_inv_def seen_inputs_def port_inputs_def forwarded_inputs_def
          drd_part_inputs settle_sel no_request_def)
    then show ?thesis ..
  qed
qed

lemma run_before:
  assumes inv: "sim_inv s" and p: "p \<in> set (ready s)" and b: "before_enable n s" and n: "wanted n = HOST"
    and t: "proc_turn p (s\<lparr>ready := removeAll p (ready s)\<rparr>) = Inr t"
  shows "before_enable n t \<or> served n HOST t"
proof (cases "p = P_Monitor")
  case True
  with run_before_monitor [OF inv _ b n] p t show ?thesis by simp
next
  case False
  have h: "p \<noteq> P_Host" using p b by (auto simp: before_enable_def)
  have lone: "lone_inv n s" using b by (simp add: before_enable_def)
  then have l: "lone_inv n t" using kernel_lone [OF k_run [OF p t] inv] by simp
  note o = others_host [OF t h]
  have hinv: "host_inv (host_at (s\<lparr>ready := removeAll p (ready s)\<rparr>))
      (host_ctrl (sim_world (s\<lparr>ready := removeAll p (ready s)\<rparr>)))"
    using sim_invD(5) [OF inv] by simp
  have m: "mon_at (sim_core t) = mon_at (sim_core s)" using turn_rest(6) [OF t hinv False] by simp
  have r: "ready t = removeAll p (ready s)" using proc_turn_effect [OF t] by (simp add: turn_effect_def)
  have e: "host_enable (drd (sim_world t)) = host_enable (drd (sim_world s))"
  proof (cases "p = P_Role")
    case True
    with turn_rest(5) [OF t hinv] show ?thesis by simp
  next
    case role: False
    show ?thesis by (rule run_others_frame(7) [OF inv role False t])
  qed
  have "before_enable n t" using b l o m r e by (simp add: before_enable_def)
  then show ?thesis ..
qed

lemma delta_before:
  assumes inv: "sim_inv s" and r: "ready s = []" and b: "before_enable n s" and n: "wanted n = HOST"
  shows "before_enable n (delta_cycle s)"
proof -
  have lone: "lone_inv n s" using b by (simp add: before_enable_def)
  have "current_role (role_mgr (sim_world s)) = m_role (role_mgr (sim_world s))"
    using sim_invD(6) [OF inv] by (simp add: system_inv_def)
  moreover have "m_role (role_mgr (sim_world s)) = HOST" if "mon_at (sim_core s) = MON_Settle HOST"
    using lone n that by (auto simp: lone_inv_def switching_def)
  ultimately show ?thesis
    using b delta_lone [OF inv r lone] by (auto simp: before_enable_def bind_internal_def posedge_def)
qed

lemma advance_before:
  assumes inv: "sim_inv s" and r: "ready s = []" "settled s" and b: "before_enable n s"
  shows "before_enable n (advance t s)"
proof -
  have lone: "lone_inv n s" using b by (simp add: before_enable_def)
  have "pause_of s P_Host = None" using b by (simp add: before_enable_def)
  then have "timers s P_Host = None" using sim_invD(1) [OF inv] unfolding timer_inv_def by (metis option.exhaust)
  then show ?thesis
    using b advance_lone [OF inv r lone] by (simp add: before_enable_def)
qed

lemma kernel_attach:
  "kernel_step s t \<Longrightarrow> sim_inv s \<Longrightarrow> wanted n = HOST \<Longrightarrow> attach_inv n a s \<Longrightarrow> attach_inv n a t"
proof (induction rule: kernel_step.induct)
  case (k_run p s t)
  then have pl: "enum.placed a s" by (simp add: attach_inv_def)
  show ?case
  proof (cases "before_enable n s")
    case True
    then have "p \<noteq> P_Host" using k_run.hyps(1) by (auto simp: before_enable_def)
    from enum.others_placed [OF k_run.hyps(2) this pl] run_before [OF k_run.prems(1) k_run.hyps(1) True k_run.prems(2) k_run.hyps(2)]
    show ?thesis by (simp add: attach_inv_def)
  next
    case False
    with k_run.prems have "served n HOST s" by (simp add: attach_inv_def)
    with run_served enum.run_placed k_run pl show ?thesis unfolding attach_inv_def by blast
  qed
next
  case (k_delta s)
  then have "before_enable n s \<or> served n HOST s" by (simp add: attach_inv_def)
  then have "host_at s = H_Disabled \<or> host_enable (drd (sim_world s))"
    by (elim disjE) (simp_all add: before_enable_def served_def)
  with k_delta show ?case
    unfolding attach_inv_def using delta_before delta_served enum.delta_placed by blast
next
  case (k_time s p t)
  then show ?case unfolding attach_inv_def enum.advance_placed using advance_before advance_served by blast
qed

lemma attach_start:
  assumes inv: "sim_inv s" and rest: "at_rest s" and nr: "no_request (role_mgr (sim_world s))"
    and new: "(cc, vb) \<noteq> (tb_cc s, tb_vbus s)" and other: "role_desired cc vb \<noteq> m_role (role_mgr (sim_world s))"
    and h: "host_at s = H_Disabled"
  shows "attach_inv (cc, vb) (m_next_addr (host_ctrl (sim_world s))) (s\<lparr>tb_cc := cc, tb_vbus := vb\<rparr>)"
proof -
  have s: "ready s = []" "settled s" using rest by (simp_all add: at_rest_def)
  have "\<not> sig_host_enable (sigs (sim_world s))" using sim_invD(3) [OF inv] s(1) h by (simp add: host_wait_inv_def)
  moreover from this s(2) have "\<not> host_enable (drd (sim_world s))" by (simp add: settled_pend pend_defs)
  ultimately show ?thesis
    using lone_start [OF inv rest nr new other] h s(1) rest_state(2) [OF inv rest]
    by (simp add: attach_inv_def before_enable_def enum.placed_def)
qed

lemma attach_end:
  assumes inv: "sim_inv s" and rest: "at_rest s" and a: "attach_inv n a s" and n: "wanted n = HOST"
  shows "served n HOST s \<and> host_at s = H_RingEmpty \<and> attached a (sim_world s)"
proof -
  have "\<not> before_enable n s"
    using lone_end [OF inv rest, of n] n by (auto simp: before_enable_def)
  with a have sv: "served n HOST s" and p: "enum.placed a s" by (simp_all add: attach_inv_def)
  with enum.placed_rest [OF inv rest sv p] show ?thesis by simp
qed

lemma kernel_steps_attach:
  "kernel_step\<^sup>*\<^sup>* s t \<Longrightarrow> sim_inv s \<Longrightarrow> wanted n = HOST \<Longrightarrow> attach_inv n a s \<Longrightarrow>
    sim_inv t \<and> attach_inv n a t"
  by (induction rule: rtranclp_induct) (auto intro: kernel_inv kernel_attach)

end
