(* ===== verification/Host_Transfers.thy ===== *)
theory Host_Transfers imports Host_Places begin

text \<open>
  Bulk transfers under the kernel: transfers queued at any moment are run in the order they were
  queued in, each once, whatever the processes do in between; and with them the loopback of the
  testbench in every order of the processes.
\<close>

section \<open>Requests and what they come to\<close>

datatype request = Req_Out u8 u8 "u8 list" | Req_In u8 u8 nat

fun queue_request :: "request \<Rightarrow> host_controller \<Rightarrow> host_controller run" where
  "queue_request (Req_Out a ep bytes) h = bulk_out a ep bytes h"
| "queue_request (Req_In a ep n) h = bulk_in a ep n h"

text \<open>On the peer's loopback buffer and the data received last.\<close>

fun request_effect :: "request \<Rightarrow> u8 list \<times> u8 list \<Rightarrow> u8 list \<times> u8 list" where
  "request_effect (Req_Out a ep bytes) d = (bytes, snd d)"
| "request_effect (Req_In a ep n) d = (if fst d = [] then d else ([], fst d))"

text \<open>
  Steps of the kernel, transfers queued from outside and time passing, with the transfers in order.
\<close>

inductive transfer_run :: "request list \<Rightarrow> sim \<Rightarrow> sim \<Rightarrow> bool" where
  tr_start: "transfer_run [] s s"
| tr_kernel: "transfer_run rs s t \<Longrightarrow> kernel_step t u \<Longrightarrow> transfer_run rs s u"
| tr_queue: "transfer_run rs s t \<Longrightarrow> queue_request r (host_ctrl (sim_world t)) = Inr h \<Longrightarrow>
    transfer_run (rs @ [r]) s (put_core ((sim_core t)\<lparr>sys := (sim_world t)\<lparr>host_ctrl := h\<rparr>\<rparr>) t)"
| tr_time: "transfer_run rs s t \<Longrightarrow> ready t = [] \<Longrightarrow> settled t \<Longrightarrow> now t < d \<Longrightarrow>
    (\<And>q u. timers t q = Some u \<Longrightarrow> d \<le> u) \<Longrightarrow> transfer_run rs s (advance d t)"

lemma queue_env:
  "queue_request r (host_ctrl (sim_world t)) = Inr h \<Longrightarrow>
   env_step t (put_core ((sim_core t)\<lparr>sys := (sim_world t)\<lparr>host_ctrl := h\<rparr>\<rparr>) t)"
  by (cases r) (auto intro: e_bulk_out e_bulk_in)

lemma transfer_run_reachable: "transfer_run rs s t \<Longrightarrow> sim_reachable s \<Longrightarrow> sim_reachable t"
  by (induction rule: transfer_run.induct) (auto intro: sim_kernel sim_env queue_env e_time)

text \<open>A request puts one TRB with its effect at the end of the ring.\<close>

lemma queue_ring:
  assumes "queue_request r h = Inr h'"
  shows "\<exists>t. ring_queue (m_transfer_ring h') = ring_queue (m_transfer_ring h) @ [t] \<and>
    trb_effect t = request_effect r"
    and "m_next_addr h' = m_next_addr h \<and> m_dev h' = m_dev h \<and> dev_addr_out h' = dev_addr_out h \<and>
      m_rx_buf h' = m_rx_buf h \<and> m_resp_valid h' = m_resp_valid h"
  using assms
  by (cases r; auto simp: bulk_out_def bulk_in_def enqueue_bulk_trb_def Let_def bindR_eq_Inr
      ring_enqueue_def trb_effect_def fun_eq_iff split: if_splits)+

section \<open>The ring while it is run\<close>

text \<open>
  \<open>c\<close> is what nobody touches; \<open>d\<close> is what will be left once the ring is empty.
\<close>

definition ring_place :: "u8 \<times> usb3_device_info \<times> u8 \<times> dev_view \<Rightarrow> u8 list \<times> u8 list \<Rightarrow> host_pc \<Rightarrow>
    tb_world \<Rightarrow> bool" where
  "ring_place c d pc w \<longleftrightarrow> (pc = H_RingTop \<or> pc = H_RingEmpty \<or> pc = H_XferDone) \<and>
     \<not> m_resp_valid (host_ctrl w) \<and> told w = c \<and>
     fold trb_effect (ring_queue (m_transfer_ring (host_ctrl w))) (bulk_data w) = d"

lemma ring_place_side: "host_side w' = host_side w \<Longrightarrow> ring_place c d pc w' = ring_place c d pc w"
  by (auto simp: ring_place_def host_side_def told_def bulk_data_def peer_view_def)

lemma ring_place_segment:
  assumes up: "host_up w" and en: "sig_host_enable (sigs w)" and p: "ring_place c d pc w"
    and r: "host_segment tb_tp pc w = Inr (pc', w')"
  shows "ring_place c d pc' w'"
proof -
  from p consider "pc = H_RingTop" | "pc = H_RingEmpty" | "pc = H_XferDone"
    by (auto simp: ring_place_def)
  then show ?thesis
  proof cases
    case 1
    show ?thesis
    proof (cases "ring_queue (m_transfer_ring (host_ctrl w))")
      case Nil
      with 1 p r en show ?thesis by (simp add: ring_empty_def ring_place_def)
    next
      case (Cons t ts)
      with p trb_segment_tb [OF Cons up] obtain v where
        "trb_segment tb_tp w = Inr (if trb_ioc t then H_XferDone else H_RingTop, v)"
        "ring_place c d (if trb_ioc t then H_XferDone else H_RingTop) v"
        by (auto simp: ring_place_def)
      with 1 r en Cons show ?thesis by (auto simp: ring_empty_def split: if_splits)
    qed
  next
    case 2
    with p r show ?thesis by (auto simp: ring_place_def)
  next
    case 3
    with p r show ?thesis by (auto simp: ring_place_def told_def bulk_data_def peer_view_def)
  qed
qed

interpretation transfers: host_places "ring_place c d" for c d
  by unfold_locales (rule ring_place_side ring_place_segment; assumption)+

section \<open>Transfers queued at any time\<close>

lemma served_queue: "served n r (put_core ((sim_core t)\<lparr>sys := (sim_world t)\<lparr>host_ctrl := h\<rparr>\<rparr>) t) = served n r t"
  by (simp add: served_def port_inputs_def forwarded_inputs_def seen_inputs_def)

lemma queue_placed:
  assumes "transfers.placed c d t" and "queue_request r (host_ctrl (sim_world t)) = Inr h"
    and "host_at t \<noteq> H_Disabled"
  shows "transfers.placed c (request_effect r d) (put_core ((sim_core t)\<lparr>sys := (sim_world t)\<lparr>host_ctrl := h\<rparr>\<rparr>) t)"
  using assms queue_ring [OF assms(2)]
  by (auto simp: transfers.placed_def ring_place_def told_def bulk_data_def peer_view_def)

lemma transfer_run_placed:
  "transfer_run rs s t \<Longrightarrow> sim_inv s \<Longrightarrow> served n HOST s \<Longrightarrow> transfers.placed c d s \<Longrightarrow>
   sim_inv t \<and> served n HOST t \<and> transfers.placed c (fold request_effect rs d) t"
proof (induction rule: transfer_run.induct)
  case (tr_start s)
  then show ?case by simp
next
  case (tr_kernel rs s t u)
  then show ?case using kernel_inv kernel_served transfers.kernel_placed by blast
next
  case (tr_queue rs s t r h)
  then have t: "sim_inv t" "served n HOST t" "transfers.placed c (fold request_effect rs d) t" by simp_all
  then have "host_at t \<noteq> H_Disabled" by (auto simp: transfers.placed_def ring_place_def)
  from queue_placed [OF t(3) tr_queue.hyps(2) this] env_inv [OF queue_env [OF tr_queue.hyps(2)] t(1)]
  show ?case using t(2) by (simp add: served_queue)
next
  case (tr_time rs s t u)
  then have t: "sim_inv t" "served n HOST t" "transfers.placed c (fold request_effect rs d) t" by simp_all
  with env_inv [OF e_time [OF tr_time.hyps(2-5)] t(1)] advance_served [OF t(1,2)] show ?case
    by (simp add: transfers.advance_placed)
qed

text \<open>An idle host at an empty ring.\<close>

lemma idle_placed:
  assumes "sim_inv s" and "at_rest s" and "host_at s = H_RingEmpty" and "sig_host_enable (sigs (sim_world s))"
    and "\<not> m_resp_valid (host_ctrl (sim_world s))"
  shows "transfers.placed (told (sim_world s)) (bulk_data (sim_world s)) s"
  using assms rest_state(6) [OF assms(1,2,4)] by (simp add: transfers.placed_def ring_place_def)

lemma transfers_end:
  assumes inv: "sim_inv s" and rest: "at_rest s" and "no_request (role_mgr (sim_world s))"
    and "sig_role (sigs (sim_world s)) = HOST" and "sig_host_enable (sigs (sim_world s))"
    and "\<not> sig_dev_enable (sigs (sim_world s))" and "host_at s = H_RingEmpty" and "\<not> m_resp_valid (host_ctrl (sim_world s))"
    and run: "transfer_run rs s t" and "at_rest t"
  shows "ring_queue (m_transfer_ring (host_ctrl (sim_world t))) = [] \<and> told (sim_world t) = told (sim_world s) \<and>
    bulk_data (sim_world t) = fold request_effect rs (bulk_data (sim_world s))"
proof -
  have "served (tb_cc s, tb_vbus s) HOST s" using rest_served [OF inv rest assms(3)] assms(4-6) by simp
  from transfer_run_placed [OF run inv this idle_placed [OF inv rest assms(7,5,8)]]
  have t: "sim_inv t" "served (tb_cc s, tb_vbus s) HOST t"
    "transfers.placed (told (sim_world s)) (fold request_effect rs (bulk_data (sim_world s))) t" by simp_all
  from transfers.placed_rest [OF t(1) assms(10) t(2,3)] show ?thesis by (simp add: ring_place_def)
qed

end
