(* ===== verification/Done_Pulses.thy ===== *)
theory Done_Pulses imports Host_Attach Host_Transfers begin

text \<open>
  What software sees of an attachment and of transfers: the interrupts of the host controller's
  done pulses, recorded in every order of the processes.
\<close>

section \<open>An attachment is reported\<close>

text \<open>After the enumeration the thread stays among the places of the ring.\<close>

definition done_place :: "u8 \<Rightarrow> host_pc \<Rightarrow> tb_world \<Rightarrow> bool" where
  "done_place a pc w \<longleftrightarrow> attached a w \<and> pc \<in> {H_EnumDone, H_RingTop, H_RingEmpty, H_XferDone}"

lemma done_place_segment:
  assumes up: "host_up w" and en: "sig_host_enable (sigs w)" and p: "done_place a pc w"
    and r: "host_segment tb_tp pc w = Inr (pc', w')"
  shows "done_place a pc' w'"
proof -
  have "enum_place a pc w" using p by (auto simp: done_place_def)
  from segment_place [OF up en this r] have pl: "enum_place a pc' w'" .
  have "pc' \<in> {H_EnumDone, H_RingTop, H_RingEmpty, H_XferDone}"
  proof (cases "pc = H_RingTop \<and> ring_queue (m_transfer_ring (host_ctrl w)) \<noteq> []")
    case True
    then obtain t ts where "ring_queue (m_transfer_ring (host_ctrl w)) = t # ts" by (meson neq_Nil_conv)
    with trb_segment_tb [OF this up] p r en True show ?thesis
      by (auto simp: done_place_def attached_def ring_empty_def split: if_splits)
  next
    case False
    with p r en show ?thesis by (auto simp: done_place_def ring_empty_def)
  qed
  with pl show ?thesis by (auto simp: done_place_def)
qed

lemma done_place_side: "host_side w' = host_side w \<Longrightarrow> done_place a pc w' = done_place a pc w"
  using enum_place_side [of w' w a H_EnumDone] by (simp add: done_place_def)

interpretation after: host_places "done_place a" for a
  by unfold_locales (rule done_place_side done_place_segment; assumption)+

text \<open>Before its end, a turn of the thread leads on in the enumeration or to its end.\<close>

definition early :: "host_pc \<Rightarrow> bool" where
  "early pc \<longleftrightarrow> pc = H_Disabled \<or> in_enumeration pc"

lemma begin_pc: "ctrl_begin tp st f w = Inr (pc', w') \<Longrightarrow> pc' = H_Setup st f"
  by (auto simp: ctrl_begin_def bindR_eq_Inr)

lemma status_pc: "ctrl_status tp st f w = Inr (pc', w') \<Longrightarrow> \<exists>ok. pc' = H_Status st f ok"
  by (auto simp: ctrl_status_def bindR_eq_Inr)

lemma early_segment:
  assumes p: "enum_place a pc w" and e: "early pc" and r: "host_segment tb_tp pc w = Inr (pc', w')"
  shows "in_enumeration pc' \<or> pc' = H_EnumDone"
proof (cases pc)
  case H_Disabled
  with r begin_pc show ?thesis by (fastforce simp: host_enumerate_def)
next
  case (H_Setup st f)
  with r show ?thesis by (auto simp: bindR_eq_Inr split: if_splits dest: status_pc)
next
  case (H_Status st f ok)
  with p have "ok" by simp
  with H_Status r show ?thesis by (cases st) (auto simp: Let_def dest!: begin_pc)
next
  case (H_AddrSettle b)
  with r begin_pc show ?thesis by fastforce
qed (use p e in \<open>simp_all add: early_def\<close>)

lemma early_turn:
  assumes "enum_place a pc w" and "early pc" and "host_turn tb_tp (Suc n) pc w = Inr (pc', w')"
  shows "in_enumeration pc' \<or> pc' = H_EnumDone"
proof -
  from assms(3) obtain pc1 w1 where s: "host_segment tb_tp pc w = Inr (pc1, w1)"
    and k: "(if at_wait pc1 then Inr (pc1, w1) else host_turn tb_tp n pc1 w1) = Inr (pc', w')"
    by (auto simp: host_turn.simps(2) bindR_eq_Inr)
  from early_segment [OF assms(1,2) s] have "in_enumeration pc1 \<or> pc1 = H_EnumDone" .
  moreover from this have "at_wait pc1" by (cases pc1) (simp_all add: at_wait_def)
  ultimately show ?thesis using k by simp
qed

definition attach_irq :: "u8 \<Rightarrow> sim \<Rightarrow> bool" where
  "attach_irq a s \<longleftrightarrow> early (host_at s) \<and> \<not> sig_enum_done (sigs (sim_world s)) \<or>
     after.placed a s \<and> (enum_end.recorded a s \<or> enum_end.underway a s) \<and>
     (sig_enum_done (sigs (sim_world s)) \<longrightarrow> sig_dev_addr (sigs (sim_world s)) = a)"

lemma run_early:
  assumes inv: "sim_inv s" and p: "P_Host \<in> set (ready s)" and n: "wanted n = HOST" and at: "attach_inv n a s"
    and e: "early (host_at s)" and q: "\<not> sig_enum_done (sigs (sim_world s))"
    and t: "proc_turn P_Host (s\<lparr>ready := removeAll P_Host (ready s)\<rparr>) = Inr t"
  shows "attach_irq a t"
proof -
  let ?w = "sim_world s"
  have pl: "enum.placed a s" using at by (simp add: attach_inv_def)
  obtain pc w where r: "host_turn tb_tp (host_fuel ?w) (host_at s) ?w = Inr (pc, w)"
    and w: "host_at t = pc" "sim_world t = w" "ready t = removeAll P_Host (ready s)"
    using t by (auto simp: host_thread_turn_def bindR_eq_Inr Let_def)
  have sg: "sigs w = sigs ?w" using after_runD [OF sigs_kept.turn_closed [OF refl] r] by simp
  obtain m where m: "host_fuel ?w = Suc m" by (auto simp: host_fuel_def)
  have "enum_place a (host_at s) ?w" using pl by (simp add: enum.placed_def)
  from early_turn [OF this e, of m] r m consider "in_enumeration pc" | "pc = H_EnumDone" by auto
  then show ?thesis
  proof cases
    case 1
    with w sg q show ?thesis by (simp add: attach_irq_def early_def)
  next
    case 2
    have k: "kernel_step s t" by (rule k_run [OF p t])
    have it: "sim_inv t" and pt: "enum.placed a t"
      using kernel_inv [OF k inv] kernel_attach [OF k inv n at] by (simp_all add: attach_inv_def)
    from pt 2 w(1) have d: "after.placed a t"
      by (simp add: enum.placed_def after.placed_def done_place_def)
    have "enumeration_done (host_ctrl (sim_world t))" "dev_addr_out (host_ctrl (sim_world t)) = a"
      using sim_invD(5) [OF it] pt 2 w(1) by (simp_all add: host_inv_def enum.placed_def attached_def addressed_def)
    then have "enum_end.underway a t"
      using w sg q by (simp add: enum_end.underway_def)
    with d q w(2) sg show ?thesis by (simp add: attach_irq_def)
  qed
qed

lemma kernel_attach_irq:
  "kernel_step s t \<Longrightarrow> sim_inv s \<Longrightarrow> wanted n = HOST \<Longrightarrow> attach_inv n a s \<Longrightarrow> attach_irq a s \<Longrightarrow>
   attach_irq a t"
proof (induction rule: kernel_step.induct)
  case (k_run p s t)
  have h: "host_inv (host_at (s\<lparr>ready := removeAll p (ready s)\<rparr>))
      (host_ctrl (sim_world (s\<lparr>ready := removeAll p (ready s)\<rparr>)))"
    using sim_invD(5) [OF k_run.prems(1)] by simp
  have sg: "sigs (sim_world t) = sigs (sim_world s)" using turn_rest(1) [OF k_run.hyps(2) h] by simp
  from k_run.prems(4) consider (early) "early (host_at s)" "\<not> sig_enum_done (sigs (sim_world s))"
    | (late) "after.placed a s" "enum_end.recorded a s \<or> enum_end.underway a s"
      "sig_enum_done (sigs (sim_world s)) \<longrightarrow> sig_dev_addr (sigs (sim_world s)) = a"
    by (auto simp: attach_irq_def)
  then show ?case
  proof cases
    case early
    show ?thesis
    proof (cases "p = P_Host")
      case True
      with run_early [OF k_run.prems(1) _ k_run.prems(2,3) early] k_run.hyps show ?thesis by simp
    next
      case False
      with others_host [OF k_run.hyps(2)] early show ?thesis by (simp add: attach_irq_def)
    qed
  next
    case late
    then have "host_at s \<noteq> H_Disabled" by (auto simp: after.placed_def done_place_def)
    with k_run.prems(3) have "served n HOST s" by (auto simp: attach_inv_def before_enable_def)
    from after.run_placed [OF k_run.prems(1) k_run.hyps(1) this late(1) k_run.hyps(2)]
    have "after.placed a t" .
    moreover have "enum_end.recorded a t \<or> enum_end.underway a t"
      using late(2) enum_end.run_recorded [OF k_run.prems(1) k_run.hyps(2) _ late(3)]
        enum_end.run_underway [OF k_run.prems(1) k_run.hyps(1) _ k_run.hyps(2)] by blast
    ultimately show ?thesis using late(3) by (simp add: attach_irq_def sg)
  qed
next
  case (k_delta s)
  have ed: "enumeration_done (host_ctrl (sim_world s)) \<longleftrightarrow> host_at s = H_EnumDone"
    using sim_invD(5) [OF k_delta.prems(1)] by (simp add: host_inv_def)
  from k_delta.prems(4) consider (early) "early (host_at s)"
    | (late) "after.placed a s" "enum_end.recorded a s \<or> enum_end.underway a s" by (auto simp: attach_irq_def)
  then show ?case
  proof cases
    case early
    with ed show ?thesis by (auto simp: attach_irq_def early_def bind_internal_def)
  next
    case late
    then have "host_at s \<noteq> H_Disabled" and dv: "dev_addr_out (host_ctrl (sim_world s)) = a"
      by (auto simp: after.placed_def done_place_def attached_def addressed_def)
    with k_delta.prems(3) have "served n HOST s" by (auto simp: attach_inv_def before_enable_def)
    with late(1) have "after.placed a (delta_cycle s)" by (intro after.delta_placed) (auto simp: served_def)
    moreover have "enum_end.recorded a (delta_cycle s) \<or> enum_end.underway a (delta_cycle s)"
      using late(2) enum_end.delta_underway [OF k_delta.prems(1) k_delta.hyps(1)]
      by (auto simp: enum_end.recorded_def)
    ultimately show ?thesis using dv by (simp add: attach_irq_def bind_internal_def)
  qed
next
  case (k_time s p t)
  then show ?case
    using enum_end.settled_underway [of s a]
    by (auto simp: attach_irq_def after.advance_placed enum_end.recorded_def)
qed

lemma attach_irq_start:
  assumes inv: "sim_inv s" and rest: "at_rest s" and h: "host_at s = H_Disabled"
  shows "attach_irq a (s\<lparr>tb_cc := cc, tb_vbus := vb\<rparr>)"
proof -
  have "sig_enum_done (sigs (sim_world s)) = enumeration_done (host_ctrl (sim_world s))"
    using rest by (simp add: at_rest_def settled_pend pend_defs)
  with h sim_invD(5) [OF inv] show ?thesis by (simp add: attach_irq_def early_def host_inv_def)
qed

lemma attach_irq_end: "at_rest s \<Longrightarrow> attach_irq a s \<Longrightarrow> host_at s = H_RingEmpty \<Longrightarrow> enum_noted a (drd (sim_world s))"
  using enum_end.rest_underway by (auto simp: attach_irq_def early_def enum_end.recorded_def)

lemma kernel_steps_attach_irq:
  "kernel_step\<^sup>*\<^sup>* s t \<Longrightarrow> sim_inv s \<Longrightarrow> wanted n = HOST \<Longrightarrow> attach_inv n a s \<Longrightarrow> attach_irq a s \<Longrightarrow>
    sim_inv t \<and> attach_inv n a t \<and> attach_irq a t"
  by (induction rule: rtranclp_induct) (auto intro: kernel_inv kernel_attach kernel_attach_irq)

section \<open>Transfers are reported\<close>

definition ring_of :: "tb_world \<Rightarrow> usb3_trb list" where
  "ring_of w = ring_queue (m_transfer_ring (host_ctrl w))"

text \<open>A turn from the empty ring: back to sleep, or to the pulse of the first TRB.\<close>

lemma ring_empty_turn:
  assumes up: "host_up w" and en: "sig_host_enable (sigs w)" and v: "\<not> m_resp_valid (host_ctrl w)"
    and io: "\<forall>t \<in> set (ring_of w). trb_ioc t"
    and r: "host_turn tb_tp (Suc (Suc n)) H_RingEmpty w = Inr (pc', w')"
  shows "(ring_of w = [] \<and> pc' = H_RingEmpty \<and> w' = w) \<or>
    (ring_of w \<noteq> [] \<and> pc' = H_XferDone \<and> ring_of w' = tl (ring_of w))"
proof (cases "ring_of w")
  case Nil
  with r en show ?thesis
    by (simp add: host_turn.simps(2) at_wait_def ring_empty_def ring_of_def)
next
  case (Cons t ts)
  with trb_segment_tb [of w t ts] up v obtain u where
    "trb_segment tb_tp w = Inr (if trb_ioc t then H_XferDone else H_RingTop, u)" "ring_of u = ts"
    by (auto simp: ring_of_def)
  with Cons r en io show ?thesis
    by (auto simp: host_turn.simps(2) at_wait_def ring_empty_def ring_of_def)
qed

text \<open>TRBs only leave the ring while the thread runs.\<close>

definition ring_within :: "usb3_trb set \<Rightarrow> host_pc \<Rightarrow> tb_world \<Rightarrow> bool" where
  "ring_within R pc w \<longleftrightarrow> pc \<in> {H_RingTop, H_RingEmpty, H_XferDone} \<and> \<not> m_resp_valid (host_ctrl w) \<and>
     set (ring_of w) \<subseteq> R"

lemma ring_within_side: "host_side w' = host_side w \<Longrightarrow> ring_within R pc w' = ring_within R pc w"
  by (simp add: ring_within_def ring_of_def host_side_def)

lemma ring_within_segment:
  assumes up: "host_up w" and en: "sig_host_enable (sigs w)" and p: "ring_within R pc w"
    and r: "host_segment tb_tp pc w = Inr (pc', w')"
  shows "ring_within R pc' w'"
proof (cases "pc = H_RingTop \<and> ring_of w \<noteq> []")
  case True
  then obtain t ts where q: "ring_queue (m_transfer_ring (host_ctrl w)) = t # ts"
    by (cases "ring_of w") (auto simp: ring_of_def)
  with trb_segment_tb [OF q up] p r en True show ?thesis
    by (auto simp: ring_within_def ring_of_def ring_empty_def split: if_splits)
next
  case False
  with p r en show ?thesis by (cases pc) (auto simp: ring_within_def ring_of_def ring_empty_def subset_iff)
qed

interpretation within: host_places "ring_within R" for R
  by unfold_locales (rule ring_within_side ring_within_segment; assumption)+

text \<open>\<open>q\<close>: a transfer has been queued. Until the first one is done, one is in the ring.\<close>

definition xfer_irq :: "bool \<Rightarrow> sim \<Rightarrow> bool" where
  "xfer_irq q s \<longleftrightarrow> within.placed {t. trb_ioc t} s \<and> (xfer.recorded s \<or> xfer.underway s \<or>
     host_at s = H_RingEmpty \<and> \<not> sig_xfer_done (sigs (sim_world s)) \<and> (q \<longrightarrow> ring_of (sim_world s) \<noteq> []))"

lemma run_asleep_ring:
  assumes inv: "sim_inv s" and p: "p \<in> set (ready s)" and sv: "served n HOST s"
    and pl: "within.placed {t. trb_ioc t} s" and z: "host_at s = H_RingEmpty"
    and l: "\<not> sig_xfer_done (sigs (sim_world s))"
    and t: "proc_turn p (s\<lparr>ready := removeAll p (ready s)\<rparr>) = Inr t"
  shows "xfer.underway t \<or> host_at t = H_RingEmpty \<and> \<not> sig_xfer_done (sigs (sim_world t)) \<and>
    ring_of (sim_world t) = ring_of (sim_world s)"
proof (cases "p = P_Host")
  case False
  with others_host [OF t False] z l show ?thesis by (simp add: ring_of_def)
next
  case True
  let ?w = "sim_world s"
  have up: "host_up ?w" using servedD(7) [OF sv] by (simp add: host_up_def)
  have en: "sig_host_enable (sigs ?w)" using pl z by (simp add: within.placed_def)
  obtain pc w where r: "host_turn tb_tp (host_fuel ?w) (host_at s) ?w = Inr (pc, w)"
    and w: "host_at t = pc" "sim_world t = w" "ready t = removeAll P_Host (ready s)"
    using t True by (auto simp: host_thread_turn_def bindR_eq_Inr Let_def)
  have sg: "sigs w = sigs ?w" using after_runD [OF sigs_kept.turn_closed [OF refl] r] by simp
  obtain m where m: "host_fuel ?w = Suc (Suc m)" by (auto simp: host_fuel_def)
  have "(ring_of ?w = [] \<and> pc = H_RingEmpty \<and> w = ?w) \<or> (ring_of ?w \<noteq> [] \<and> pc = H_XferDone \<and> ring_of w = tl (ring_of ?w))"
    using ring_empty_turn [OF up en, of m pc w] pl r z m by (auto simp: within.placed_def ring_within_def)
  moreover have "transfer_done (host_ctrl (sim_world t)) \<longleftrightarrow> host_at t = H_XferDone"
    using sim_invD(5) [OF kernel_inv [OF k_run [OF p t] inv]] by (simp add: host_inv_def)
  ultimately show ?thesis using w sg l z by (auto simp: xfer.underway_def)
qed

lemma kernel_xfer_irq:
  "kernel_step s t \<Longrightarrow> sim_inv s \<Longrightarrow> served n HOST s \<Longrightarrow> xfer_irq q s \<Longrightarrow> xfer_irq q t"
proof (induction rule: kernel_step.induct)
  case (k_run p s t)
  have "within.placed {t. trb_ioc t} t"
    using k_run by (intro within.run_placed [OF k_run.prems(1) k_run.hyps(1) k_run.prems(2) _ k_run.hyps(2)])
      (simp add: xfer_irq_def)
  with k_run.prems(3) show ?case
    using xfer.run_recorded [OF k_run.prems(1) k_run.hyps(2)] xfer.run_underway [OF k_run.prems(1) k_run.hyps(1) _ k_run.hyps(2)]
      run_asleep_ring [OF k_run.prems(1) k_run.hyps(1) k_run.prems(2) _ _ _ k_run.hyps(2)]
    by (auto simp: xfer_irq_def)
next
  case (k_delta s)
  have td: "transfer_done (host_ctrl (sim_world s)) \<longleftrightarrow> host_at s = H_XferDone"
    using sim_invD(5) [OF k_delta.prems(1)] by (simp add: host_inv_def)
  have "within.placed {t. trb_ioc t} (delta_cycle s)"
    using k_delta.prems by (intro within.delta_placed) (auto simp: xfer_irq_def served_def)
  moreover have "ring_of (delta_world s) = ring_of (sim_world s)"
    using delta_host_side [of s] by (simp add: host_side_def ring_of_def)
  ultimately show ?case
    using k_delta.prems(3) xfer.delta_underway [OF k_delta.prems(1) k_delta.hyps(1)] td
    by (auto simp: xfer_irq_def xfer.recorded_def bind_internal_def)
next
  case (k_time s p t)
  then show ?case
    using xfer.settled_underway [of s]
    by (auto simp: xfer_irq_def within.advance_placed xfer.recorded_def)
qed

lemma queue_xfer_irq:
  assumes "xfer_irq q t" and q: "queue_request r (host_ctrl (sim_world t)) = Inr h"
  shows "xfer_irq True (put_core ((sim_core t)\<lparr>sys := (sim_world t)\<lparr>host_ctrl := h\<rparr>\<rparr>) t)"
proof -
  have "m_resp_valid h = m_resp_valid (host_ctrl (sim_world t)) \<and> transfer_done h = transfer_done (host_ctrl (sim_world t)) \<and>
    (\<exists>b. trb_ioc b \<and> ring_queue (m_transfer_ring h) = ring_of (sim_world t) @ [b])"
    using q by (cases r) (auto simp: bulk_out_def bulk_in_def enqueue_bulk_trb_def Let_def bindR_eq_Inr
        ring_enqueue_def ring_of_def split: if_splits)
  with assms(1) show ?thesis
    by (auto simp: xfer_irq_def within.placed_def ring_within_def ring_of_def xfer.recorded_def xfer.underway_def)
qed

lemma transfer_run_xfer_irq:
  "transfer_run rs s t \<Longrightarrow> sim_inv s \<Longrightarrow> served n HOST s \<Longrightarrow> transfers.placed c d s \<Longrightarrow> xfer_irq False s \<Longrightarrow>
   xfer_irq (rs \<noteq> []) t"
proof (induction rule: transfer_run.induct)
  case (tr_start s)
  then show ?case by simp
next
  case (tr_kernel rs s t u)
  then have "sim_inv t \<and> served n HOST t" "xfer_irq (rs \<noteq> []) t"
    using transfer_run_placed [OF tr_kernel.hyps(1) tr_kernel.prems(1-3)] by simp_all
  then show ?case using kernel_xfer_irq [OF tr_kernel.hyps(2)] by blast
next
  case (tr_queue rs s t r h)
  with queue_xfer_irq [OF _ tr_queue.hyps(2)] show ?case by simp
next
  case (tr_time rs s t u)
  then show ?case
    using xfer.settled_underway [of t]
    by (auto simp: xfer_irq_def within.advance_placed xfer.recorded_def)
qed

lemma xfer_irq_start:
  assumes inv: "sim_inv s" and rest: "at_rest s" and "host_at s = H_RingEmpty" and "sig_host_enable (sigs (sim_world s))"
    and "\<not> m_resp_valid (host_ctrl (sim_world s))"
  shows "xfer_irq False s"
proof -
  have "sig_xfer_done (sigs (sim_world s)) = transfer_done (host_ctrl (sim_world s))"
    using rest by (simp add: at_rest_def settled_pend pend_defs)
  with assms(3) sim_invD(5) [OF inv] rest_state(6) [OF inv rest assms(4)] assms(4,5) show ?thesis
    by (simp add: xfer_irq_def within.placed_def ring_within_def ring_of_def host_inv_def)
qed

lemma xfer_irq_end:
  assumes "sim_inv s" and "at_rest s" and "served n HOST s" and "xfer_irq True s"
  shows "bit (m_intr_status (drd (sim_world s))) 4"
proof -
  have "ring_of (sim_world s) = []"
    using within.placed_rest(3) [OF assms(1-3), of "{t. trb_ioc t}"] assms(4) by (auto simp: xfer_irq_def ring_of_def)
  with assms(4) xfer.rest_underway [OF assms(2)] show ?thesis by (simp add: xfer_irq_def xfer.recorded_def)
qed

end
