(* ===== verification/Host_Asleep.thy ===== *)
theory Host_Asleep imports Host_Places begin

text \<open>
  The host thread asleep at its empty ring: only a queued transfer wakes it, so without one neither
  the role nor anything else from outside makes it enumerate again.
\<close>

section \<open>Asleep at the empty ring\<close>

text \<open>
  Steps of the kernel and of the rest of the simulation during which nobody queues a transfer.
\<close>

definition no_transfer_step :: "sim \<Rightarrow> sim \<Rightarrow> bool" where
  "no_transfer_step s t \<longleftrightarrow> kernel_step s t \<or>
     env_step s t \<and> \<not> m_trb_complete_event (host_ctrl (sim_world t))"

text \<open>The host thread asleep at its empty ring.\<close>

definition ring_asleep :: "sim \<Rightarrow> bool" where
  "ring_asleep s \<longleftrightarrow> host_at s = H_RingEmpty \<and> P_Host \<notin> set (ready s) \<and>
     \<not> m_trb_complete_event (host_ctrl (sim_world s))"

definition slept :: "sim \<Rightarrow> sim \<Rightarrow> bool" where
  "slept s t \<longleftrightarrow> ring_asleep t \<and> m_dev (host_ctrl (sim_world t)) = m_dev (host_ctrl (sim_world s)) \<and>
     m_next_addr (host_ctrl (sim_world t)) = m_next_addr (host_ctrl (sim_world s))"

section \<open>No step wakes it\<close>

lemma run_asleep:
  assumes inv: "sim_inv s" and z: "ring_asleep s" and p: "p \<in> set (ready s)"
    and t: "proc_turn p (s\<lparr>ready := removeAll p (ready s)\<rparr>) = Inr t"
  shows "slept s t"
proof -
  have "p \<noteq> P_Host" using z p by (auto simp: ring_asleep_def)
  from others_host [OF t this] proc_turn_effect [OF t] z show ?thesis
    by (simp add: slept_def ring_asleep_def turn_effect_def)
qed

lemma delta_asleep:
  assumes "ring_asleep s"
  shows "slept s (delta_cycle s)"
  using assms delta_host_side [of s] delta_pend(4) [of s]
  by (auto simp: slept_def ring_asleep_def host_side_def pend_host_def)

lemma advance_asleep:
  assumes "sim_inv s" and "ring_asleep s"
  shows "slept s (advance t s)"
proof -
  have "pause_of s P_Host = None" using assms(2) by (simp add: slept_def ring_asleep_def)
  then have "timers s P_Host = None" using sim_invD(1) [OF assms(1)] unfolding timer_inv_def by (metis option.exhaust)
  with assms(2) show ?thesis by (simp add: slept_def ring_asleep_def)
qed

lemma env_asleep:
  assumes "env_step s t" and "sim_inv s" and "ring_asleep s" and "\<not> m_trb_complete_event (host_ctrl (sim_world t))"
  shows "slept s t"
  using assms
proof (induction rule: env_step.induct)
  case (e_inputs s vb cc)
  then show ?case by (simp add: slept_def ring_asleep_def)
next
  case (e_cfg tr d s tr' d' w)
  from e_cfg.hyps have "host_ctrl w = host_ctrl (sim_world s)"
    by (rule cfg_result) (simp_all add: cfg_write_def Let_def)
  with e_cfg.prems show ?case by (simp add: slept_def ring_asleep_def)
next
  case (e_bulk_out a ep bytes s h)
  then show ?case
    using enqueue_inv [OF _ sim_invD(5) [OF e_bulk_out.prems(1)]] by (auto simp: bulk_out_def)
next
  case (e_bulk_in a ep n s h)
  then show ?case
    using enqueue_inv [OF _ sim_invD(5) [OF e_bulk_in.prems(1)]] by (auto simp: bulk_in_def)
next
  case (e_upstream tr d s tr' d' w)
  have "host_view w = host_view (sim_world s)"
    using keeps_bt_Inr [OF host_kept.tb_upstream_keeps refl e_upstream.hyps] by simp
  with e_upstream.prems show ?case by (simp add: slept_def ring_asleep_def host_view_def)
next
  case (e_time s t)
  then show ?case by (simp add: advance_asleep)
qed

lemma no_transfer_asleep:
  assumes "no_transfer_step s t" and "sim_inv s" and "ring_asleep s"
  shows "sim_inv t \<and> slept s t"
proof (cases "kernel_step s t")
  case True
  then have "sim_inv t" by (rule kernel_inv [OF _ assms(2)])
  moreover from True have "slept s t"
  proof cases
    case (k_run p)
    then show ?thesis by (intro run_asleep [OF assms(2,3)])
  next
    case k_delta
    then show ?thesis using delta_asleep [OF assms(3)] by simp
  next
    case (k_time p u)
    then show ?thesis using advance_asleep [OF assms(2,3)] by simp
  qed
  ultimately show ?thesis by simp
next
  case False
  with assms(1) have "env_step s t" "\<not> m_trb_complete_event (host_ctrl (sim_world t))"
    by (auto simp: no_transfer_step_def)
  with env_asleep [OF this(1) assms(2,3) this(2)] env_inv [OF this(1) assms(2)] show ?thesis by simp
qed

lemma no_transfer_steps_asleep:
  "no_transfer_step\<^sup>*\<^sup>* s t \<Longrightarrow> sim_inv s \<Longrightarrow> ring_asleep s \<Longrightarrow> slept s t"
proof (induction rule: rtranclp_induct)
  case base
  then show ?case by (simp add: slept_def)
next
  case (step t u)
  then have t: "slept s t" "sim_inv s" "no_transfer_step\<^sup>*\<^sup>* s t" by simp_all
  from t(3,2) have "sim_inv t"
    by (induction rule: rtranclp_induct) (auto simp: no_transfer_step_def intro: kernel_inv env_inv)
  with no_transfer_asleep [OF step.hyps(2) this] t(1) show ?case by (simp add: slept_def)
qed

end
