(* ===== verification/Device_Run.thy ===== *)
theory Device_Run imports Served_Role Pulses begin

text \<open>
  The device role under the kernel: data sent down by the link is copied by the loopback thread to
  the endpoint it is read from, and its interrupt is recorded, in every order of the processes.
\<close>

section \<open>The host thread sleeps\<close>

definition host_sleeps :: "sim \<Rightarrow> bool" where
  "host_sleeps s \<longleftrightarrow> P_Host \<notin> set (ready s) \<and> \<not> m_trb_complete_event (host_ctrl (sim_world s)) \<and>
     (host_at s = H_Disabled \<or> host_at s = H_RingEmpty)"

lemma run_sleeps:
  assumes "host_sleeps s" and p: "p \<in> set (ready s)" and "proc_turn p (s\<lparr>ready := removeAll p (ready s)\<rparr>) = Inr t"
  shows "host_sleeps t"
proof -
  have "p \<noteq> P_Host" using assms(1) p by (auto simp: host_sleeps_def)
  from others_host [OF assms(3) this] proc_turn_effect [OF assms(3)] assms(1)
  show ?thesis by (simp add: host_sleeps_def turn_effect_def)
qed

lemma delta_sleeps:
  assumes "host_sleeps s" and "\<not> host_enable (drd (sim_world s))"
  shows "host_sleeps (delta_cycle s)"
  using assms delta_pend(4) [of s]
  by (auto simp: host_sleeps_def pend_host_def bind_internal_def posedge_def)

lemma advance_sleeps:
  assumes "sim_inv s" and "host_sleeps s"
  shows "host_sleeps (advance t s)"
proof -
  have "pause_of s P_Host = None" using assms(2) by (auto simp: host_sleeps_def)
  then have "timers s P_Host = None" using sim_invD(1) [OF assms(1)] unfolding timer_inv_def by (metis option.exhaust)
  with assms(2) show ?thesis by (simp add: host_sleeps_def)
qed

section \<open>The stages of the loopback\<close>

definition holds :: "usb3_ep_fifo \<Rightarrow> u8 list \<Rightarrow> bool" where
  "holds f bs \<longleftrightarrow> has_data f \<and> fifo_buffer f = bs"

text \<open>The data is in endpoint 2 with the event on its way, the thread is woken, it is copied.\<close>

definition data_waits :: "u8 list \<Rightarrow> sim \<Rightarrow> bool" where
  "data_waits bs s \<longleftrightarrow> \<not> lb_pulse (sim_core s) \<and> \<not> sig_bulk_irq (sigs (sim_world s)) \<and>
     m_configured (dev_ctrl (sim_world s)) \<and> holds (m_ep2_out (dev_ctrl (sim_world s))) bs \<and>
     (P_Loopback \<in> set (ready s) \<or> m_out_ep_event (dev_ctrl (sim_world s)))"

definition data_copied :: "u8 list \<Rightarrow> sim \<Rightarrow> bool" where
  "data_copied bs s \<longleftrightarrow> holds (m_ep1_in (dev_ctrl (sim_world s))) bs \<and>
     \<not> has_data (m_ep2_out (dev_ctrl (sim_world s))) \<and> (bulk.recorded s \<or> bulk.underway s)"

text \<open>Nobody but the loopback thread changes the endpoints while the host thread sleeps.\<close>

lemma others_dev:
  assumes "proc_turn p s = Inr t" and "p \<noteq> P_Host" and "p \<noteq> P_Loopback"
  shows "dev_ctrl (sim_world t) = dev_ctrl (sim_world s) \<and> lb_pulse (sim_core t) = lb_pulse (sim_core s)"
proof (cases p)
  case P_Role
  with assms show ?thesis
    by (cases "rm_at (sim_core s)") (auto simp: role_turn_def Let_def split_def)
next
  case P_Monitor
  with assms show ?thesis
    by (cases "mon_at (sim_core s)") (auto simp: monitor_turn_def Let_def split: prod.splits)
qed (use assms in \<open>auto simp: collect_turn_def forward_turn_def Let_def\<close>)

lemma loopback_copies:
  assumes w: "data_waits bs s" and t: "proc_turn P_Loopback (s\<lparr>ready := rs\<rparr>) = Inr t"
  shows "holds (m_ep1_in (dev_ctrl (sim_world t))) bs" and "\<not> has_data (m_ep2_out (dev_ctrl (sim_world t)))"
    and "bulk_irq (dev_ctrl (sim_world t))" and "sigs (sim_world t) = sigs (sim_world s)" and "ready t = rs"
  using assms
  by (auto simp: loopback_turn_def Let_def data_waits_def holds_def loopback_body_def tb_erdy fifo_read_def
      fifo_write_def bindR_eq_Inr)

text \<open>The end of the pulse, and a wake-up without data.\<close>

lemma loopback_leaves:
  assumes c: "\<not> has_data (m_ep2_out (dev_ctrl (sim_world s)))" and t: "proc_turn P_Loopback (s\<lparr>ready := rs\<rparr>) = Inr t"
  shows "m_ep1_in (dev_ctrl (sim_world t)) = m_ep1_in (dev_ctrl (sim_world s)) \<and>
    m_ep2_out (dev_ctrl (sim_world t)) = m_ep2_out (dev_ctrl (sim_world s))"
  using assms
  by (auto simp: loopback_turn_def Let_def loopback_body_def fifo_read_def loopback_end_def bindR_eq_Inr
      split: if_splits)

definition loop_inv :: "inputs \<Rightarrow> u8 list \<Rightarrow> sim \<Rightarrow> bool" where
  "loop_inv n bs s \<longleftrightarrow> served n DEVICE s \<and> host_sleeps s \<and> (data_waits bs s \<or> data_copied bs s)"

lemma run_loop:
  assumes inv: "sim_inv s" and p: "p \<in> set (ready s)" and l: "loop_inv n bs s"
    and t: "proc_turn p (s\<lparr>ready := removeAll p (ready s)\<rparr>) = Inr t"
  shows "loop_inv n bs t"
proof -
  have k: "kernel_step s t" by (rule k_run [OF p t])
  have sv: "served n DEVICE t" and hs: "host_sleeps t"
    using l kernel_served [OF k inv] run_sleeps [OF _ p t] by (simp_all add: loop_inv_def)
  have h: "p \<noteq> P_Host" using l p by (auto simp: loop_inv_def host_sleeps_def)
  have r: "ready t = removeAll p (ready s)" using proc_turn_effect [OF t] by (simp add: turn_effect_def)
  from l consider (waits) "data_waits bs s" | (copied) "data_copied bs s" by (auto simp: loop_inv_def)
  then have "data_waits bs t \<or> data_copied bs t"
  proof cases
    case waits
    show ?thesis
    proof (cases "p = P_Loopback")
      case True
      from loopback_copies [OF waits] t True have "data_copied bs t"
        using waits by (auto simp: data_copied_def bulk.underway_def data_waits_def)
      then show ?thesis ..
    next
      case False
      with others_dev [OF t h False] others_host [OF t h] waits r show ?thesis by (auto simp: data_waits_def)
    qed
  next
    case copied
    have "bulk.recorded t \<or> bulk.underway t"
      using copied bulk.run_recorded [OF inv t] bulk.run_underway [OF inv p _ t] by (auto simp: data_copied_def)
    moreover have "m_ep1_in (dev_ctrl (sim_world t)) = m_ep1_in (dev_ctrl (sim_world s)) \<and>
        m_ep2_out (dev_ctrl (sim_world t)) = m_ep2_out (dev_ctrl (sim_world s))"
    proof (cases "p = P_Loopback")
      case True
      with copied loopback_leaves [of s] t show ?thesis by (simp add: data_copied_def)
    next
      case False
      with others_dev [OF t h False] show ?thesis by simp
    qed
    ultimately show ?thesis using copied by (simp add: data_copied_def)
  qed
  with sv hs show ?thesis by (simp add: loop_inv_def)
qed

lemma delta_loop:
  assumes inv: "sim_inv s" and r: "ready s = []" and l: "loop_inv n bs s"
  shows "loop_inv n bs (delta_cycle s)"
proof -
  have sv: "served n DEVICE s" and "host_sleeps s" using l by (simp_all add: loop_inv_def)
  then have "served n DEVICE (delta_cycle s)" "host_sleeps (delta_cycle s)"
    using delta_served [OF inv] delta_sleeps servedD(11) [OF sv] by simp_all
  moreover have dev: "m_ep1_in (dev_ctrl (delta_world s)) = m_ep1_in (dev_ctrl (sim_world s))"
    "m_ep2_out (dev_ctrl (delta_world s)) = m_ep2_out (dev_ctrl (sim_world s))"
    "m_configured (dev_ctrl (delta_world s)) = m_configured (dev_ctrl (sim_world s))"
    by (simp_all add: delta_world_def clear_events_def update_signals_def)
  moreover have "data_waits bs (delta_cycle s)" if "data_waits bs s"
    using that r dev irq_follows_pulse [OF sim_invD(2) [OF inv]]
    by (simp add: data_waits_def bind_internal_def)
  moreover have "data_copied bs (delta_cycle s)" if "data_copied bs s"
    using that bulk.delta_underway [OF inv r] dev by (auto simp: data_copied_def bulk.recorded_def)
  ultimately show ?thesis using l by (auto simp: loop_inv_def)
qed

lemma advance_loop:
  assumes inv: "sim_inv s" and r: "ready s = []" "settled s" and l: "loop_inv n bs s"
  shows "loop_inv n bs (advance t s)"
proof -
  have "\<not> data_waits bs s" using r by (auto simp: data_waits_def settled_def events_pending_def)
  with l bulk.settled_underway [OF r] have "data_copied bs (advance t s)"
    by (auto simp: loop_inv_def data_copied_def bulk.recorded_def)
  with l advance_served [OF inv] advance_sleeps [OF inv] show ?thesis by (simp add: loop_inv_def)
qed

lemma kernel_loop: "kernel_step s t \<Longrightarrow> sim_inv s \<Longrightarrow> loop_inv n bs s \<Longrightarrow> loop_inv n bs t"
  by (induction rule: kernel_step.induct) (auto intro: run_loop delta_loop advance_loop)

lemma kernel_steps_loop:
  "kernel_step\<^sup>*\<^sup>* s t \<Longrightarrow> sim_inv s \<Longrightarrow> loop_inv n bs s \<Longrightarrow> sim_inv t \<and> loop_inv n bs t"
  by (induction rule: rtranclp_induct) (auto intro: kernel_inv kernel_loop)

section \<open>A packet from the link\<close>

lemma upstream_device_out:
  assumes "sig_role (sigs w) = DEVICE" and "sig_dev_enable (sigs w)" and "extension tr = Some e"
    and "pkt_type e = BULK_OUT" and "read_data tr = Inr bs"
  shows "tb_upstream wt n tr d w = Inr (tr\<lparr>response_status := TLM_OK_RESPONSE\<rparr>, d,
    w\<lparr>dev_ctrl := (dev_ctrl w)\<lparr>m_ep2_out := fifo_write bs (m_ep2_out (dev_ctrl w)), m_out_ep_event := True\<rparr>\<rparr>)"
  using assms handle_rx_device [of w tr e]
  by (simp add: upstream_b_transport_def link_b_transport_def absorbed_def mark_stall_def
      from_proto_b_transport_def handle_bulk_out_def)

lemma loop_start:
  assumes inv: "sim_inv s" and rest: "at_rest s" and sv: "served n DEVICE s" and c: "m_configured (dev_ctrl (sim_world s))"
  shows "loop_inv n bs (put_core ((sim_core s)\<lparr>sys := (sim_world s)\<lparr>dev_ctrl := (dev_ctrl (sim_world s))
    \<lparr>m_ep2_out := fifo_write bs f, m_out_ep_event := True\<rparr>\<rparr>\<rparr>) s)"
proof -
  have s: "ready s = []" "settled s" using rest by (simp_all add: at_rest_def)
  have "\<not> lb_pulse (sim_core s)" by (rule rest_state(3) [OF inv rest])
  moreover from this have "\<not> sig_bulk_irq (sigs (sim_world s))"
    using s(2) irq_follows_pulse [OF sim_invD(2) [OF inv]] by (simp add: settled_pend pend_defs)
  moreover have "host_sleeps s"
    using s rest_state(5) [OF inv rest] by (auto simp: host_sleeps_def settled_def events_pending_def)
  ultimately show ?thesis
    using sv c s(1)
    by (simp add: loop_inv_def host_sleeps_def data_waits_def holds_def fifo_write_def served_def
        port_inputs_def forwarded_inputs_def seen_inputs_def)
qed

lemma loop_end:
  assumes "at_rest s" and "loop_inv n bs s"
  shows "holds (m_ep1_in (dev_ctrl (sim_world s))) bs" and "\<not> has_data (m_ep2_out (dev_ctrl (sim_world s)))"
    and "bit (m_intr_status (drd (sim_world s))) 5"
proof -
  have "\<not> data_waits bs s" using assms(1) by (auto simp: data_waits_def at_rest_def settled_def events_pending_def)
  with assms(2) have "data_copied bs s" by (simp add: loop_inv_def)
  with bulk.rest_underway [OF assms(1)]
  show "holds (m_ep1_in (dev_ctrl (sim_world s))) bs" "\<not> has_data (m_ep2_out (dev_ctrl (sim_world s)))"
    "bit (m_intr_status (drd (sim_world s))) 5"
    by (auto simp: data_copied_def bulk.recorded_def)
qed

end
