(* ===== verification/Testbench_Scenario.thy ===== *)
theory Testbench_Scenario imports Host_Turns begin

text \<open>
  \<open>run_scenarios\<close>, the thread of the testbench, by its stretches between two \<open>wait\<close> calls, and a
  run of the whole program: the kernel's steps in one fixed order with the stretches of the
  testbench at their times.
\<close>

section \<open>The testbench thread\<close>

datatype tb_pc = TB_Start | TB_Attach | TB_Vbus | TB_BulkOut | TB_BulkIn | TB_Verify | TB_RoleCtrl
  | TB_Status | TB_Clear | TB_Stopped

text \<open>What the testbench prints: the verdict of the loopback test and the role field of STATUS.\<close>

record tb_report =
  tb_loopback :: "bool option"
  tb_role :: "u8 option"

definition tb_report_new :: tb_report where
  "tb_report_new = \<lparr> tb_loopback = None, tb_role = None \<rparr>"

definition with_world :: "(tb_world \<Rightarrow> tb_world run) \<Rightarrow> sim \<Rightarrow> sim run" where
  "with_world f s = bindR (f (sim_world s)) (\<lambda>w. Inr (put_core ((sim_core s)\<lparr>sys := w\<rparr>) s))"

definition with_host :: "(host_controller \<Rightarrow> host_controller run) \<Rightarrow> sim \<Rightarrow> sim run" where
  "with_host f = with_world (\<lambda>w. bindR (f (host_ctrl w)) (\<lambda>h. Inr (w\<lparr>host_ctrl := h\<rparr>)))"

definition tb_addr :: "sim \<Rightarrow> u8" where
  "tb_addr s = di_addr (m_dev (host_ctrl (sim_world s)))"

text \<open>
  One stretch: the next one, the time of the \<open>wait\<close> before it, and the effect. The last component
  of the result is the state, the report before it what has been printed so far.
\<close>

fun tb_segment :: "tb_pc \<Rightarrow> tb_report \<Rightarrow> sim \<Rightarrow> (tb_pc \<times> sc_time \<times> tb_report \<times> sim) run" where
  "tb_segment TB_Start r s = Inr (TB_Attach, SC_NS 100, r, s\<lparr>tb_cc := CC_UFP_ATTACHED, tb_vbus := False\<rparr>)"
| "tb_segment TB_Attach r s = Inr (TB_Vbus, SC_NS 500, r, s)"
| "tb_segment TB_Vbus r s = Inr (TB_BulkOut, SC_MS 15, r, s\<lparr>tb_vbus := True\<rparr>)"
| "tb_segment TB_BulkOut r s = bindR (with_host (bulk_out (tb_addr s) 2 tx_pattern) s)
     (\<lambda>s. Inr (TB_BulkIn, SC_US 200, r, s))"
| "tb_segment TB_BulkIn r s = bindR (with_host (bulk_in (tb_addr s) 1 64) s)
     (\<lambda>s. Inr (TB_Verify, SC_US 200, r, s))"
| "tb_segment TB_Verify r s = Inr (TB_RoleCtrl, SC_US 1,
     r\<lparr>tb_loopback := Some (loopback_ok (m_rx_buf (host_ctrl (sim_world s))) tx_pattern)\<rparr>,
     s\<lparr>tb_cc := CC_DFP_ATTACHED\<rparr>)"
| "tb_segment TB_RoleCtrl r s = bindR (with_world (reg_write REG_ROLE_CTRL 2) s)
     (\<lambda>s. Inr (TB_Status, SC_US 5, r, s))"
| "tb_segment TB_Status r s = bindR (reg_read REG_STATUS (sim_world s))
     (\<lambda>v. Inr (TB_Clear, SC_MS 15, r\<lparr>tb_role := Some (ucast (drop_bit 4 v) AND 0x03)\<rparr>, s))"
| "tb_segment TB_Clear r s = bindR (with_world (reg_write REG_INTR_STATUS 0xFFFFFFFF) s)
     (\<lambda>s. Inr (TB_Stopped, 0, r, s))"
| "tb_segment TB_Stopped r s = Inr (TB_Stopped, 0, r, s)"

section \<open>One order of the kernel\<close>

definition next_due :: "sim \<Rightarrow> sc_time option" where
  "next_due s = (case List.map_filter (timers s) all_processes of
     [] \<Rightarrow> None | t # ts \<Rightarrow> Some (fold min ts t))"

text \<open>
  At most \<open>n\<close> steps, the first ready process first, until the simulation has reached the time
  \<open>due\<close>; the first component tells whether it has.
\<close>

fun run_until :: "nat \<Rightarrow> sc_time \<Rightarrow> sim \<Rightarrow> (bool \<times> sim) run" where
  "run_until 0 due s = Inr (False, s)"
| "run_until (Suc n) due s = (case ready s of
     p # ps \<Rightarrow> bindR (proc_turn p (s\<lparr>ready := removeAll p (ready s)\<rparr>)) (run_until n due)
   | [] \<Rightarrow> if \<not> settled s then run_until n due (delta_cycle s)
       else (case next_due s of
           None \<Rightarrow> Inr (True, advance due s)
         | Some t \<Rightarrow> if t < due then run_until n due (advance t s) else Inr (True, advance due s)))"

text \<open>The whole program, stretch by stretch of the testbench, \<open>n\<close> steps of the kernel for each.\<close>

fun run_program :: "nat \<Rightarrow> nat \<Rightarrow> tb_pc \<Rightarrow> tb_report \<Rightarrow> sim \<Rightarrow> (tb_pc \<times> tb_report \<times> sim) run" where
  "run_program n 0 pc r s = Inr (pc, r, s)"
| "run_program n (Suc k) pc r s =
     bindR (tb_segment pc r s) (\<lambda>(pc, t, r, s).
       if pc = TB_Stopped then Inr (pc, r, s)
       else bindR (run_until n (now s + t) s) (\<lambda>(b, s).
         if b then run_program n k pc r s else Inr (pc, r, s)))"

end
