(* ===== verification/Scenario_Run.thy ===== *)
theory Scenario_Run imports Testbench_Scenario Sim_Liveness "HOL-Library.Code_Target_Nat" begin

text \<open>
  The run of \<open>Testbench_Scenario\<close> is a run of the simulation, and it is evaluated here: the whole
  program from the start of the simulation to \<open>sc_stop\<close>, with its real waiting times.
\<close>

section \<open>The run is one of the simulation's\<close>

lemma next_due_least:
  assumes "next_due s = Some t"
  shows "\<exists>p. timers s p = Some t" and "timers s q = Some u \<Longrightarrow> t \<le> u"
proof -
  let ?ts = "List.map_filter (timers s) all_processes"
  have set: "set ?ts = {t. \<exists>p. timers s p = Some t}"
    by (auto simp: List.map_filter_def image_iff) (metis option.sel)
  from assms obtain x xs where ts: "?ts = x # xs" "t = fold min xs x"
    by (auto simp: next_due_def split: list.splits)
  then have t: "t = Min (set ?ts)" unfolding ts by (simp only: Min.set_eq_fold)
  have "t \<in> set ?ts" unfolding t by (rule Min_in) (simp_all add: ts(1))
  then show "\<exists>p. timers s p = Some t" by (simp add: set)
  show "t \<le> u" if "timers s q = Some u"
  proof -
    have "u \<in> set ?ts" unfolding set using that by blast
    then show "t \<le> u" unfolding t by (rule Min_le [OF List.finite_set])
  qed
qed

lemma next_due_none: "next_due s = None \<Longrightarrow> timers s q = None"
proof -
  assume "next_due s = None"
  then have "List.map_filter (timers s) all_processes = []"
    by (simp add: next_due_def split: list.splits)
  then show "timers s q = None"
    by (auto simp: List.map_filter_def filter_empty_conv)
qed

lemma run_until_reachable:
  "run_until n due s = Inr (b, t) \<Longrightarrow> sim_reachable s \<Longrightarrow> now s < due \<Longrightarrow> sim_reachable t"
proof (induction n arbitrary: s)
  case 0
  then show ?case by simp
next
  case (Suc n)
  show ?case
  proof (cases "ready s")
    case (Cons p ps)
    with Suc.prems obtain u where u: "proc_turn p (s\<lparr>ready := removeAll p (ready s)\<rparr>) = Inr u"
      "run_until n due u = Inr (b, t)" by (auto simp: bindR_eq_Inr)
    have "sim_reachable u" using sim_kernel [OF Suc.prems(2) k_run [OF _ u(1)]] Cons by simp
    moreover have "now u = now s" using proc_turn_effect [OF u(1)] by (simp add: turn_effect_def)
    ultimately show ?thesis using Suc u by simp
  next
    case Nil
    show ?thesis
    proof (cases "settled s")
      case False
      with Suc Nil sim_kernel [OF Suc.prems(2) k_delta [OF Nil False]] show ?thesis by simp
    next
      case True
      have wait: "sim_reachable (advance due s)" if "\<And>q u. timers s q = Some u \<Longrightarrow> due \<le> u"
        by (rule sim_env [OF Suc.prems(2) e_time [OF Nil True Suc.prems(3) that]])
      show ?thesis
      proof (cases "next_due s")
        case None
        with Suc.prems Nil True wait next_due_none [OF None] show ?thesis by auto
      next
        case (Some v)
        obtain p where p: "timers s p = Some v" using next_due_least(1) [OF Some] by blast
        have "sim_reachable (advance v s)"
          by (rule sim_kernel [OF Suc.prems(2) k_time [OF Nil True p next_due_least(2) [OF Some]]])
        moreover have "sim_reachable (advance due s)" if "\<not> v < due"
        proof (rule wait)
          fix q u assume "timers s q = Some u"
          from next_due_least(2) [OF Some this] that show "due \<le> u" by simp
        qed
        ultimately show ?thesis
          using Suc Nil True Some by (cases "v < due") auto
      qed
    qed
  qed
qed

lemma tb_segment_reachable:
  assumes "tb_segment pc r s = Inr (pc', d, r', t)" and "sim_reachable s"
  shows "sim_reachable t" and "now t = now s" and "pc' \<noteq> TB_Stopped \<Longrightarrow> 0 < d"
proof -
  have env: "sim_reachable u" if "env_step s u" for u using sim_env assms(2) that by blast
  have w: "sim_reachable u" "now u = now s" if "with_world (reg_write a v) s = Inr u" for a v u
    using that by (auto simp: with_world_def bindR_eq_Inr reg_write_def dest: e_cfg intro: env)
  have o: "sim_reachable u" "now u = now s" if "with_host (bulk_out a ep bs) s = Inr u" for a ep bs u
    using that by (auto simp: with_host_def with_world_def bindR_eq_Inr intro!: env e_bulk_out)
  have i: "sim_reachable u" "now u = now s" if "with_host (bulk_in a ep n) s = Inr u" for a ep n u
    using that by (auto simp: with_host_def with_world_def bindR_eq_Inr intro!: env e_bulk_in)
  have s: "s\<lparr>tb_vbus := v\<rparr> = s\<lparr>tb_cc := tb_cc s, tb_vbus := v\<rparr>"
    "s\<lparr>tb_cc := c\<rparr> = s\<lparr>tb_cc := c, tb_vbus := tb_vbus s\<rparr>" for c v by simp_all
  have c: "sim_reachable (s\<lparr>tb_vbus := v\<rparr>)" "sim_reachable (s\<lparr>tb_cc := c\<rparr>)"
    "sim_reachable (s\<lparr>tb_cc := c, tb_vbus := v\<rparr>)" for c v
    using env [OF e_inputs, of v c] env [OF e_inputs, of v "tb_cc s"] env [OF e_inputs, of "tb_vbus s" c]
    by simp_all
  show "sim_reachable t"
    using assms by (cases pc) (auto simp: bindR_eq_Inr intro: w o i c)
  show "now t = now s"
    using assms by (cases pc) (auto simp: bindR_eq_Inr dest: w o i)
  show "pc' \<noteq> TB_Stopped \<Longrightarrow> 0 < d"
    using assms by (cases pc) (auto simp: bindR_eq_Inr)
qed

lemma run_program_reachable:
  "run_program n k pc r s = Inr (pc', r', t) \<Longrightarrow> sim_reachable s \<Longrightarrow> sim_reachable t"
proof (induction k arbitrary: pc r s)
  case 0
  then show ?case by simp
next
  case (Suc k)
  from Suc.prems(1) obtain pc1 d r1 s1 where g: "tb_segment pc r s = Inr (pc1, d, r1, s1)"
    by (auto simp: bindR_eq_Inr)
  note seg = tb_segment_reachable [OF g Suc.prems(2)]
  show ?case
  proof (cases "pc1 = TB_Stopped")
    case True
    with Suc.prems g seg show ?thesis by simp
  next
    case False
    with Suc.prems g obtain b s2 where u: "run_until n (now s1 + d) s1 = Inr (b, s2)"
      by (auto simp: bindR_eq_Inr)
    have "sim_reachable s2" by (rule run_until_reachable [OF u seg(1)]) (use seg(3) False in simp)
    with Suc g u False show ?thesis by (auto split: if_splits)
  qed
qed

section \<open>Code equations for the evaluation\<close>

lemma loopback_ok_code [code]:
  "loopback_ok rx tx \<longleftrightarrow> length rx = 64 \<and>
     (if 64 \<le> length tx then rx = take 64 tx else list_all (\<lambda>i. rx ! i = tx ! i) [0..<64])"
proof -
  have "rx = take 64 tx \<longleftrightarrow> (\<forall>i < 64. rx ! i = tx ! i)" if "length rx = 64" "64 \<le> length tx"
    using that by (auto simp: list_eq_iff_nth_eq)
  then show ?thesis by (auto simp: loopback_ok_def list_all_iff)
qed

lemma tx_pattern_code [code]:
  "tx_pattern = [0, 1, 2, 3, 4, 5, 6, 7, 8, 9, 10, 11, 12, 13, 14, 15, 16, 17, 18, 19, 20, 21, 22,
     23, 24, 25, 26, 27, 28, 29, 30, 31, 32, 33, 34, 35, 36, 37, 38, 39, 40, 41, 42, 43, 44, 45, 46,
     47, 48, 49, 50, 51, 52, 53, 54, 55, 56, 57, 58, 59, 60, 61, 62, 63]"
  by (simp add: tx_pattern_def upt_rec)

section \<open>The scenario\<close>

text \<open>What the testbench finds, and the state it leaves.\<close>

definition scenario_ok :: "(tb_pc \<times> tb_report \<times> sim) run \<Rightarrow> bool" where
  "scenario_ok out = (case out of Inl e \<Rightarrow> False | Inr (pc, r, s) \<Rightarrow>
     pc = TB_Stopped \<and> tb_loopback r = Some True \<and> tb_role r = Some 2 \<and>
     m_intr_status (drd (sim_world s)) = 0 \<and> \<not> irq (drd (sim_world s)) \<and>
     dev_enable (drd (sim_world s)) \<and> \<not> host_enable (drd (sim_world s)) \<and>
     enumerated (m_dev (host_ctrl (sim_world s))) \<and> now s = 30406600)"

lemma scenario_run: "scenario_ok (run_program 100 10 TB_Start tb_report_new sim_new)"
  by code_simp

section \<open>A request during the pulse\<close>

lemma at_rest_code [code]:
  "at_rest s \<longleftrightarrow> ready s = [] \<and> settled s \<and> list_all (\<lambda>p. timers s p = None) all_processes"
  by (auto simp: at_rest_def list_all_iff)

text \<open>
  A host is attached after 100 ns; 5 ns later, inside the 10 ns pulse for the role DEVICE, software
  requests the role HOST.
\<close>

definition late_request_run :: "sim run" where
  "late_request_run =
     bindR (run_until 30 100 sim_new) (\<lambda>(b, s).
     bindR (run_until 30 105 (s\<lparr>tb_cc := CC_DFP_ATTACHED, tb_vbus := True\<rparr>)) (\<lambda>(b, s).
     bindR (with_world (reg_write REG_ROLE_CTRL 1) s) (\<lambda>s.
     bindR (run_until 30 5000 s) (\<lambda>(b, s). Inr s))))"

definition late_request_lost :: "sim run \<Rightarrow> bool" where
  "late_request_lost out = (case out of Inl e \<Rightarrow> False | Inr s \<Rightarrow>
     at_rest s \<and> m_host_requested (role_mgr (sim_world s)) \<and> m_role (role_mgr (sim_world s)) = DEVICE \<and>
     dev_enable (drd (sim_world s)))"

lemma late_request_evaluated: "late_request_lost late_request_run"
  by code_simp

lemma with_write_reachable:
  "with_world (reg_write a v) s = Inr t \<Longrightarrow> sim_reachable s \<Longrightarrow> sim_reachable t \<and> now t = now s"
  by (auto simp: with_world_def bindR_eq_Inr reg_write_def dest: e_cfg sim_env)

lemma run_until_le: "run_until n due s = Inr (b, t) \<Longrightarrow> now s \<le> due \<Longrightarrow> now t \<le> due"
proof (induction n arbitrary: s)
  case 0
  then show ?case by simp
next
  case (Suc n)
  show ?case
  proof (cases "ready s")
    case (Cons p ps)
    with Suc.prems obtain u where u: "proc_turn p (s\<lparr>ready := removeAll p (ready s)\<rparr>) = Inr u"
      "run_until n due u = Inr (b, t)" by (auto simp: bindR_eq_Inr)
    with proc_turn_effect [OF u(1)] Suc show ?thesis by (simp add: turn_effect_def)
  next
    case Nil
    with Suc show ?thesis by (auto split: if_splits option.splits)
  qed
qed

lemma late_request_reachable: "late_request_run = Inr s \<Longrightarrow> sim_reachable s"
proof -
  assume "late_request_run = Inr s"
  then obtain b1 s1 b2 s2 s3 b3 where r: "run_until 30 100 sim_new = Inr (b1, s1)"
    "run_until 30 105 (s1\<lparr>tb_cc := CC_DFP_ATTACHED, tb_vbus := True\<rparr>) = Inr (b2, s2)"
    "with_world (reg_write REG_ROLE_CTRL 1) s2 = Inr s3" "run_until 30 5000 s3 = Inr (b3, s)"
    by (auto simp: late_request_run_def bindR_eq_Inr)
  have n: "now sim_new = 0" by (simp add: sim_new_def)
  have s1: "sim_reachable s1" "now s1 < 105"
    using run_until_reachable [OF r(1) sim_init] run_until_le [OF r(1)] n by simp_all
  have "sim_reachable (s1\<lparr>tb_cc := CC_DFP_ATTACHED, tb_vbus := True\<rparr>)"
    by (rule sim_env [OF s1(1) e_inputs])
  with run_until_reachable [OF r(2)] run_until_le [OF r(2)] s1(2)
  have s2: "sim_reachable s2" "now s2 < 5000" by simp_all
  with with_write_reachable [OF r(3)] run_until_reachable [OF r(4)] show ?thesis by simp
qed

end
