(* ===== verification/Sim_Properties.thy ===== *)
theory Sim_Properties imports Done_Pulses Host_Asleep Device_Run Scenario_Run Link_Recorder begin

text \<open>
  The properties of the program as the kernel runs it: that it refines the system of processes in
  any order, that no process aborts, that it comes to rest, what it looks like then, that a role
  switch is answered in every order of the processes, and the whole scenario of the testbench.
\<close>

section \<open>Refinement and safety\<close>



text \<open>C9. In every reachable state every process can take its turn: no assertion fails, no payload is
read or written outside its memory, and the host thread's turn ends at one of its \<open>wait\<close> calls.\<close>

theorem every_turn_returns:
  assumes "sim_reachable s"
  shows "\<exists>t. proc_turn p s = Inr t \<and> (p = P_Host \<longrightarrow> at_wait (host_at t))"
proof -
  note i = sim_reachable_inv [OF assms]
  have s: "s\<lparr>ready := ready s\<rparr> = s" by simp
  from turn_returns [OF i, of p "ready s"] obtain t where t: "proc_turn p s = Inr t" unfolding s by blast
  with host_turn_returns [OF sim_invD(5) [OF i]] show ?thesis
    by (cases "p = P_Host") (auto simp: turn_post_def)
qed

lemma every_turn_returns_witness: "\<exists>t. proc_turn P_Host sim_new = Inr t \<and> at_wait (host_at t)"
  using every_turn_returns [OF sim_init, of P_Host] by simp

section \<open>The host thread and its ports\<close>

text \<open>C10. In every reachable state the done ports pulse exactly while the host thread is in the wait
after an enumeration or a transfer, the device's interrupt port exactly in the loopback thread's
10 ns, a device counts as enumerated only with configuration 1 and the
address the port shows, and the transfer ring holds at most 256 entries.\<close>

theorem host_ports_follow_thread:
  assumes "sim_reachable s"
  shows "(enumeration_done (host_ctrl (sim_world s)) \<longleftrightarrow> host_at s = H_EnumDone) \<and>
    (transfer_done (host_ctrl (sim_world s)) \<longleftrightarrow> host_at s = H_XferDone) \<and>
    (bulk_irq (dev_ctrl (sim_world s)) \<longleftrightarrow> lb_pulse (sim_core s)) \<and>
    (enumerated (m_dev (host_ctrl (sim_world s))) \<longrightarrow> active_config (m_dev (host_ctrl (sim_world s))) = 1 \<and>
      di_addr (m_dev (host_ctrl (sim_world s))) = dev_addr_out (host_ctrl (sim_world s))) \<and>
    length (ring_queue (m_transfer_ring (host_ctrl (sim_world s)))) \<le> 256"
  using sim_invD(5) [OF sim_reachable_inv [OF assms]]
    irq_follows_pulse [OF sim_invD(2) [OF sim_reachable_inv [OF assms]]]
  by (simp add: host_inv_def ring_ok_def RING_DEPTH_def)

lemma host_ports_follow_thread_witness:
  "\<not> enumeration_done (host_ctrl (sim_world sim_new)) \<and> \<not> transfer_done (host_ctrl (sim_world sim_new))"
  using host_ports_follow_thread [OF sim_init] by (simp add: sim_new_def)

text \<open>The thread cut at its waits does what the two functions it calls do: run from the head of the
main loop it reaches the ring loop in the state \<open>enumerate_device\<close> leaves, and run on from there it
ends where \<open>process_transfer_ring\<close> ends, asleep on the empty ring or back at the head of the loop.\<close>

theorem host_thread_computes_round:
  assumes "sig_host_enable (sigs w)" and "host_main_round tp wt n w = Inr (out, w')" and "out \<noteq> RingFuel"
  shows "\<exists>w1. host_run tp wt {H_RingTop} 13 H_Top w = Inr (H_RingTop, w1) \<and>
    host_run tp wt ring_stop (2 * n + 1) H_RingTop w1 =
      Inr (if out = RingLeft then H_Top else H_RingEmpty, w')"
proof -
  from assms(2) obtain w1 where e: "enumerate_device tp wt
      (w\<lparr>host_ctrl := (host_ctrl w)\<lparr>m_dev := default_device_info\<rparr>\<rparr>) = Inr w1"
    and r: "process_transfer_ring tp wt n w1 = Inr (out, w')"
    by (auto simp: host_main_round_def bindR_eq_Inr)
  show ?thesis
    using enumerate_run [OF assms(1), of tp wt 0] e ring_run [OF r assms(3), of 0] by simp
qed

lemma host_thread_computes_round_witness:
  "\<exists>w1 w'. host_run (\<lambda>tr d w. Inr (tr\<lparr>response_status := TLM_GENERIC_ERROR_RESPONSE\<rparr>, d, w)) (\<lambda>t w. w) {H_RingTop} 13
      H_Top (drd_new\<lparr>sigs := drd_signals_new\<lparr>sig_host_enable := True\<rparr>\<rparr>) = Inr (H_RingTop, w1) \<and>
    host_run (\<lambda>tr d w. Inr (tr\<lparr>response_status := TLM_GENERIC_ERROR_RESPONSE\<rparr>, d, w)) (\<lambda>t w. w) ring_stop 1
      H_RingTop w1 = Inr (H_RingEmpty, w')"
proof -
  let ?tp = "\<lambda>tr d w. Inr (tr\<lparr>response_status := TLM_GENERIC_ERROR_RESPONSE\<rparr>, d, w) :: (payload \<times> nat \<times> world) run"
  let ?w = "drd_new\<lparr>sigs := drd_signals_new\<lparr>sig_host_enable := True\<rparr>\<rparr>"
  have "\<exists>w'. host_main_round ?tp (\<lambda>t w. w) 0 ?w = Inr (RingBlocked, w')"
    by (simp add: host_main_round_def enumerate_device_def get_descriptor_def ctrl_transfer_def
        ctrl_data_stage_def Let_def process_transfer_ring.simps ring_empty_def drd_new_def
        host_controller_new_def ring_new_def drd_signals_new_def get_descriptor_setup_def)
  then obtain w' where r: "host_main_round ?tp (\<lambda>t w. w) 0 ?w = Inr (RingBlocked, w')" by blast
  show ?thesis
    using host_thread_computes_round [OF _ r] by (auto simp: drd_signals_new_def)
qed

section \<open>Rest\<close>

text \<open>C6. Left alone, the simulation always comes to rest: no run of the kernel goes on for ever, neither
in delta cycles nor over time, and where it cannot go on every thread waits for an event, all
signals show what was written, and the host thread is disabled or at an empty ring.\<close>

theorem simulation_comes_to_rest:
  assumes "sim_reachable s"
  shows "(\<nexists>f. f 0 = s \<and> (\<forall>i. kernel_step (f i) (f (Suc i)))) \<and>
    (\<forall>t. kernel_step\<^sup>*\<^sup>* s t \<and> (\<nexists>u. kernel_step t u) \<longrightarrow>
       at_rest t \<and> rm_at (sim_core t) = RM_Wait \<and> mon_at (sim_core t) = MON_Wait \<and>
       \<not> lb_pulse (sim_core t) \<and> sigs (sim_world t) = bind_internal (sim_world t) \<and>
       (host_at t = H_Disabled \<or> host_at t = H_RingEmpty))"
proof (intro conjI allI impI)
  note i = sim_reachable_inv [OF assms]
  show "\<nexists>f. f 0 = s \<and> (\<forall>i. kernel_step (f i) (f (Suc i)))"
  proof
    assume "\<exists>f. f 0 = s \<and> (\<forall>i. kernel_step (f i) (f (Suc i)))"
    then obtain f where f: "f 0 = s" "\<And>i. kernel_step (f i) (f (Suc i))" by blast
    have inv: "sim_inv (f n)" for n
      by (induction n) (use i f kernel_inv in auto)
    with f(2) have "\<forall>n. (f (Suc n), f n) \<in> {(t, s). sim_inv s \<and> kernel_step s t}" by simp
    with kernel_wf show False by (metis wf_iff_no_infinite_down_chain)
  qed
  fix t
  assume t: "kernel_step\<^sup>*\<^sup>* s t \<and> (\<nexists>u. kernel_step t u)"
  then have "kernel_step\<^sup>*\<^sup>* s t" by blast
  then have inv: "sim_inv t"
    by (induction rule: rtranclp_induct) (use i kernel_inv in auto)
  from t stuck_at_rest [OF inv] show rest: "at_rest t" by blast
  note r = rest_state [OF inv rest]
  show "rm_at (sim_core t) = RM_Wait" "mon_at (sim_core t) = MON_Wait" "\<not> lb_pulse (sim_core t)"
    "host_at t = H_Disabled \<or> host_at t = H_RingEmpty" using r by blast+
  show "sigs (sim_world t) = bind_internal (sim_world t)" using rest by (simp add: at_rest_def settled_def)
qed

lemma simulation_comes_to_rest_witness:
  "\<nexists>f. f 0 = sim_new \<and> (\<forall>i. kernel_step (f i) (f (Suc i)))"
  using simulation_comes_to_rest [OF sim_init] by blast

text \<open>Two concrete states at rest: 100 ns after the start, and after the testbench has attached a device.\<close>

definition idle_run :: "sim run" where
  "idle_run = bindR (run_until 30 100 sim_new) (\<lambda>(b, s). Inr s)"

definition attached_run :: "sim run" where
  "attached_run = bindR (run_program 100 3 TB_Start tb_report_new sim_new) (\<lambda>(pc, r, s). Inr s)"

definition unattached :: "sim \<Rightarrow> bool" where
  "unattached s \<longleftrightarrow> at_rest s \<and> no_request (role_mgr (sim_world s)) \<and> m_role (role_mgr (sim_world s)) = NONE \<and>
     tb_cc s = CC_DISCONNECTED \<and> \<not> tb_vbus s \<and> host_at s = H_Disabled \<and> m_next_addr (host_ctrl (sim_world s)) = 1"

definition idle_host :: "sim \<Rightarrow> bool" where
  "idle_host s \<longleftrightarrow> at_rest s \<and> no_request (role_mgr (sim_world s)) \<and> sig_role (sigs (sim_world s)) = HOST \<and>
     sig_host_enable (sigs (sim_world s)) \<and> \<not> sig_dev_enable (sigs (sim_world s)) \<and> host_at s = H_RingEmpty \<and>
     \<not> m_resp_valid (host_ctrl (sim_world s))"

lemma idle_run_evaluated: "case idle_run of Inl e \<Rightarrow> False | Inr s \<Rightarrow> unattached s"
  by code_simp

lemma attached_run_evaluated:
  "case attached_run of Inl e \<Rightarrow> False | Inr s \<Rightarrow> idle_host s \<and> enumerated (m_dev (host_ctrl (sim_world s))) \<and>
     ring_queue (m_transfer_ring (host_ctrl (sim_world s))) = []"
  by code_simp

lemma idle_run_state: "\<exists>s. sim_reachable s \<and> unattached s"
proof -
  from idle_run_evaluated obtain s where s: "idle_run = Inr s" "unattached s"
    by (auto split: sum.splits)
  then obtain b where "run_until 30 100 sim_new = Inr (b, s)" by (auto simp: idle_run_def bindR_eq_Inr)
  from run_until_reachable [OF this sim_init] s(2) show ?thesis by (auto simp: sim_new_def)
qed

lemma attached_run_state:
  "\<exists>s. sim_reachable s \<and> idle_host s \<and> enumerated (m_dev (host_ctrl (sim_world s))) \<and>
     ring_queue (m_transfer_ring (host_ctrl (sim_world s))) = []"
proof -
  from attached_run_evaluated obtain s where s: "attached_run = Inr s" "idle_host s"
    "enumerated (m_dev (host_ctrl (sim_world s)))" "ring_queue (m_transfer_ring (host_ctrl (sim_world s))) = []"
    by (auto split: sum.splits)
  then obtain pc r where "run_program 100 3 TB_Start tb_report_new sim_new = Inr (pc, r, s)"
    by (auto simp: attached_run_def bindR_eq_Inr)
  from run_program_reachable [OF this sim_init] s(2-4) show ?thesis by blast
qed

text \<open>A device configured over the link, and a host in the pulse of the first of two transfers.\<close>

definition configure_packet :: payload where
  "configure_packet = make_payload TLM_WRITE_COMMAND (replicate 8 0)
     ((make_usb3_ext SETUP 0 0 HOST_TO_DEVICE CONTROL)\<lparr>setup_pkt := set_configuration_setup 1\<rparr>)"

definition device_run :: "sim run" where
  "device_run =
     bindR (run_until 30 100 sim_new) (\<lambda>(b, s).
     bindR (run_until 30 5000 (s\<lparr>tb_cc := CC_DFP_ATTACHED, tb_vbus := True\<rparr>)) (\<lambda>(b, s).
     bindR (tb_upstream no_wait 2 configure_packet 0 (sim_world s)) (\<lambda>(tr, d, w).
     bindR (run_until 30 6000 (put_core ((sim_core s)\<lparr>sys := w\<rparr>) s)) (\<lambda>(b, s). Inr s))))"

definition idle_device :: "sim \<Rightarrow> bool" where
  "idle_device s \<longleftrightarrow> at_rest s \<and> no_request (role_mgr (sim_world s)) \<and> sig_role (sigs (sim_world s)) = DEVICE \<and>
     sig_dev_enable (sigs (sim_world s)) \<and> \<not> sig_host_enable (sigs (sim_world s)) \<and>
     m_configured (dev_ctrl (sim_world s))"

lemma device_run_evaluated: "case device_run of Inl e \<Rightarrow> False | Inr s \<Rightarrow> idle_device s"
  by code_simp

lemma device_run_state: "\<exists>s. sim_reachable s \<and> idle_device s"
proof -
  from device_run_evaluated obtain s where s: "device_run = Inr s" "idle_device s"
    by (auto split: sum.splits)
  from s(1) obtain b1 s1 b2 s2 tr d w b3 where r: "run_until 30 100 sim_new = Inr (b1, s1)"
    "run_until 30 5000 (s1\<lparr>tb_cc := CC_DFP_ATTACHED, tb_vbus := True\<rparr>) = Inr (b2, s2)"
    "tb_upstream no_wait 2 configure_packet 0 (sim_world s2) = Inr (tr, d, w)"
    "run_until 30 6000 (put_core ((sim_core s2)\<lparr>sys := w\<rparr>) s2) = Inr (b3, s)"
    by (auto simp: device_run_def bindR_eq_Inr)
  have n: "now sim_new = 0" by (simp add: sim_new_def)
  have s1: "sim_reachable s1" "now s1 < 5000"
    using run_until_reachable [OF r(1) sim_init] run_until_le [OF r(1)] n by simp_all
  have "sim_reachable (s1\<lparr>tb_cc := CC_DFP_ATTACHED, tb_vbus := True\<rparr>)"
    by (rule sim_env [OF s1(1) e_inputs])
  with run_until_reachable [OF r(2)] run_until_le [OF r(2)] s1(2)
  have s2: "sim_reachable s2" "now s2 < 6000" by simp_all
  from sim_env [OF s2(1) e_upstream [OF r(3)]] run_until_reachable [OF r(4)] s2(2) s(2)
  show ?thesis by auto
qed

definition pulse_run :: "sim run" where
  "pulse_run = bindR attached_run (\<lambda>s.
     bindR (with_host (bulk_out 1 2 [1]) s) (\<lambda>s.
     bindR (with_host (bulk_out 1 2 [2]) s) (\<lambda>s.
     bindR (run_until 2 (now s + 1000) s) (\<lambda>(b, s). Inr s))))"

definition in_first_pulse :: "sim \<Rightarrow> bool" where
  "in_first_pulse s \<longleftrightarrow> host_at s = H_XferDone \<and> sig_host_enable (sigs (sim_world s)) \<and>
     (case ring_queue (m_transfer_ring (host_ctrl (sim_world s))) of [] \<Rightarrow> False | t # ts \<Rightarrow> trb_ioc t)"

lemma pulse_run_evaluated: "case pulse_run of Inl e \<Rightarrow> False | Inr s \<Rightarrow> in_first_pulse s"
  by code_simp

lemma with_bulk_out_reachable:
  "with_host (bulk_out a ep bs) s = Inr t \<Longrightarrow> sim_reachable s \<Longrightarrow> sim_reachable t \<and> now t = now s"
  by (auto simp: with_host_def with_world_def bindR_eq_Inr dest: e_bulk_out sim_env)

lemma pulse_run_state:
  "\<exists>s t ts. sim_reachable s \<and> host_at s = H_XferDone \<and> sig_host_enable (sigs (sim_world s)) \<and>
     ring_queue (m_transfer_ring (host_ctrl (sim_world s))) = t # ts \<and> trb_ioc t"
proof -
  from pulse_run_evaluated obtain s where s: "pulse_run = Inr s" "in_first_pulse s"
    by (auto split: sum.splits)
  from s(1) obtain s0 s1 s2 b where r: "attached_run = Inr s0" "with_host (bulk_out 1 2 [1]) s0 = Inr s1"
    "with_host (bulk_out 1 2 [2]) s1 = Inr s2" "run_until 2 (now s2 + 1000) s2 = Inr (b, s)"
    by (auto simp: pulse_run_def bindR_eq_Inr)
  have "sim_reachable s0" using r(1) run_program_reachable [OF _ sim_init] by (auto simp: attached_run_def bindR_eq_Inr)
  with with_bulk_out_reachable [OF r(2)] with_bulk_out_reachable [OF r(3)] have "sim_reachable s2" by blast
  with run_until_reachable [OF r(4)] have "sim_reachable s" by simp
  with s(2) show ?thesis by (auto simp: in_first_pulse_def split: list.splits)
qed

text \<open>What software reads.\<close>

lemma bit_nonzero:
  "bit v 3 \<Longrightarrow> v AND DRD_INTR_ENUM_DONE \<noteq> 0" "bit v 4 \<Longrightarrow> v AND DRD_INTR_XFER_DONE \<noteq> 0"
  "bit v 5 \<Longrightarrow> v AND DRD_INTR_BULK_IRQ \<noteq> 0" for v :: u32
proof -
  have "bit v n \<Longrightarrow> n < 32 \<Longrightarrow> bit (v AND push_bit n 1) n" for n by (simp add: bit_simps)
  then have "bit v n \<Longrightarrow> n < 32 \<Longrightarrow> v AND push_bit n 1 \<noteq> 0" for n by fastforce
  from this [of 3] this [of 4] this [of 5]
  show "bit v 3 \<Longrightarrow> v AND DRD_INTR_ENUM_DONE \<noteq> 0" "bit v 4 \<Longrightarrow> v AND DRD_INTR_XFER_DONE \<noteq> 0"
    "bit v 5 \<Longrightarrow> v AND DRD_INTR_BULK_IRQ \<noteq> 0" by (simp_all add: intr_defs del: push_bit_of_1)
qed

lemma read_intr_status: "reg_read REG_INTR_STATUS w = Inr (m_intr_status (drd w))"
  unfolding reg_read_eq aligned_regs by (simp add: cfg_read_def reg_defs)

lemma read_dev_addr: "reg_read REG_DEV_ADDR w = Inr (ucast (sig_dev_addr (sigs w)))"
  unfolding reg_read_eq aligned_regs by (simp add: cfg_read_def reg_defs)

lemma rest_dev_addr: "at_rest s \<Longrightarrow> sig_dev_addr (sigs (sim_world s)) = dev_addr_out (host_ctrl (sim_world s))"
  by (simp add: at_rest_def settled_pend pend_defs)

lemma idle_xfer_irq:
  assumes inv: "sim_inv s" and idle: "idle_host s" and run: "transfer_run rs s t" and rest: "at_rest t"
    and "rs \<noteq> []"
  shows "bit (m_intr_status (drd (sim_world t))) 4"
proof -
  have r: "at_rest s" using idle by (simp add: idle_host_def)
  have sv: "served (tb_cc s, tb_vbus s) HOST s"
    using rest_served [OF inv r] idle by (simp add: idle_host_def)
  have pl: "transfers.placed (told (sim_world s)) (bulk_data (sim_world s)) s"
    using idle_placed [OF inv r] idle by (simp add: idle_host_def)
  have "xfer_irq False s" using xfer_irq_start [OF inv r] idle by (simp add: idle_host_def)
  from transfer_run_xfer_irq [OF run inv sv pl this] assms(5) have "xfer_irq True t" by simp
  with transfer_run_placed [OF run inv sv pl] xfer_irq_end [OF _ rest] show ?thesis by blast
qed

section \<open>Answers to what happens outside\<close>

text \<open>C4. A change of CC and VBUS that asks for another role, made while the simulation is at rest and no
request is pending, is answered: in every order of the processes the simulation comes to rest again,
with the role asked for on its port, the controller of that role and no other enabled, and the
role-change interrupt recorded.\<close>

theorem lone_change_answered:
  assumes "sim_reachable s" and "at_rest s" and "no_request (role_mgr (sim_world s))"
    and "(cc, vb) \<noteq> (tb_cc s, tb_vbus s)" and "role_desired cc vb \<noteq> m_role (role_mgr (sim_world s))"
  shows "(\<exists>t. kernel_step\<^sup>*\<^sup>* (s\<lparr>tb_cc := cc, tb_vbus := vb\<rparr>) t \<and> at_rest t) \<and>
    (\<forall>t. kernel_step\<^sup>*\<^sup>* (s\<lparr>tb_cc := cc, tb_vbus := vb\<rparr>) t \<and> at_rest t \<longrightarrow>
      sig_role (sigs (sim_world t)) = role_desired cc vb \<and>
      sig_host_enable (sigs (sim_world t)) = (role_desired cc vb = HOST) \<and>
      sig_dev_enable (sigs (sim_world t)) = (role_desired cc vb = DEVICE) \<and>
      bit (m_intr_status (drd (sim_world t))) 0)"
proof (intro conjI allI impI)
  let ?s = "s\<lparr>tb_cc := cc, tb_vbus := vb\<rparr>"
  note i = sim_reachable_inv [OF assms(1)]
  have si: "sim_inv ?s" by (rule env_inv [OF e_inputs i])
  from comes_to_rest [OF si] show "\<exists>t. kernel_step\<^sup>*\<^sup>* ?s t \<and> at_rest t" .
  fix t
  assume t: "kernel_step\<^sup>*\<^sup>* ?s t \<and> at_rest t"
  from kernel_steps_lone [OF conjunct1 [OF t] si lone_start [OF i assms(2-5)]]
  have "sim_inv t" "lone_inv (cc, vb) t" by blast+
  from lone_end [OF this(1) conjunct2 [OF t] this(2)] rest_signals [OF this(1) conjunct2 [OF t]]
  show "sig_role (sigs (sim_world t)) = role_desired cc vb"
    "sig_host_enable (sigs (sim_world t)) = (role_desired cc vb = HOST)"
    "sig_dev_enable (sigs (sim_world t)) = (role_desired cc vb = DEVICE)"
    "bit (m_intr_status (drd (sim_world t))) 0"
    by simp_all
qed

lemma lone_change_answered_witness:
  "\<exists>s t. sim_reachable s \<and> kernel_step\<^sup>*\<^sup>* (s\<lparr>tb_cc := CC_DFP_ATTACHED, tb_vbus := True\<rparr>) t \<and> at_rest t \<and>
     sig_role (sigs (sim_world t)) = DEVICE \<and> sig_dev_enable (sigs (sim_world t))"
proof -
  from idle_run_state obtain s where s: "sim_reachable s" "unattached s" by blast
  then have "at_rest s" "no_request (role_mgr (sim_world s))"
    "(CC_DFP_ATTACHED, True) \<noteq> (tb_cc s, tb_vbus s)"
    "role_desired CC_DFP_ATTACHED True \<noteq> m_role (role_mgr (sim_world s))"
    by (simp_all add: unattached_def role_desired_def)
  from lone_change_answered [OF s(1) this] s(1) show ?thesis by (auto simp: role_desired_def)
qed

text \<open>C1. A device attached to an idle controller whose host has not been enabled yet is enumerated: in
every order of the processes the simulation comes to rest with the host in role, asleep at an empty
ring, the peer's identity and configuration recorded under the next address, the peer addressed
and configured, and software reads the ENUM_DONE interrupt and the address from the registers.\<close>

theorem attach_enumerates:
  assumes "sim_reachable s" and "at_rest s" and "no_request (role_mgr (sim_world s))"
    and "(cc, vb) \<noteq> (tb_cc s, tb_vbus s)" and "role_desired cc vb = HOST"
    and "m_role (role_mgr (sim_world s)) \<noteq> HOST" and "host_at s = H_Disabled"
    and "m_next_addr (host_ctrl (sim_world s)) = a"
  shows "(\<exists>t. kernel_step\<^sup>*\<^sup>* (s\<lparr>tb_cc := cc, tb_vbus := vb\<rparr>) t \<and> at_rest t) \<and>
    (\<forall>t. kernel_step\<^sup>*\<^sup>* (s\<lparr>tb_cc := cc, tb_vbus := vb\<rparr>) t \<and> at_rest t \<longrightarrow>
      sig_role (sigs (sim_world t)) = HOST \<and> host_at t = H_RingEmpty \<and>
      m_dev (host_ctrl (sim_world t)) = \<lparr> di_addr = a, vendor_id = 0xAB12, product_id = 0xCD34,
        num_configs = 1, active_config = 1, enumerated = True, di_speed = SUPER_SPEED \<rparr> \<and>
      dev_addr_out (host_ctrl (sim_world t)) = a \<and> m_next_addr (host_ctrl (sim_world t)) = a + 1 \<and>
      peer_assigned_addr (peer (sim_world t)) = a AND 0x7F \<and> peer_configured (peer (sim_world t)) \<and>
      (\<exists>v. reg_read REG_INTR_STATUS (sim_world t) = Inr v \<and> v AND DRD_INTR_ENUM_DONE \<noteq> 0) \<and>
      reg_read REG_DEV_ADDR (sim_world t) = Inr (ucast a))"
proof (intro conjI allI impI)
  let ?s = "s\<lparr>tb_cc := cc, tb_vbus := vb\<rparr>"
  note i = sim_reachable_inv [OF assms(1)]
  have si: "sim_inv ?s" by (rule env_inv [OF e_inputs i])
  from comes_to_rest [OF si] show "\<exists>t. kernel_step\<^sup>*\<^sup>* ?s t \<and> at_rest t" .
  have w: "wanted (cc, vb) = HOST" using assms(5) by simp
  have start: "attach_inv (cc, vb) a ?s"
    using attach_start [OF i assms(2-4) _ assms(7)] assms(5,6,8) by simp
  fix t
  assume t: "kernel_step\<^sup>*\<^sup>* ?s t \<and> at_rest t"
  from kernel_steps_attach_irq [OF conjunct1 [OF t] si w start attach_irq_start [OF i assms(2,7)]]
  have it: "sim_inv t" "attach_inv (cc, vb) a t" "attach_irq a t" by blast+
  note e = attach_end [OF it(1) conjunct2 [OF t] it(2) w]
  from e show "sig_role (sigs (sim_world t)) = HOST" "host_at t = H_RingEmpty"
    "m_dev (host_ctrl (sim_world t)) = \<lparr> di_addr = a, vendor_id = 0xAB12, product_id = 0xCD34,
        num_configs = 1, active_config = 1, enumerated = True, di_speed = SUPER_SPEED \<rparr>"
    "dev_addr_out (host_ctrl (sim_world t)) = a" "m_next_addr (host_ctrl (sim_world t)) = a + 1"
    "peer_assigned_addr (peer (sim_world t)) = a AND 0x7F" "peer_configured (peer (sim_world t))"
    by (simp_all add: served_def attached_def addressed_def enum_dev_def)
  from attach_irq_end [OF conjunct2 [OF t] it(3)] e have "bit (m_intr_status (drd (sim_world t))) 3"
    by (simp add: enum_noted_def)
  then show "\<exists>v. reg_read REG_INTR_STATUS (sim_world t) = Inr v \<and> v AND DRD_INTR_ENUM_DONE \<noteq> 0"
    by (simp add: read_intr_status bit_nonzero)
  from e rest_dev_addr [OF conjunct2 [OF t]] show "reg_read REG_DEV_ADDR (sim_world t) = Inr (ucast a)"
    by (simp add: read_dev_addr attached_def addressed_def)
qed

lemma attach_enumerates_witness:
  "\<exists>s t. sim_reachable s \<and> kernel_step\<^sup>*\<^sup>* (s\<lparr>tb_cc := CC_UFP_ATTACHED, tb_vbus := True\<rparr>) t \<and> at_rest t \<and>
     enumerated (m_dev (host_ctrl (sim_world t))) \<and> peer_assigned_addr (peer (sim_world t)) = 1"
proof -
  from idle_run_state obtain s where s: "sim_reachable s" "unattached s" by blast
  then have "at_rest s" "no_request (role_mgr (sim_world s))"
    "(CC_UFP_ATTACHED, True) \<noteq> (tb_cc s, tb_vbus s)" "role_desired CC_UFP_ATTACHED True = HOST"
    "m_role (role_mgr (sim_world s)) \<noteq> HOST" "host_at s = H_Disabled" "m_next_addr (host_ctrl (sim_world s)) = 1"
    by (simp_all add: unattached_def role_desired_def)
  note a = attach_enumerates [OF s(1) this]
  from a obtain t where t: "kernel_step\<^sup>*\<^sup>* (s\<lparr>tb_cc := CC_UFP_ATTACHED, tb_vbus := True\<rparr>) t" "at_rest t" by blast
  with a have "enumerated (m_dev (host_ctrl (sim_world t)))" "peer_assigned_addr (peer (sim_world t)) = 1" by simp_all
  with s(1) t show ?thesis by blast
qed

text \<open>C3. Transfers queued to an idle host, at whatever moments and in whatever order of the processes,
are run in the order they were queued in, each once: when the simulation is at rest the ring is
empty, the peer's buffer and the last received data are what the transfers come to one by one, and
the device's record and configuration are as before, and the XFER_DONE interrupt is recorded; and it
does come to rest.\<close>

theorem transfers_complete_in_order:
  assumes "sim_reachable s" and "idle_host s" and "transfer_run rs s t"
  shows "(\<exists>u. kernel_step\<^sup>*\<^sup>* t u \<and> at_rest u) \<and>
    (at_rest t \<longrightarrow> ring_queue (m_transfer_ring (host_ctrl (sim_world t))) = [] \<and>
      (m_loopback_buf (peer (sim_world t)), m_rx_buf (host_ctrl (sim_world t))) =
        fold request_effect rs (m_loopback_buf (peer (sim_world s)), m_rx_buf (host_ctrl (sim_world s))) \<and>
      m_dev (host_ctrl (sim_world t)) = m_dev (host_ctrl (sim_world s)) \<and>
      peer_configured (peer (sim_world t)) = peer_configured (peer (sim_world s)) \<and>
      (rs \<noteq> [] \<longrightarrow> m_intr_status (drd (sim_world t)) AND DRD_INTR_XFER_DONE \<noteq> 0))"
proof (intro conjI impI)
  show "\<exists>u. kernel_step\<^sup>*\<^sup>* t u \<and> at_rest u"
    by (rule comes_to_rest [OF sim_reachable_inv [OF transfer_run_reachable [OF assms(3,1)]]])
  assume rest: "at_rest t"
  from transfers_end [OF sim_reachable_inv [OF assms(1)] _ _ _ _ _ _ _ assms(3) rest] assms(2)
  have e: "ring_queue (m_transfer_ring (host_ctrl (sim_world t))) = []" "told (sim_world t) = told (sim_world s)"
    "bulk_data (sim_world t) = fold request_effect rs (bulk_data (sim_world s))"
    by (simp_all add: idle_host_def)
  from e(1) show "ring_queue (m_transfer_ring (host_ctrl (sim_world t))) = []" .
  from e(3) show "(m_loopback_buf (peer (sim_world t)), m_rx_buf (host_ctrl (sim_world t))) =
    fold request_effect rs (m_loopback_buf (peer (sim_world s)), m_rx_buf (host_ctrl (sim_world s)))"
    by (simp add: bulk_data_def)
  from e(2) show "m_dev (host_ctrl (sim_world t)) = m_dev (host_ctrl (sim_world s))"
    "peer_configured (peer (sim_world t)) = peer_configured (peer (sim_world s))"
    by (simp_all add: told_def peer_view_def)
  assume "rs \<noteq> []"
  with idle_xfer_irq [OF sim_reachable_inv [OF assms(1)] assms(2,3) rest]
  show "m_intr_status (drd (sim_world t)) AND DRD_INTR_XFER_DONE \<noteq> 0" by (simp add: bit_nonzero)
qed

text \<open>An OUT transfer and an IN transfer queued one after the other.\<close>

lemma queue_two:
  assumes "ring_queue (m_transfer_ring (host_ctrl (sim_world s))) = []"
  shows "\<exists>t. transfer_run [Req_Out a 2 bs, Req_In b 1 n] s t"
proof -
  obtain h where h: "queue_request (Req_Out a 2 bs) (host_ctrl (sim_world s)) = Inr h"
    "length (ring_queue (m_transfer_ring h)) = 1"
    using assms by (simp add: bulk_out_def bulk_enqueued)
  let ?s = "put_core ((sim_core s)\<lparr>sys := (sim_world s)\<lparr>host_ctrl := h\<rparr>\<rparr>) s"
  from tr_queue [OF tr_start h(1)] have run: "transfer_run [Req_Out a 2 bs] s ?s" by simp
  obtain h' where "queue_request (Req_In b 1 n) h = Inr h'"
    using h(2) by (simp add: bulk_in_def enqueue_bulk_trb_def Let_def ring_enqueue_def RING_DEPTH_def)
  then have "queue_request (Req_In b 1 n) (host_ctrl (sim_world ?s)) = Inr h'" by simp
  from tr_queue [OF run this] show ?thesis by auto
qed

lemma transfers_complete_in_order_witness:
  "\<exists>s t u. sim_reachable s \<and> transfer_run [Req_Out 1 2 [7], Req_In 1 1 64] s t \<and> kernel_step\<^sup>*\<^sup>* t u \<and>
     at_rest u \<and> m_rx_buf (host_ctrl (sim_world u)) = [7]"
proof -
  from attached_run_state obtain s where s: "sim_reachable s" "idle_host s"
    "ring_queue (m_transfer_ring (host_ctrl (sim_world s))) = []" by blast
  from queue_two [OF s(3)] obtain t where t: "transfer_run [Req_Out 1 2 [7], Req_In 1 1 64] s t" by blast
  from transfers_complete_in_order [OF s(1,2) t] obtain u where u: "kernel_step\<^sup>*\<^sup>* t u" "at_rest u" by blast
  from u(1) t have "transfer_run [Req_Out 1 2 [7], Req_In 1 1 64] s u"
    by (induction rule: rtranclp_induct) (auto intro: tr_kernel)
  from transfers_complete_in_order [OF s(1,2) this] u(2)
  have "m_rx_buf (host_ctrl (sim_world u)) = [7]" by simp
  with s t u show ?thesis by blast
qed

text \<open>C2. The loopback test of the testbench succeeds in every order of the processes and however the two
calls and the waiting times fall: once an OUT transfer of any data and an IN transfer have been
queued to an idle host and the simulation is at rest, the data received is the data sent.\<close>

theorem loopback_in_every_order:
  assumes "sim_reachable s" and "idle_host s" and "bs \<noteq> []"
    and "transfer_run [Req_Out a 2 bs, Req_In b 1 n] s t" and "at_rest t"
  shows "m_rx_buf (host_ctrl (sim_world t)) = bs \<and> m_loopback_buf (peer (sim_world t)) = [] \<and>
    ring_queue (m_transfer_ring (host_ctrl (sim_world t))) = []"
proof -
  from transfers_end [OF sim_reachable_inv [OF assms(1)] _ _ _ _ _ _ _ assms(4,5)] assms(2)
  have "ring_queue (m_transfer_ring (host_ctrl (sim_world t))) = []"
    "bulk_data (sim_world t) = fold request_effect [Req_Out a 2 bs, Req_In b 1 n] (bulk_data (sim_world s))"
    by (simp_all add: idle_host_def)
  with assms(3) show ?thesis by (simp add: bulk_data_def)
qed

lemma loopback_in_every_order_witness:
  "\<exists>s t. sim_reachable s \<and> transfer_run [Req_Out 1 2 tx_pattern, Req_In 1 1 64] s t \<and> at_rest t \<and>
     loopback_ok (m_rx_buf (host_ctrl (sim_world t))) tx_pattern"
proof -
  from attached_run_state obtain s where s: "sim_reachable s" "idle_host s"
    "ring_queue (m_transfer_ring (host_ctrl (sim_world s))) = []" by blast
  from queue_two [OF s(3)] obtain t where t: "transfer_run [Req_Out 1 2 tx_pattern, Req_In 1 1 64] s t" by blast
  obtain u where u: "kernel_step\<^sup>*\<^sup>* t u" "at_rest u"
    using comes_to_rest [OF sim_reachable_inv [OF transfer_run_reachable [OF t s(1)]]] by blast
  from u(1) t have run: "transfer_run [Req_Out 1 2 tx_pattern, Req_In 1 1 64] s u"
    by (induction rule: rtranclp_induct) (auto intro: tr_kernel)
  have "tx_pattern \<noteq> []" by (simp add: tx_pattern_code)
  from loopback_in_every_order [OF s(1,2) this run u(2)]
  have "loopback_ok (m_rx_buf (host_ctrl (sim_world u))) tx_pattern"
    by (simp add: loopback_ok_def tx_pattern_def)
  with s run u show ?thesis by blast
qed

section \<open>The device role\<close>

text \<open>C5. In device role, data the link sends to the OUT endpoint of a configured device that is at rest is
taken in, and in every order of the processes the simulation comes to rest with exactly this data
at the IN endpoint, the OUT endpoint free and the BULK_IRQ interrupt recorded.\<close>

theorem device_data_reaches_endpoint:
  assumes "sim_reachable s" and "idle_device s" and "extension tr = Some e" and "pkt_type e = BULK_OUT"
    and "read_data tr = Inr bs"
  shows "\<exists>w. tb_upstream no_wait 2 tr 0 (sim_world s) = Inr (tr\<lparr>response_status := TLM_OK_RESPONSE\<rparr>, 0, w) \<and>
    (\<exists>t. kernel_step\<^sup>*\<^sup>* (put_core ((sim_core s)\<lparr>sys := w\<rparr>) s) t \<and> at_rest t) \<and>
    (\<forall>t. kernel_step\<^sup>*\<^sup>* (put_core ((sim_core s)\<lparr>sys := w\<rparr>) s) t \<and> at_rest t \<longrightarrow>
      (\<exists>f. fifo_read (m_ep1_in (dev_ctrl (sim_world t))) = Some (bs, f)) \<and>
      fifo_read (m_ep2_out (dev_ctrl (sim_world t))) = None \<and>
      m_intr_status (drd (sim_world t)) AND DRD_INTR_BULK_IRQ \<noteq> 0)"
proof -
  let ?w = "(sim_world s)\<lparr>dev_ctrl := (dev_ctrl (sim_world s))\<lparr>
      m_ep2_out := fifo_write bs (m_ep2_out (dev_ctrl (sim_world s))), m_out_ep_event := True\<rparr>\<rparr>"
  let ?s = "put_core ((sim_core s)\<lparr>sys := ?w\<rparr>) s"
  note i = sim_reachable_inv [OF assms(1)]
  have d: "at_rest s" "no_request (role_mgr (sim_world s))" "sig_role (sigs (sim_world s)) = DEVICE"
    "sig_dev_enable (sigs (sim_world s))" "\<not> sig_host_enable (sigs (sim_world s))" "m_configured (dev_ctrl (sim_world s))"
    using assms(2) by (simp_all add: idle_device_def)
  have call: "tb_upstream no_wait 2 tr 0 (sim_world s) = Inr (tr\<lparr>response_status := TLM_OK_RESPONSE\<rparr>, 0, ?w)"
    by (rule upstream_device_out [OF d(3,4) assms(3-5)])
  have si: "sim_inv ?s" by (rule env_inv [OF e_upstream [OF call] i])
  have sv: "served (tb_cc s, tb_vbus s) DEVICE s" using rest_served [OF i d(1,2)] d(3-5) by simp
  have l: "loop_inv (tb_cc s, tb_vbus s) bs ?s" by (rule loop_start [OF i d(1) sv d(6)])
  have "(\<exists>f. fifo_read (m_ep1_in (dev_ctrl (sim_world t))) = Some (bs, f)) \<and>
      fifo_read (m_ep2_out (dev_ctrl (sim_world t))) = None \<and>
      m_intr_status (drd (sim_world t)) AND DRD_INTR_BULK_IRQ \<noteq> 0"
    if t: "kernel_step\<^sup>*\<^sup>* ?s t" "at_rest t" for t
    using loop_end [OF t(2)] kernel_steps_loop [OF t(1) si l]
    by (auto simp: holds_def fifo_read_def bit_nonzero)
  with call comes_to_rest [OF si] show ?thesis by blast
qed

lemma device_data_reaches_endpoint_witness:
  "\<exists>s w t. sim_reachable s \<and> tb_upstream no_wait 2 (bulk_packet BULK_OUT 2 [1, 2, 3]) 0 (sim_world s) =
      Inr ((bulk_packet BULK_OUT 2 [1, 2, 3])\<lparr>response_status := TLM_OK_RESPONSE\<rparr>, 0, w) \<and>
    kernel_step\<^sup>*\<^sup>* (put_core ((sim_core s)\<lparr>sys := w\<rparr>) s) t \<and> at_rest t \<and>
    (\<exists>f. fifo_read (m_ep1_in (dev_ctrl (sim_world t))) = Some ([1, 2, 3], f))"
proof -
  from device_run_state obtain s where s: "sim_reachable s" "idle_device s" by blast
  let ?p = "bulk_packet BULK_OUT 2 [1, 2, 3]"
  obtain e where e: "extension ?p = Some e" "pkt_type e = BULK_OUT" "read_data ?p = Inr [1, 2, 3]"
    by (simp add: bulk_packet_def)
  from device_data_reaches_endpoint [OF s e] s show ?thesis by blast
qed

section \<open>Pulses that merge\<close>

lemma trb_segment_pulse:
  assumes "ring_queue (m_transfer_ring (host_ctrl w)) = t # ts" and "trb_ioc t" and "trb_segment tb_tp w = Inr (pc', w')"
  shows "pc' = H_XferDone \<and> transfer_done (host_ctrl w') \<and> ring_queue (m_transfer_ring (host_ctrl w')) = ts"
proof -
  from assms obtain tr d u where u: "tb_tp (trb_to_payload t) 0 (put_ring ts w) = Inr (tr, d, u)"
    by (auto simp: trb_segment_def ring_dequeue_def put_ring_def bindR_eq_Inr)
  have "host_view u = host_view (put_ring ts w)"
    using tb_quiet.quiet [of "trb_to_payload t" 0 "put_ring ts w"] u by (simp add: returns_iff_ex)
  then have "ring_queue (m_transfer_ring (host_ctrl u)) = ts" by (simp add: host_view_def put_ring_def)
  with assms u show ?thesis
    by (auto simp: trb_segment_def ring_dequeue_def put_ring_def Let_def split: if_splits)
qed

text \<open>C17. The done pulse of a transfer with another one queued behind it does not end: when the host thread
goes on after the 1 ns of the pulse, its turn lowers the port, runs the next transfer and raises the
port again, so the signal keeps its value and nobody sees that one transfer ended and another began.\<close>

theorem back_to_back_pulses_merge:
  assumes "sim_reachable s" and "host_at s = H_XferDone" and "sig_host_enable (sigs (sim_world s))"
    and "ring_queue (m_transfer_ring (host_ctrl (sim_world s))) = t # ts" and "trb_ioc t"
  shows "\<exists>u. proc_turn P_Host s = Inr u \<and> host_at u = H_XferDone \<and>
    ring_queue (m_transfer_ring (host_ctrl (sim_world u))) = ts \<and>
    transfer_done (host_ctrl (sim_world s)) \<and> transfer_done (host_ctrl (sim_world u)) \<and>
    sigs (sim_world u) = sigs (sim_world s)"
proof -
  let ?w = "(sim_world s)\<lparr>host_ctrl := (host_ctrl (sim_world s))\<lparr>transfer_done := False\<rparr>\<rparr>"
  have s: "s\<lparr>ready := ready s\<rparr> = s" by simp
  from turn_returns [OF sim_reachable_inv [OF assms(1)], of P_Host "ready s"]
  obtain u where u: "proc_turn P_Host s = Inr u" unfolding s by blast
  then obtain pc w where r: "host_turn tb_tp (host_fuel (sim_world s)) H_XferDone (sim_world s) = Inr (pc, w)"
    and w: "host_at u = pc" "sim_world u = w" using assms(2) by (auto simp: host_thread_turn_def bindR_eq_Inr Let_def)
  obtain m where "host_fuel (sim_world s) = Suc (Suc m)" by (auto simp: host_fuel_def)
  with r have "bindR (trb_segment tb_tp ?w) (\<lambda>(pc, w). if at_wait pc then Inr (pc, w) else host_turn tb_tp m pc w) =
      Inr (pc, w)"
    using assms(3,4) by (simp add: host_turn.simps(2) at_wait_def ring_empty_def)
  then obtain pc' w' where seg: "trb_segment tb_tp ?w = Inr (pc', w')"
    and k: "(if at_wait pc' then Inr (pc', w') else host_turn tb_tp m pc' w') = Inr (pc, w)"
    by (auto simp: bindR_eq_Inr)
  have q: "ring_queue (m_transfer_ring (host_ctrl ?w)) = t # ts" using assms(4) by simp
  from trb_segment_pulse [OF q assms(5) seg] have d: "pc' = H_XferDone" "transfer_done (host_ctrl w')"
    "ring_queue (m_transfer_ring (host_ctrl w')) = ts" by simp_all
  then have "pc = H_XferDone" "w = w'" using k by (simp_all add: at_wait_def)
  moreover have "transfer_done (host_ctrl (sim_world s))"
    using sim_invD(5) [OF sim_reachable_inv [OF assms(1)]] assms(2) by (simp add: host_inv_def)
  moreover have "sigs w = sigs (sim_world s)" using after_runD [OF sigs_kept.turn_closed [OF refl] r] by simp
  ultimately show ?thesis using u w d by blast
qed

lemma back_to_back_pulses_merge_witness:
  "\<exists>s u. sim_reachable s \<and> host_at s = H_XferDone \<and> proc_turn P_Host s = Inr u \<and> host_at u = H_XferDone \<and>
     transfer_done (host_ctrl (sim_world u))"
proof -
  from pulse_run_state obtain s t ts where s: "sim_reachable s" "host_at s = H_XferDone"
    "sig_host_enable (sigs (sim_world s))" "ring_queue (m_transfer_ring (host_ctrl (sim_world s))) = t # ts" "trb_ioc t"
    by blast
  from back_to_back_pulses_merge [OF this] s show ?thesis by blast
qed

section \<open>The whole scenario\<close>


section \<open>Two flaws\<close>

text \<open>C15. A software request for a role that arrives during the 10 ns pulse of another change is lost: a
state at rest is reachable in which the request for HOST is pending, the role manager waits for its
next event, and role and enabled controller are those of DEVICE.\<close>

theorem request_in_pulse_lost:
  "\<exists>s. sim_reachable s \<and> at_rest s \<and> (\<forall>t. \<not> kernel_step s t) \<and> m_host_requested (role_mgr (sim_world s)) \<and>
     m_role (role_mgr (sim_world s)) = DEVICE \<and> dev_enable (drd (sim_world s))"
proof -
  obtain s where s: "late_request_run = Inr s"
    using late_request_evaluated by (auto simp: late_request_lost_def split: sum.splits)
  have "late_request_lost (Inr s)" using late_request_evaluated unfolding s .
  with late_request_reachable [OF s] rest_stuck [of s] show ?thesis
    unfolding late_request_lost_def by auto
qed

text \<open>C16. A host that has once come to the end of its transfers never enumerates again while no transfer
is queued: whatever the inputs, the registers and the link do, however often the role changes, the
thread stays at its empty ring, and the device record and the next address stay as they are.\<close>

theorem no_enumeration_at_empty_ring:
  assumes "sim_reachable s" and "at_rest s" and "host_at s = H_RingEmpty" and "no_transfer_step\<^sup>*\<^sup>* s t"
  shows "host_at t = H_RingEmpty \<and> m_dev (host_ctrl (sim_world t)) = m_dev (host_ctrl (sim_world s)) \<and>
    m_next_addr (host_ctrl (sim_world t)) = m_next_addr (host_ctrl (sim_world s))"
proof -
  have "ring_asleep s" using assms(2,3)
    by (simp add: ring_asleep_def at_rest_def settled_def events_pending_def)
  from no_transfer_steps_asleep [OF assms(4) sim_reachable_inv [OF assms(1)] this]
  show ?thesis by (simp add: slept_def ring_asleep_def)
qed

text \<open>The device is unplugged and its record stays.\<close>

lemma no_enumeration_at_empty_ring_witness:
  "\<exists>s t. sim_reachable s \<and> no_transfer_step\<^sup>*\<^sup>* s t \<and> tb_cc t = CC_DISCONNECTED \<and> host_at t = H_RingEmpty \<and>
     enumerated (m_dev (host_ctrl (sim_world t)))"
proof -
  from attached_run_state obtain s where s: "sim_reachable s" "idle_host s" "enumerated (m_dev (host_ctrl (sim_world s)))"
    by blast
  then have r: "at_rest s" "host_at s = H_RingEmpty" by (simp_all add: idle_host_def)
  let ?t = "s\<lparr>tb_cc := CC_DISCONNECTED, tb_vbus := False\<rparr>"
  have "no_transfer_step s ?t"
    using e_inputs [of s False CC_DISCONNECTED] r(1)
    by (simp add: no_transfer_step_def at_rest_def settled_def events_pending_def)
  then have run: "no_transfer_step\<^sup>*\<^sup>* s ?t" by blast
  from no_enumeration_at_empty_ring [OF s(1) r run] s run show ?thesis
    by (intro exI [of _ s] exI [of _ ?t]) simp
qed

end
