(* ===== verification/Spec2Isabelle.thy ===== *)
theory Spec2Isabelle imports Block_Properties Drd_Properties Sim_Properties begin

text \<open>
  A verification development for the USB 3.0 dual role device model (SystemC/TLM, \<open>include/\<close> and
  \<open>src/\<close>).

  The program. \<open>usb3_drd_controller_t\<close> contains a role manager (which role, from USB-C CC state,
  VBUS and software), a host controller (enumeration, control transfers, a ring of bulk
  transfers), a device controller (standard requests, bulk loopback from endpoint 2 to endpoint 1)
  and a protocol layer through which both controllers reach the link. It adds a register file, an
  interrupt line, and a thread that enables the controller of the new role. The testbench in
  \<open>sc_main.cpp\<close> connects it to a small peer device.

  The model. All blocks work on one state, the record \<open>world\<close> (\<open>Drd_World\<close>), with one field per
  block and the values the signals show; an output port is a field of its block with the value
  last written, and \<open>bind_internal\<close> says which port drives which signal. A handler takes the
  state and returns it updated; it may abort (failed assertion, access outside a payload's
  memory), which is the left side of \<open>'a run\<close>. Sockets are parameters of the code that sends on
  them, and \<open>wait\<close> is a parameter \<open>wt\<close>: what the other processes make of the state meanwhile.

  \<^item> \<open>Usb3_Prelude\<close>, \<open>Usb3_Types\<close>: words, vectors, results; \<open>usb3_types.h\<close> and the parts of a TLM
    payload the sources use.
  \<^item> \<open>Usb3_Channels\<close>, \<open>Usb3_Buffers\<close>: contracts of a bounded queue and of a one-element buffer, and
    the transfer ring and endpoint FIFO that meet them.
  \<^item> \<open>Usb3_Descriptors\<close>: descriptor structures, their bytes, answers to GET_DESCRIPTOR.
  \<^item> \<open>Role_Manager\<close>: \<open>usb3_role_manager.cpp\<close>, its thread as a step relation, and its abstract
    specification as a role with a strongest pending request.
  \<^item> \<open>Drd_World\<close>, \<open>Protocol_Layer\<close>, \<open>Device_Controller\<close>, \<open>Host_Controller\<close>, \<open>Drd_Controller\<close>: the state
    and the operations of the blocks, one definition per function of the sources. Threads are cut
    at their \<open>wait\<close> calls where the cut matters (\<open>role_detection_body\<close>, \<open>apply_role_end\<close>,
    \<open>role_switch_wake\<close>, \<open>role_switch_settle\<close>, \<open>loopback_body\<close>, \<open>loopback_end\<close>).
  \<^item> \<open>Socket_Contracts\<close>: what a socket promises its caller, as locales; every handler over a socket
    that keeps the promise returns and keeps it itself.
  \<^item> \<open>Peer_Testbench\<close>, \<open>Peer_Link\<close>: the peer, the closed binding \<open>tb_link\<close>, and the proof that it keeps
    the promise.
  \<^item> \<open>Enumeration\<close>, \<open>Host_Peer\<close>: enumeration proved against a contract of the control pipe, the peer
    behind the protocol layer as an instance, bulk transfers to the peer.
  \<^item> \<open>Link_Recorder\<close>, \<open>Block_Properties\<close>: properties of single blocks over a socket that records what
    is sent.
  \<^item> \<open>Drd_Registers\<close>: 32-bit accesses to the register file, status word, interrupt status.
  \<^item> \<open>Call_Invariants\<close>, \<open>Drd_System\<close>: what a call may change, and the DRD as a step relation whose
    processes run in any order; invariants of its reachable states.
  \<^item> \<open>Role_Switch\<close>, \<open>Drd_Properties\<close>: executable runs of that relation, role switches, and the
    properties of roles, registers and interrupts.
  \<^item> \<open>Host_Thread\<close>: \<open>host_main_process\<close> with a program counter for every place where it waits
    (\<open>host_segment\<close>), shown to compute \<open>enumerate_device\<close> and \<open>process_transfer_ring\<close>.
  \<^item> \<open>Sim_Kernel\<close>: the program under the simulation kernel's rules. \<open>proc_turn\<close> is one turn of one of
    the six processes, \<open>wakes\<close> their sensitivity, \<open>kernel_step\<close> what the kernel does by itself (run a
    ready process, any of them; a delta cycle; time moves on), \<open>env_step\<close> what testbench and link may
    do at any moment. \<open>Host_Progress\<close>, \<open>Sim_Invariants\<close>, \<open>Host_Turns\<close>: every turn returns, and the
    invariant \<open>sim_inv\<close> of the reachable states, with the refinement of \<open>drd_step\<close>.
    \<open>Sim_Liveness\<close>: a measure that every kernel step decreases, so the simulation comes to rest.
  \<^item> What rest looks like after something has happened, in every order of the processes. Each is an
    invariant carried along the kernel's steps: \<open>Role_Liveness\<close>, \<open>Served_Role\<close> (one change of the
    inputs, the role and enables that serve it), \<open>Pulses\<close> and \<open>Done_Pulses\<close> (a pulse on a port is
    seen by the interrupt collector), \<open>Host_Places\<close> with its instances \<open>Host_Attach\<close> (enumeration) and
    \<open>Host_Transfers\<close> (queued transfers), \<open>Host_Asleep\<close> (a host at its empty ring), \<open>Device_Run\<close> (data
    through the device's loopback thread).
  \<^item> \<open>Testbench_Scenario\<close>, \<open>Scenario_Run\<close>: \<open>run_scenarios\<close> between its waits, a run of kernel and
    testbench in one order of the processes, evaluated. \<open>Sim_Properties\<close>: the properties of the
    program as the kernel runs it.
  \<^item> This theory: the properties of DRD and peer together.

  Bounds. Calls nest through the peer and back; \<open>tb_link n\<close> allows \<open>n\<close> nested calls of the peer, and
  two are enough for every payload and state (\<open>depth_two_is_exact\<close>). The loop over the transfer ring
  takes fuel; the number of queued TRBs is enough while nothing is queued meanwhile
  (\<open>ring_runs_in_order\<close>). One turn of the host thread takes \<open>host_fuel\<close> stretches, three more than TRBs
  are queued, and \<open>every_turn_returns\<close> shows that it then has reached a \<open>wait\<close>. \<open>run_until\<close> and
  \<open>run_program\<close> take the number of kernel steps per stretch (100) and of stretches (10), and
  \<open>scenario_passes\<close> shows that the program has stopped within them. No other loop is unbounded:
  threads are modelled by one round.

  Time and order. There are two views. In \<open>drd_step\<close> (\<open>Drd_System\<close>) the processes of the DRD take their
  turns in any order at any moment, signal updates are a step of their own, and the host thread is
  any sequence of calls and member updates; its invariants hold of the program by refinement
  (\<open>simulation_refines_system\<close>). In \<open>kernel_step\<close> the kernel's rules hold: evaluation and update
  phases, events notified for the next delta cycle and lost on a process that does not wait for
  them then, timed waits, static sensitivity; only the order of the ready processes is open. A call that arrives from the link or
  from software comes between two turns. Handlers with a \<open>wt\<close> parameter state what they need of the
  waiting (\<open>quiet_wait\<close>, \<open>still_wait\<close>, \<open>ring_wait\<close>) or nothing at all.

  Not modelled: logging and the testbench's printing, which only write to the console; \<open>sc_main\<close>,
  which starts the kernel; the build. The kernel itself and the TLM sockets are libraries: their
  rules are part of the model as the sources rely on them. The values a read-only getter returns
  (\<open>get_role\<close>, \<open>is_configured\<close>, \<open>rx_buffer\<close>, \<open>device_info\<close>) are the fields themselves. Assertions are
  taken as enabled, as in the default build.
\<close>

section \<open>Enumeration\<close>

text \<open>C11. Over the peer of the testbench, in host role and with waits that leave the host thread
alone, enumeration returns and leaves the device enumerated: the fields of the peer's descriptor,
configuration 1 and the next free address are recorded, the peer holds the low seven bits of that
address and is configured, the address counter has moved on and the done pulse is over.\<close>

theorem enumeration_succeeds:
  assumes "quiet_wait host_up peer_view wt" and "host_up w"
  shows "returns (enumerate_device (tb_host_socket wt 2) wt w) (\<lambda>w'. host_up w' \<and>
    peer_view w' = (m_next_addr (host_ctrl w) AND 0x7F, True) \<and>
    m_dev (host_ctrl w') = \<lparr> di_addr = m_next_addr (host_ctrl w), vendor_id = 0xAB12,
      product_id = 0xCD34, num_configs = 1, active_config = 1, enumerated = True,
      di_speed = di_speed (m_dev (host_ctrl w)) \<rparr> \<and>
    m_next_addr (host_ctrl w') = m_next_addr (host_ctrl w) + 1 \<and>
    dev_addr_out (host_ctrl w') = m_next_addr (host_ctrl w) \<and>
    \<not> m_resp_valid (host_ctrl w') \<and> \<not> enumeration_done (host_ctrl w'))"
  unfolding numeral_2_eq_2
  by (rule returns_mono [OF tb_pipe.enumerate_ok [OF assms peer_descriptor_values(1)]];
      cases "m_dev (host_ctrl w)")
    (simp_all add: peer_descriptor_values peer_descriptor_nonempty parse_peer_dev_desc)

lemma enumeration_succeeds_witness:
  "returns (enumerate_device (tb_host_socket (\<lambda>t w. w) 2) (\<lambda>t w. w) tb_host_world) (\<lambda>w'.
     enumerated (m_dev (host_ctrl w')) \<and> di_addr (m_dev (host_ctrl w')) = 1 \<and>
     peer_view w' = (1, True) \<and> m_next_addr (host_ctrl w') = 2)"
  by (rule returns_mono [OF enumeration_succeeds])
    (auto simp: still_wait_quiet host_controller_new_def)

text \<open>The host's loop body without the ring: forget the device, enumerate; \<open>n\<close> times.\<close>

fun enumerate_times :: "tb_world waiting \<Rightarrow> nat \<Rightarrow> tb_world \<Rightarrow> tb_world run" where
  "enumerate_times wt 0 w = Inr w"
| "enumerate_times wt (Suc n) w = bindR (enumerate_times wt n w) (\<lambda>w.
     enumerate_device (tb_host_socket wt 2) wt
       (w\<lparr>host_ctrl := (host_ctrl w)\<lparr>m_dev := default_device_info\<rparr>\<rparr>))"

lemma enumerate_times_ok:
  assumes q: "quiet_wait host_up peer_view wt" and "host_up w"
  shows "returns (enumerate_times wt n w) (\<lambda>w'. host_up w' \<and>
    m_next_addr (host_ctrl w') = m_next_addr (host_ctrl w) + of_nat n \<and>
    (n > 0 \<longrightarrow> di_addr (m_dev (host_ctrl w')) = m_next_addr (host_ctrl w) + of_nat (n - 1) \<and>
       peer_assigned_addr (peer w') = (m_next_addr (host_ctrl w) + of_nat (n - 1)) AND 0x7F))"
proof (induction n)
  case 0
  then show ?case using assms(2) by simp
next
  case (Suc n)
  show ?case
    unfolding enumerate_times.simps numeral_2_eq_2
    by (rule returns_bind [OF Suc.IH],
        rule returns_mono [OF tb_pipe.enumerate_ok [OF q _ peer_descriptor_values(1)]])
      (auto simp: peer_descriptor_values peer_descriptor_nonempty peer_view_def host_up_def add_ac)
qed

text \<open>C38. Each enumeration takes the next address of an 8-bit counter and nothing bounds it to the
127 addresses of the bus: the n-th enumeration after power-up gives the host the address n modulo
256 and the peer that value modulo 128. From the 128th on the two differ.\<close>

theorem addresses_run_past_127:
  assumes "quiet_wait host_up peer_view wt" and "host_up w" and "m_next_addr (host_ctrl w) = 1"
  shows "returns (enumerate_times wt (Suc n) w) (\<lambda>w'.
    unat (di_addr (m_dev (host_ctrl w'))) = Suc n mod 256 \<and>
    unat (peer_assigned_addr (peer w')) = Suc n mod 128)"
proof -
  have u: "unat (1 + of_nat n :: u8) = Suc n mod 256"
    using unat_of_nat [of "Suc n", where 'a = 8] by simp
  then have "unat ((1 + of_nat n :: u8) AND 0x7F) = Suc n mod 128"
    by (simp add: unat_and_7F mod_mod_cancel)
  with u show ?thesis
    using enumerate_times_ok [OF assms(1,2), of "Suc n"] assms(3)
    by (auto elim!: returns_mono)
qed

lemma addresses_run_past_127_witness:
  "returns (enumerate_times (\<lambda>t w. w) (Suc 127) tb_host_world) (\<lambda>w'.
     unat (di_addr (m_dev (host_ctrl w'))) = 128 \<and> unat (peer_assigned_addr (peer w')) = 0)"
  by (rule returns_mono [OF addresses_run_past_127])
    (auto simp: still_wait_quiet host_controller_new_def)

section \<open>Calls return\<close>

text \<open>Whatever the state of the DRD and whatever other threads do during waits, a round of the
host thread (enumeration, then up to n TRBs) and a pass of the device's loopback thread return over
the testbench's link: no assertion fails, no buffer is overrun, and calls nest at most two deep.\<close>

theorem threads_return:
  "returns (host_main_round (tb_host_socket wt 2) wt n w) (\<lambda>(out, w'). True) \<and>
   returns (loopback_body (dev_to_protocol (tb_link wt 2)) w) (\<lambda>(w', p). True)"
  using tb.host.main_round_safe [of wt 0 n w] tb.dev.loopback_safe [of wt 0 w]
  by (simp add: numeral_2_eq_2)

text \<open>C12. The same for whatever arrives from the link: a call with a payload whose length stays
within its memory returns, with such a payload again.\<close>

theorem upstream_calls_return:
  assumes "payload_wf tr"
  shows "returns (tb_upstream wt 2 tr d w) (\<lambda>(tr', d', w'). payload_wf tr')"
  unfolding numeral_2_eq_2
  by (rule returns_mono [OF safe_btD [OF tb.upstream_safe assms]]) auto

lemma upstream_calls_return_witness:
  "returns (tb_upstream (\<lambda>t w. w) 2 (setup_payload 3 (get_descriptor_setup USB_DESC_BOS 0)) 0 tb_new)
     (\<lambda>(tr', d', w'). payload_wf tr')"
  by (rule upstream_calls_return) simp

text \<open>C32. Two nested calls are enough and needed: with any larger bound a call with a well-formed
payload comes out the same, while with a bound of one some call does not come out at all (the
peer's data, arriving in device role, makes the device send its own data back).\<close>

theorem depth_two_is_exact:
  "(payload_wf tr \<longrightarrow> tb_link wt (2 + k) tr d w = tb_link wt 2 tr d w) \<and>
   (\<exists>tr w. payload_wf tr \<and> tb_link wt 1 tr d w = Inl CallDepth)"
proof
  have "payload_wf tr \<Longrightarrow> \<exists>r. tb_link wt 2 tr d w = Inr r"
    using safe_btD [OF tb_link_safe_True [of wt 0], of tr d w] by (auto simp: numeral_2_eq_2 returns_iff_ex)
  then show "payload_wf tr \<longrightarrow> tb_link wt (2 + k) tr d w = tb_link wt 2 tr d w"
    using tb_link_depth_add [of wt 2 tr d w _ k] by fastforce
next
  let ?w = "tb_new\<lparr>sigs := drd_signals_new\<lparr>sig_role := DEVICE, sig_dev_enable := True\<rparr>,
    dev_ctrl := device_controller_new\<lparr>m_ep1_in := fifo_write [1] fifo_new\<rparr>,
    peer := peer_device_new\<lparr>m_loopback_buf := [2]\<rparr>\<rparr>"
  have "tb_link wt 1 (bulk_packet BULK_IN 1 []) d ?w = Inl CallDepth"
    by (simp add: tb_link_Suc [of wt 0, simplified] peer_b_transport_def bulk_packet_def
        peer_send_bulk_in_def upstream_b_transport_def link_b_transport_def handle_rx_cases
        absorbed_def mark_stall_def forward_to_active_controller_def from_proto_b_transport_def
        handle_bulk_in_def send_bulk_in_def send_to_protocol_def dev_to_protocol_def tx_eq_route
        route_tx_ext tb_link.simps(1) fifo_read_def fifo_write_def)
  then show "\<exists>tr w. payload_wf tr \<and> tb_link wt 1 tr d w = Inl CallDepth"
    by (intro exI conjI) (auto simp: bulk_packet_def)
qed

lemma depth_two_is_exact_witness:
  "tb_link (\<lambda>t w. w) (2 + 5) (status_payload 1 True) 0 tb_new = tb_link (\<lambda>t w. w) 2 (status_payload 1 True) 0 tb_new"
  using depth_two_is_exact [of "status_payload 1 True" "\<lambda>t w. w" 5 0 tb_new] by simp

text \<open>No call of the testbench's link waits: the result does not depend on what a waiting thread
would let happen, so calls are atomic steps of the system.\<close>

theorem calls_do_not_wait:
  "tb_link wt n tr d w = tb_link wt' n tr d w"
  by (simp add: tb_link_no_wait [of wt n wt'])

section \<open>Stalled requests\<close>

text \<open>A device that stalls every SETUP, the way the device controller does with an unknown request.\<close>

definition stalling_peer :: "('e world_scheme) b_transport \<Rightarrow> ('e world_scheme) b_transport" where
  "stalling_peer up tr d w = (case extension tr of
      Some e \<Rightarrow> if pkt_type e = SETUP
        then bindR (up (make_payload TLM_WRITE_COMMAND (replicate 4 0)
              (make_usb3_ext TP_STALL 0 0 DEVICE_TO_HOST CONTROL)) 0 w)
            (\<lambda>(_, _, w). Inr (tr\<lparr>response_status := TLM_GENERIC_ERROR_RESPONSE\<rparr>, d, w))
        else Inr (tr\<lparr>response_status := TLM_OK_RESPONSE\<rparr>, d, w)
    | None \<Rightarrow> Inr (tr, d, w))"

text \<open>C39. The host does not notice a stall: although the protocol layer marks it, the four bytes of the
stall packet are delivered as the descriptor, and the request counts as successful.\<close>

theorem stall_taken_for_descriptor:
  assumes "sig_role (sigs w) = HOST"
  shows "returns (get_descriptor (host_to_protocol (stalling_peer
      (link_b_transport from_protocol_b_transport to_device))) (\<lambda>t w. w) a t i [] w)
    (\<lambda>(ok, buf, w'). ok \<and> buf = [0, 0, 0, 0])"
proof -
  have "unat (wLength (get_descriptor_setup t i)) > 0"
    by (simp add: get_descriptor_setup_def)
  with assms show ?thesis
    by (simp add: get_descriptor_def ctrl_transfer_def host_to_protocol_def tx_eq_route route_tx_ext
        stalling_peer_def link_b_transport_def handle_rx_cases absorbed_def mark_stall_def
        forward_to_active_controller_def from_protocol_b_transport_def vec_data_def read_data_def
        ctrl_data_stage_def Let_def numeral_eq_Suc)
qed

lemma stall_taken_for_descriptor_witness:
  "returns (get_descriptor (host_to_protocol (stalling_peer
      (link_b_transport from_protocol_b_transport (\<lambda>tr d w. Inr (tr, d, w))))) (\<lambda>t w. w) 0
      USB_DESC_DEVICE 0 [] rec_world)
    (\<lambda>(ok, buf, w'). ok \<and> buf = [0, 0, 0, 0])"
  by (rule stall_taken_for_descriptor) (simp add: rec_world_def world.extend_def drd_new_def)

text \<open>The configuration blob of the peer announces 49 bytes and has 44, and the BOS descriptor of
both the peer and the device announces 22 bytes and has 15; the device's own configuration blob
announces what it has.\<close>

theorem announced_lengths:
  "le16 (make_cfg_desc ! 2) (make_cfg_desc ! 3) = 49 \<and> length make_cfg_desc = 44 \<and>
   le16 (bos_bytes ! 2) (bos_bytes ! 3) = 22 \<and> length bos_bytes = 15 \<and> peer_bos = bos_bytes \<and>
   drop 4 make_cfg_desc = drop 4 (m_config_blob (init_descriptors default_descriptor_set))"
  by (simp add: make_cfg_desc_def bos_bytes_def peer_bos_def config_blob_value le16_def)

end
